(* ===== verification/GoBase.thy ===== *)
theory GoBase
  imports Complex_Main "HOL-Library.Sublist" "HOL-Library.Char_ord" "HOL-Library.List_Lexorder"
begin

text \<open>
  The prelude of the development: the part of the Go language and of its standard library that
  every component uses. Go strings are byte strings, so they are \<^typ>\<open>string\<close> with one
  character per byte; white space follows \<open>unicode.IsSpace\<close>, whose runes are written as their
  UTF-8 byte sequences. Errors are values with the chain of sentinels \<open>errors.Is\<close> walks
  and the text \<open>Error()\<close> prints. A Go map is an association list where the order of its
  iteration matters (the list is one order the runtime may choose) and a HOL map elsewhere.
\<close>

named_theorems go_defs "unfolding of the standard-library functions"
named_theorems trim_simps "strings on which trimming is the identity"

section \<open>Errors\<close>

text \<open>
  The text of an error is kept as the list of its pieces: literal text, and the operands of
  the verb \<open>%q\<close>. The quoting function is only applied when the text is rendered.
\<close>

datatype part = Lit string | Quo string

text \<open>
  \<open>GErr ids text\<close>: the identities of the sentinel errors in the chain that \<open>%w\<close> builds, and
  the text.
\<close>

datatype gerr = GErr (err_ids: "string list") (err_text: "part list")

definition errors_New :: "string \<Rightarrow> gerr" where
  "errors_New s = GErr [] [Lit s]"

definition sentinel :: "string \<Rightarrow> string \<Rightarrow> gerr" where
  "sentinel i s = GErr [i] [Lit s]"

text \<open>\<open>fmt.Errorf\<close> with one \<open>%w\<close>: text before, the wrapped error, text after.\<close>

definition wrapf :: "part list \<Rightarrow> gerr \<Rightarrow> part list \<Rightarrow> gerr" where
  "wrapf pre e post = GErr (err_ids e) (pre @ err_text e @ post)"

text \<open>\<open>fmt.Errorf\<close> without \<open>%w\<close>: the chain ends here.\<close>

definition errorf :: "part list \<Rightarrow> gerr" where
  "errorf ps = GErr [] ps"

definition errors_Is :: "gerr \<Rightarrow> gerr \<Rightarrow> bool" where
  "errors_Is e t = list_ex (\<lambda>i. List.member (err_ids e) i) (err_ids t)"

fun render_part :: "(string \<Rightarrow> string) \<Rightarrow> part \<Rightarrow> string" where
  "render_part q (Lit s) = s"
| "render_part q (Quo s) = q s"

definition err_Error :: "(string \<Rightarrow> string) \<Rightarrow> gerr \<Rightarrow> string" where
  "err_Error q e = concat (map (render_part q) (err_text e))"

lemma errors_Is_wrapf [simp]: "errors_Is (wrapf pre e post) t = errors_Is e t"
  by (simp add: errors_Is_def wrapf_def)

lemma errors_Is_errorf [simp]: "\<not> errors_Is (errorf ps) t"
  by (simp add: errors_Is_def errorf_def list_ex_iff)

lemma errors_Is_New [simp]: "\<not> errors_Is (errors_New s) t"
  by (simp add: errors_Is_def errors_New_def list_ex_iff)

lemma errors_Is_sentinel [simp]: "errors_Is (sentinel i s) (sentinel j t) \<longleftrightarrow> i = j"
  by (auto simp: errors_Is_def sentinel_def)

section \<open>White space and trimming\<close>

text \<open>The white space runes of \<open>unicode.IsSpace\<close> as UTF-8.\<close>

definition ascii_spaces :: "char list" where
  "ascii_spaces = [CHR 0x09, CHR 0x0A, CHR 0x0B, CHR 0x0C, CHR 0x0D, CHR 0x20]"

definition space_seqs :: "string list" where
  "space_seqs = map (\<lambda>c. [c]) ascii_spaces @
     [[CHR 0xC2, CHR 0x85], [CHR 0xC2, CHR 0xA0], [CHR 0xE1, CHR 0x9A, CHR 0x80],
      [CHR 0xE2, CHR 0x80, CHR 0x80], [CHR 0xE2, CHR 0x80, CHR 0x81],
      [CHR 0xE2, CHR 0x80, CHR 0x82], [CHR 0xE2, CHR 0x80, CHR 0x83],
      [CHR 0xE2, CHR 0x80, CHR 0x84], [CHR 0xE2, CHR 0x80, CHR 0x85],
      [CHR 0xE2, CHR 0x80, CHR 0x86], [CHR 0xE2, CHR 0x80, CHR 0x87],
      [CHR 0xE2, CHR 0x80, CHR 0x88], [CHR 0xE2, CHR 0x80, CHR 0x89],
      [CHR 0xE2, CHR 0x80, CHR 0x8A], [CHR 0xE2, CHR 0x80, CHR 0xA8],
      [CHR 0xE2, CHR 0x80, CHR 0xA9], [CHR 0xE2, CHR 0x80, CHR 0xAF],
      [CHR 0xE2, CHR 0x81, CHR 0x9F], [CHR 0xE3, CHR 0x80, CHR 0x80]]"

text \<open>The sequence of a list that stands at the front of a string, if there is one.\<close>

definition front :: "string list \<Rightarrow> string \<Rightarrow> string option" where
  "front ps s = find (\<lambda>p. p \<noteq> [] \<and> prefix p s) ps"

text \<open>Drop sequences from the front as long as there is one.\<close>

function strip :: "string list \<Rightarrow> string \<Rightarrow> string" where
  "strip ps s = (case front ps s of None \<Rightarrow> s | Some p \<Rightarrow> strip ps (drop (length p) s))"
  by pat_completeness auto
termination
proof (relation "measure (length \<circ> snd)", simp)
  fix ps s p
  assume "front ps s = Some p"
  then have "p \<noteq> []" and "prefix p s"
    by (auto simp: front_def find_Some_iff)
  then show "((ps, drop (length p) s), ps, s) \<in> measure (length \<circ> snd)"
    by (cases s) auto
qed

declare strip.simps [simp del]

text \<open>
  \<open>strings.TrimSpace\<close>. Every white space rune starts with a byte that cannot continue another
  rune, so matching the byte sequences at either end is what decoding runes there finds.
\<close>

definition trim_left :: "string \<Rightarrow> string" where
  "trim_left s = strip space_seqs s"

definition trim_right :: "string \<Rightarrow> string" where
  "trim_right s = rev (strip (map rev space_seqs) (rev s))"

definition trim_space :: "string \<Rightarrow> string" where
  "trim_space s = trim_right (trim_left s)"

lemma front_None: "front ps s = None \<longleftrightarrow> (\<forall>p\<in>set ps. p = [] \<or> \<not> prefix p s)"
  by (auto simp: front_def find_None_iff)

lemma front_strip [simp]: "front ps (strip ps s) = None"
proof (induction ps s rule: strip.induct)
  case (1 ps s)
  then show ?case
    by (cases "front ps s") (simp_all add: strip.simps [of ps s])
qed

lemma strip_id: "front ps s = None \<Longrightarrow> strip ps s = s"
  by (simp add: strip.simps)

lemma suffix_strip: "suffix (strip ps s) s"
proof (induction ps s rule: strip.induct)
  case (1 ps s)
  show ?case
  proof (cases "front ps s")
    case None
    then show ?thesis by (simp add: strip_id)
  next
    case (Some p)
    then have "suffix (strip ps (drop (length p) s)) (drop (length p) s)" by (rule 1)
    with Some show ?thesis
      by (simp add: strip.simps [of ps s]) (meson suffix_drop suffix_order.trans)
  qed
qed

lemma front_None_prefix: "front ps s = None \<Longrightarrow> prefix t s \<Longrightarrow> front ps t = None"
  by (auto simp: front_None dest: prefix_order.trans)

lemma prefix_trim_right: "prefix (trim_right s) s"
  using suffix_strip [of "map rev space_seqs" "rev s"]
  by (simp add: trim_right_def suffix_to_prefix)

lemma front_trim_space [simp]: "front space_seqs (trim_space s) = None"
  unfolding trim_space_def
  by (rule front_None_prefix [OF _ prefix_trim_right]) (simp add: trim_left_def)

lemma trim_space_idem [simp]: "trim_space (trim_space s) = trim_space s"
proof -
  have "trim_left (trim_space s) = trim_space s"
    by (simp add: trim_left_def strip_id)
  then show ?thesis
    by (simp add: trim_space_def trim_right_def strip_id)
qed

lemma front_Nil [simp]: "front ps [] = None"
  by (auto simp: front_None)

lemma trim_space_Nil [simp]: "trim_space [] = []"
  by (simp add: trim_space_def trim_left_def trim_right_def strip_id)

text \<open>The bytes a white space rune may start or end with.\<close>

definition space_ends :: "char list" where
  "space_ends = map hd space_seqs @ map last space_seqs"

lemma front_hd: "c \<notin> hd ` set ps \<Longrightarrow> front ps (c # s) = None"
proof -
  assume c: "c \<notin> hd ` set ps"
  have "p = [] \<or> \<not> prefix p (c # s)" if "p \<in> set ps" for p
    using c that by (cases p) (auto simp: image_iff)
  then show ?thesis by (simp add: front_None)
qed

lemma trim_space_id [trim_simps]:
  assumes "s \<noteq> []" and "hd s \<notin> set space_ends" and "last s \<notin> set space_ends"
  shows "trim_space s = s"
proof -
  have ne: "p \<noteq> []" if "p \<in> set space_seqs" for p
    using that by (auto simp: space_seqs_def)
  obtain c s' where s: "s = c # s'" using assms(1) by (cases s) auto
  obtain d t where r: "rev s = d # t" using assms(1) by (cases "rev s") auto
  from r have d: "d = last s" by (metis hd_rev list.sel(1))
  have "front space_seqs s = None"
    using assms(2) by (auto simp: s space_ends_def intro: front_hd)
  moreover have "front (map rev space_seqs) (rev s) = None"
    unfolding r using assms(3) ne
    by (intro front_hd) (auto simp: d space_ends_def hd_rev)
  ultimately show ?thesis
    by (simp add: trim_space_def trim_left_def trim_right_def strip_id)
qed

section \<open>Invariants of step relations\<close>

text \<open>The contract of a step relation with an invariant: what one step keeps, all keep.\<close>

locale step_invariant =
  fixes step :: "'s \<Rightarrow> 's \<Rightarrow> bool" and inv :: "'s \<Rightarrow> bool"
  assumes keeps: "step s s' \<Longrightarrow> inv s \<Longrightarrow> inv s'"
begin

lemma steps_keep: "step\<^sup>*\<^sup>* s s' \<Longrightarrow> inv s \<Longrightarrow> inv s'"
  by (induction rule: rtranclp_induct) (auto intro: keeps)

end

end
