(* ===== verification/GoText.thy ===== *)
theory GoText
  imports GoBase
begin

text \<open>
  The functions of the packages \<open>strings\<close> and \<open>strconv\<close> the program calls: splitting, joining,
  fields, prefixes and suffixes, case folding, decimal numbers. The lemmas show that
  splitting and joining invert each other, that joining the fields of a string with a blank
  normalises it (twice is once), and that decimal printing and reading invert each other.
\<close>

section \<open>Prefixes, suffixes, substrings\<close>

definition has_prefix :: "string \<Rightarrow> string \<Rightarrow> bool" where
  "has_prefix s p = prefix p s"

definition has_suffix :: "string \<Rightarrow> string \<Rightarrow> bool" where
  "has_suffix s p = prefix (rev p) (rev s)"

definition trim_prefix :: "string \<Rightarrow> string \<Rightarrow> string" where
  "trim_prefix s p = (if prefix p s then drop (length p) s else s)"

definition trim_suffix :: "string \<Rightarrow> string \<Rightarrow> string" where
  "trim_suffix s p = (if has_suffix s p then take (length s - length p) s else s)"

text \<open>\<open>strings.TrimRight\<close> with a cutset of one character.\<close>

definition trim_right_char :: "char \<Rightarrow> string \<Rightarrow> string" where
  "trim_right_char c s = rev (dropWhile (\<lambda>x. x = c) (rev s))"

fun contains :: "string \<Rightarrow> string \<Rightarrow> bool" where
  "contains [] p = (p = [])"
| "contains (c # s) p = (prefix p (c # s) \<or> contains s p)"

lemma contains_append: "contains (a @ p @ b) p"
proof (induction a)
  case Nil
  have "contains s p" if "prefix p s" for s
    using that by (cases s) auto
  then show ?case by simp
qed auto

section \<open>Splitting at a separator, joining\<close>

text \<open>\<open>strings.Split\<close> with a separator of one character.\<close>

fun split_on :: "char \<Rightarrow> string \<Rightarrow> string list" where
  "split_on c [] = [[]]"
| "split_on c (x # xs) =
     (if x = c then [] # split_on c xs
      else case split_on c xs of [] \<Rightarrow> [[x]] | w # ws \<Rightarrow> (x # w) # ws)"

fun join :: "string \<Rightarrow> string list \<Rightarrow> string" where
  "join sep [] = []"
| "join sep [w] = w"
| "join sep (w # v # ws) = w @ sep @ join sep (v # ws)"

lemma split_on_nonempty [simp]: "split_on c s \<noteq> []"
  by (cases s) (auto split: list.splits)

lemma join_Cons: "ws \<noteq> [] \<Longrightarrow> join sep (w # ws) = w @ sep @ join sep ws"
  by (cases ws) auto

lemma join_cons_hd: "join sep ((x # w) # ws) = x # join sep (w # ws)"
  by (cases ws) auto

lemma join_split_on [simp]: "join [c] (split_on c s) = s"
proof (induction s)
  case Nil
  then show ?case by simp
next
  case (Cons x s)
  then show ?case
    by (auto simp: join_Cons join_cons_hd split: list.splits)
qed

lemma split_on_no_sep: "w \<in> set (split_on c s) \<Longrightarrow> c \<notin> set w"
  by (induction s arbitrary: w) (auto split: if_splits list.splits)

lemma split_on_id: "c \<notin> set s \<Longrightarrow> split_on c s = [s]"
  by (induction s) auto

lemma split_on_append: "c \<notin> set w \<Longrightarrow> split_on c (w @ c # s) = w # split_on c s"
  by (induction w) auto

lemma split_on_join:
  "ws \<noteq> [] \<Longrightarrow> \<forall>w\<in>set ws. c \<notin> set w \<Longrightarrow> split_on c (join [c] ws) = ws"
  by (induction "[c]" ws rule: join.induct) (auto simp: split_on_id split_on_append)

lemma length_split_on: "length (split_on c s) = Suc (count_list s c)"
  by (induction s) (auto split: list.splits)

section \<open>Fields\<close>

text \<open>\<open>strings.Fields\<close>: the maximal runs without white space.\<close>

function fields_from :: "string \<Rightarrow> string \<Rightarrow> string list" where
  "fields_from cur s =
     (case s of
        [] \<Rightarrow> (if cur = [] then [] else [cur])
      | c # r \<Rightarrow>
          (case front space_seqs s of
             None \<Rightarrow> fields_from (cur @ [c]) r
           | Some p \<Rightarrow> (if cur = [] then [] else [cur]) @ fields_from [] (drop (length p) s)))"
  by pat_completeness auto
termination
proof (relation "measure (length \<circ> snd)", simp, simp)
  fix cur s c r p
  assume "s = c # r" and "front space_seqs s = Some p"
  then have "p \<noteq> []" and "s \<noteq> []"
    by (auto simp: front_def find_Some_iff)
  then show "(([], drop (length p) s), cur, s) \<in> measure (length \<circ> snd)"
    by auto
qed

declare fields_from.simps [simp del]

definition fields :: "string \<Rightarrow> string list" where
  "fields s = fields_from [] s"

text \<open>No white space starts anywhere in the string.\<close>

fun spaceless :: "string \<Rightarrow> bool" where
  "spaceless [] = True"
| "spaceless (c # s) = (front space_seqs (c # s) = None \<and> spaceless s)"

lemma fields_from_Nil [simp]: "fields_from cur [] = (if cur = [] then [] else [cur])"
  by (simp add: fields_from.simps)

lemma fields_from_None:
  "front space_seqs (c # r) = None \<Longrightarrow> fields_from cur (c # r) = fields_from (cur @ [c]) r"
  by (simp add: fields_from.simps [of cur "c # r"])

lemma fields_from_Some:
  "front space_seqs (c # r) = Some p \<Longrightarrow>
   fields_from cur (c # r) = (if cur = [] then [] else [cur]) @ fields_from [] (drop (length p) (c # r))"
  by (simp add: fields_from.simps [of cur "c # r"])

lemma seq_blank: "p \<in> set space_seqs \<Longrightarrow> CHR '' '' \<in> set p \<Longrightarrow> p = '' ''"
  by (auto simp: space_seqs_def ascii_spaces_def)

lemma front_blank: "front space_seqs (CHR '' '' # s) = Some '' ''"
  by (simp add: front_def space_seqs_def ascii_spaces_def)

lemma front_before_blank:
  assumes "front space_seqs (c # w) = None"
  shows "front space_seqs (c # w @ CHR '' '' # s) = None"
proof -
  have "\<not> prefix p (c # w @ CHR '' '' # s)" if p: "p \<in> set space_seqs" "p \<noteq> []" for p
  proof
    assume "prefix p (c # w @ CHR '' '' # s)"
    then have "prefix p ((c # w) @ CHR '' '' # s)" by simp
    then consider "prefix p (c # w)" | zs where "p = (c # w) @ zs" "prefix zs (CHR '' '' # s)" "zs \<noteq> []"
      by (metis append_Nil2 prefix_append prefix_order.order_refl)
    then show False
    proof cases
      case 1
      with p assms show False by (auto simp: front_None)
    next
      case 2
      from 2(2,3) have "CHR '' '' \<in> set zs" by (cases zs) auto
      with p 2(1) have "p = '' ''" by (intro seq_blank) auto
      with 2 show False by simp
    qed
  qed
  then show ?thesis by (auto simp: front_None)
qed

lemma fields_from_word:
  "spaceless w \<Longrightarrow> fields_from cur (w @ CHR '' '' # s) =
     (if cur @ w = [] then [] else [cur @ w]) @ fields_from [] s"
proof (induction w arbitrary: cur)
  case Nil
  then show ?case by (simp add: fields_from_Some [OF front_blank])
next
  case (Cons c w)
  from Cons.prems have "front space_seqs (c # w @ CHR '' '' # s) = None"
    by (simp add: front_before_blank)
  with Cons show ?case by (simp add: fields_from_None)
qed

lemma fields_from_last: "spaceless w \<Longrightarrow> fields_from cur w = (if cur @ w = [] then [] else [cur @ w])"
  by (induction w arbitrary: cur) (auto simp: fields_from_None)

lemma fields_join:
  "\<forall>w\<in>set ws. w \<noteq> [] \<and> spaceless w \<Longrightarrow> fields (join '' '' ws) = ws"
  unfolding fields_def
  by (induction "'' ''" ws rule: join.induct) (auto simp: fields_from_last fields_from_word)

lemma spaceless_prefix: "spaceless s \<Longrightarrow> prefix t s \<Longrightarrow> spaceless t"
proof (induction s arbitrary: t)
  case Nil
  then show ?case by simp
next
  case (Cons c s)
  show ?case
  proof (cases t)
    case (Cons d t')
    with \<open>prefix t (c # s)\<close> have "d = c" "prefix t' s" by auto
    moreover from \<open>spaceless (c # s)\<close> \<open>prefix t (c # s)\<close> have "front space_seqs t = None"
      by (auto intro: front_None_prefix)
    ultimately show ?thesis using Cons.IH Cons.prems Cons by simp
  qed simp
qed

text \<open>A run that ends where no white space has started yet is free of white space.\<close>

definition open_run :: "string \<Rightarrow> string \<Rightarrow> bool" where
  "open_run cur s = (\<forall>i<length cur. front space_seqs (drop i cur @ s) = None)"

lemma open_run_spaceless: "open_run cur s \<Longrightarrow> spaceless cur"
proof (induction cur)
  case (Cons c cur)
  have "open_run cur s"
    unfolding open_run_def
  proof (intro allI impI)
    fix i assume "i < length cur"
    then show "front space_seqs (drop i cur @ s) = None"
      using Cons.prems [unfolded open_run_def, rule_format, of "Suc i"] by simp
  qed
  moreover have "front space_seqs (c # cur) = None"
    using Cons.prems by (auto simp: open_run_def dest!: spec [of _ 0] intro: front_None_prefix)
  ultimately show ?case using Cons.IH by simp
qed simp

lemma open_run_step:
  "open_run cur (c # r) \<Longrightarrow> front space_seqs (c # r) = None \<Longrightarrow> open_run (cur @ [c]) r"
  by (auto simp: open_run_def less_Suc_eq)

lemma fields_from_spaceless:
  "open_run cur s \<Longrightarrow> w \<in> set (fields_from cur s) \<Longrightarrow> w \<noteq> [] \<and> spaceless w"
proof (induction cur s arbitrary: w rule: fields_from.induct)
  case (1 cur s)
  show ?case
  proof (cases s)
    case Nil
    with "1.prems" show ?thesis by (auto dest: open_run_spaceless split: if_splits)
  next
    case s: (Cons c r)
    show ?thesis
    proof (cases "front space_seqs (c # r)")
      case None
      with "1.prems" s have "open_run (cur @ [c]) r" by (auto intro: open_run_step)
      with "1.IH"(1) [OF s] None s "1.prems" show ?thesis by (simp add: fields_from_None)
    next
      case (Some p)
      have "open_run [] t" for t by (simp add: open_run_def)
      moreover from "1.prems" have "spaceless cur" by (auto dest: open_run_spaceless)
      ultimately show ?thesis
        using "1.IH"(2) [OF s, of p] "1.prems"(2) Some s
        by (auto simp: fields_from_Some split: if_splits)
    qed
  qed
qed

lemma fields_spaceless: "w \<in> set (fields s) \<Longrightarrow> w \<noteq> [] \<and> spaceless w"
  unfolding fields_def by (rule fields_from_spaceless) (auto simp: open_run_def)

lemma fields_join_fields: "fields (join '' '' (fields s)) = fields s"
  by (rule fields_join) (auto dest: fields_spaceless)

section \<open>Case folding\<close>

text \<open>
  \<open>strings.EqualFold\<close> against a string of ASCII characters: the simple folding of ASCII
  letters, and the two runes outside ASCII that fold to an ASCII letter (U+017F to \<open>s\<close>,
  U+212A to \<open>k\<close>).
\<close>

definition lower_char :: "char \<Rightarrow> char" where
  "lower_char c = (let n = (of_char c :: nat) in if 65 \<le> n \<and> n \<le> 90 then char_of (n + 32) else c)"

fun fold_case :: "string \<Rightarrow> string" where
  "fold_case [] = []"
| "fold_case (c # s) =
     (if prefix [CHR 0xC5, CHR 0xBF] (c # s) then CHR ''s'' # fold_case (tl s)
      else if prefix [CHR 0xE2, CHR 0x84, CHR 0xAA] (c # s) then CHR ''k'' # fold_case (tl (tl s))
      else lower_char c # fold_case s)"

definition equal_fold :: "string \<Rightarrow> string \<Rightarrow> bool" where
  "equal_fold s t = (fold_case s = fold_case t)"

section \<open>Decimal numbers\<close>

definition is_digit :: "char \<Rightarrow> bool" where
  "is_digit c = (let n = (of_char c :: int) in 48 \<le> n \<and> n \<le> 57)"

definition dval :: "char \<Rightarrow> int" where
  "dval c = of_char c - 48"

definition digit_char :: "int \<Rightarrow> char" where
  "digit_char d = char_of (48 + d)"

text \<open>The value of a string of digits, most significant first.\<close>

definition dec_val :: "string \<Rightarrow> int" where
  "dec_val s = foldl (\<lambda>n c. n * 10 + dval c) 0 s"

text \<open>The decimal digits of a natural number.\<close>

function digits_of :: "int \<Rightarrow> string" where
  "digits_of n = (if n < 10 then [digit_char n] else digits_of (n div 10) @ [digit_char (n mod 10)])"
  by pat_completeness auto
termination
  by (relation "measure nat") auto

declare digits_of.simps [simp del]

text \<open>\<open>strconv.Itoa\<close> and the verb \<open>%d\<close>.\<close>

definition itoa :: "int \<Rightarrow> string" where
  "itoa i = (if i < 0 then CHR ''-'' # digits_of (- i) else digits_of i)"

text \<open>
  \<open>strconv.ParseInt(s, 10, 64)\<close>; \<open>strconv.Atoi\<close> is the same function on a 64-bit platform
  and reports itself under its own name.
\<close>

definition parse_int :: "string \<Rightarrow> string \<Rightarrow> gerr + int" where
  "parse_int fn s0 =
     (let bad = (\<lambda>why. Inl (errorf [Lit (''strconv.'' @ fn @ '': parsing ''), Quo s0, Lit ('': '' @ why)]));
          neg = (case s0 of c # _ \<Rightarrow> c = CHR ''-'' | [] \<Rightarrow> False);
          s = (case s0 of c # r \<Rightarrow> if c = CHR ''-'' \<or> c = CHR ''+'' then r else s0 | [] \<Rightarrow> []);
          n = dec_val s
      in if s = [] \<or> \<not> list_all is_digit s then bad ''invalid syntax''
         else if neg then (if n > 2 ^ 63 then bad ''value out of range'' else Inr (- n))
         else (if n \<ge> 2 ^ 63 then bad ''value out of range'' else Inr n))"

lemma of_char_digit_char: "0 \<le> d \<Longrightarrow> d < 10 \<Longrightarrow> (of_char (digit_char d) :: int) = 48 + d"
  by (simp add: digit_char_def)

lemma is_digit_digit_char [simp]: "0 \<le> d \<Longrightarrow> d < 10 \<Longrightarrow> is_digit (digit_char d)"
  by (simp add: is_digit_def of_char_digit_char)

lemma dval_digit_char [simp]: "0 \<le> d \<Longrightarrow> d < 10 \<Longrightarrow> dval (digit_char d) = d"
  by (simp add: dval_def of_char_digit_char)

lemma dval_bounds: "is_digit c \<Longrightarrow> 0 \<le> dval c \<and> dval c < 10"
  by (auto simp: is_digit_def dval_def Let_def)

lemma dec_val_Nil [simp]: "dec_val [] = 0"
  by (simp add: dec_val_def)

lemma dec_val_snoc [simp]: "dec_val (s @ [c]) = dec_val s * 10 + dval c"
  by (simp add: dec_val_def)

lemma dec_val_append: "dec_val (s @ t) = dec_val s * 10 ^ length t + dec_val t"
proof (induction t rule: rev_induct)
  case (snoc c t)
  have "dec_val (s @ t @ [c]) = dec_val (s @ t) * 10 + dval c"
    by (simp flip: append_assoc)
  with snoc show ?case by (simp add: algebra_simps)
qed simp

lemma dec_val_Cons: "dec_val (c # s) = dval c * 10 ^ length s + dec_val s"
  using dec_val_append [of "[c]" s] by (simp add: dec_val_def)

lemma dec_val_nonneg: "list_all is_digit s \<Longrightarrow> 0 \<le> dec_val s"
  by (induction s) (auto simp: dec_val_Cons dest: dval_bounds)

lemma digits_digits_of: "0 \<le> n \<Longrightarrow> list_all is_digit (digits_of n)"
proof (induction n rule: digits_of.induct)
  case (1 n)
  then show ?case by (cases "n < 10") (simp_all add: digits_of.simps [of n])
qed

lemma digits_of_nonempty [simp]: "digits_of n \<noteq> []"
  by (subst digits_of.simps) simp

lemma dec_val_digits_of [simp]: "0 \<le> n \<Longrightarrow> dec_val (digits_of n) = n"
proof (induction n rule: digits_of.induct)
  case (1 n)
  show ?case
  proof (cases "n < 10")
    case True
    with "1.prems" show ?thesis by (simp add: digits_of.simps [of n] dec_val_def)
  next
    case False
    with 1 show ?thesis by (simp add: digits_of.simps [of n])
  qed
qed

lemma hd_digits_of: "0 \<le> n \<Longrightarrow> is_digit (hd (digits_of n))"
  using digits_digits_of [of n] by (cases "digits_of n") auto

lemma digit_not_sign: "is_digit c \<Longrightarrow> c \<noteq> CHR ''-'' \<and> c \<noteq> CHR ''+'' \<and> c \<noteq> CHR ''.''"
  by (auto simp: is_digit_def)

lemma parse_int_itoa:
  assumes "- (2 ^ 63) \<le> i" and "i < 2 ^ 63"
  shows "parse_int fn (itoa i) = Inr i"
proof (cases "i < 0")
  case True
  then show ?thesis
    using assms digits_digits_of [of "- i"] by (simp add: itoa_def parse_int_def)
next
  case False
  then have nn: "0 \<le> i" by simp
  obtain c r where d: "digits_of i = c # r"
    by (cases "digits_of i") auto
  then have "is_digit c" using hd_digits_of [OF nn] by simp
  then have "c \<noteq> CHR ''-''" "c \<noteq> CHR ''+''" by (auto dest: digit_not_sign)
  moreover have "dec_val (c # r) = i" and "list_all is_digit (c # r)"
    using dec_val_digits_of [OF nn] digits_digits_of [OF nn] d by simp_all
  ultimately show ?thesis
    using False assms d by (simp add: itoa_def parse_int_def)
qed

end
