(* ===== verification/GoTime.thy ===== *)
theory GoTime
  imports GoText "HOL-Library.Log_Nat"
begin

text \<open>
  The package \<open>time\<close> as the program uses it. A \<open>Duration\<close> is a signed 64-bit number of
  nanoseconds and a \<open>Time\<close> a signed 64-bit number of seconds since the year 1 with
  nanoseconds; both are integers here with the wrap-around and the saturation of the Go code
  written out. Times are wall clock times: monotonic readings and locations are left out.
\<close>

section \<open>Signed 64-bit integers\<close>

definition wrap64 :: "int \<Rightarrow> int" where
  "wrap64 x = (x + 2 ^ 63) mod 2 ^ 64 - 2 ^ 63"

definition in_int64 :: "int \<Rightarrow> bool" where
  "in_int64 x = (- (2 ^ 63) \<le> x \<and> x < 2 ^ 63)"

text \<open>Division and remainder truncate towards zero.\<close>

definition tdiv :: "int \<Rightarrow> int \<Rightarrow> int" where
  "tdiv a b = (if a < 0 then - ((- a) div b) else a div b)"

definition trem :: "int \<Rightarrow> int \<Rightarrow> int" where
  "trem a b = a - tdiv a b * b"

definition clamp64 :: "int \<Rightarrow> int" where
  "clamp64 x = (if x < - (2 ^ 63) then - (2 ^ 63) else if 2 ^ 63 - 1 < x then 2 ^ 63 - 1 else x)"

lemma wrap64_id [simp]: "in_int64 x \<Longrightarrow> wrap64 x = x"
  by (simp add: wrap64_def in_int64_def)

lemma in_int64_wrap64 [simp]: "in_int64 (wrap64 x)"
  by (simp add: wrap64_def in_int64_def)

section \<open>Durations\<close>

abbreviation Second :: int where "Second \<equiv> 1000000000"
abbreviation Minute :: int where "Minute \<equiv> 60000000000"
abbreviation Hour :: int where "Hour \<equiv> 3600000000000"

text \<open>
  The arithmetic on \<open>float64\<close> in \<open>ParseDuration\<close>: positive rationals as pairs, rounded to 53
  significant bits, ties to even.
\<close>

definition round_half_even :: "int \<Rightarrow> int \<Rightarrow> int" where
  "round_half_even a b =
     (let q = a div b; r = a mod b in if 2 * r < b \<or> (2 * r = b \<and> even q) then q else q + 1)"

definition fl_top :: "int \<Rightarrow> int \<Rightarrow> int" where
  "fl_top a b =
     (let e = bitlen a - bitlen b
      in if (if 0 \<le> e then b * 2 ^ nat e \<le> a else b \<le> a * 2 ^ nat (- e)) then e else e - 1)"

definition fl53 :: "int \<times> int \<Rightarrow> int \<times> int" where
  "fl53 x =
     (let a = fst x; b = snd x; k = fl_top a b - 52
      in if a = 0 then (0, 1)
         else if 0 \<le> k then (round_half_even a (b * 2 ^ nat k) * 2 ^ nat k, 1)
         else (round_half_even (a * 2 ^ nat (- k)) b, 2 ^ nat (- k)))"

text \<open>\<open>uint64(float64(f) * (float64(unit) / scale))\<close>.\<close>

definition frac_ns :: "int \<Rightarrow> int \<Rightarrow> int \<Rightarrow> int" where
  "frac_ns f unit scale =
     (let x = fl53 (f, 1); y = fl53 (unit, scale); p = fl53 (fst x * fst y, snd x * snd y)
      in fst p div snd p)"

text \<open>\<open>leadingInt\<close>: the digits at the front; an error when their value passes \<open>1<<63\<close>.\<close>

definition leading_int :: "string \<Rightarrow> (int \<times> string) option" where
  "leading_int s =
     (let n = dec_val (takeWhile is_digit s)
      in if n > 2 ^ 63 then None else Some (n, dropWhile is_digit s))"

text \<open>\<open>leadingFraction\<close> over the digits: value, scale, and whether digits are dropped now.\<close>

fun frac_loop :: "string \<Rightarrow> int \<Rightarrow> int \<Rightarrow> bool \<Rightarrow> int \<times> int" where
  "frac_loop [] x scale ov = (x, scale)"
| "frac_loop (c # ds) x scale ov =
     (if ov \<or> x > (2 ^ 63 - 1) div 10 \<or> x * 10 + dval c > 2 ^ 63 then frac_loop ds x scale True
      else frac_loop ds (x * 10 + dval c) (scale * 10) False)"

definition unit_map :: "(string \<times> int) list" where
  "unit_map =
     [(''ns'', 1), (''us'', 1000), ([CHR 0xC2, CHR 0xB5, CHR ''s''], 1000),
      ([CHR 0xCE, CHR 0xBC, CHR ''s''], 1000), (''ms'', 1000000), (''s'', 1000000000),
      (''m'', 60000000000), (''h'', 3600000000000)]"

definition unit_char :: "char \<Rightarrow> bool" where
  "unit_char c = (c \<noteq> CHR ''.'' \<and> \<not> is_digit c)"

text \<open>One round of the loop of \<open>ParseDuration\<close>: the new sum and the rest of the string.\<close>

definition pd_step :: "int \<Rightarrow> string \<Rightarrow> (int \<times> string) option" where
  "pd_step d s =
     (if s = [] \<or> \<not> (hd s = CHR ''.'' \<or> is_digit (hd s)) then None
      else case leading_int s of
        None \<Rightarrow> None
      | Some (v, s1) \<Rightarrow>
          let pre = (length s1 \<noteq> length s);
              dot = (s1 \<noteq> [] \<and> hd s1 = CHR ''.'');
              fs = (if dot then takeWhile is_digit (tl s1) else []);
              s2 = (if dot then dropWhile is_digit (tl s1) else s1);
              (f, scale) = frac_loop fs 0 1 False;
              u = takeWhile unit_char s2;
              s3 = dropWhile unit_char s2
          in if \<not> pre \<and> fs = [] then None
             else if u = [] then None
             else case map_of unit_map u of
               None \<Rightarrow> None
             | Some unit \<Rightarrow>
                 if v > 2 ^ 63 div unit then None
                 else let v1 = v * unit; v2 = (if f > 0 then v1 + frac_ns f unit scale else v1)
                      in if v2 > 2 ^ 63 then None
                         else let d' = (d + v2) mod 2 ^ 64
                              in if d' > 2 ^ 63 then None else Some (d', s3))"

lemma pd_step_shorter: "pd_step d s = Some (d', s') \<Longrightarrow> length s' < length s"
proof -
  assume step: "pd_step d s = Some (d', s')"
  then obtain v s1 where s1: "leading_int s = Some (v, s1)" and ne: "s \<noteq> []"
    by (auto simp: pd_step_def split: if_splits option.splits)
  have le1: "length s1 \<le> length s"
    using s1 by (auto simp: leading_int_def Let_def length_dropWhile_le split: if_splits)
  define s2 where "s2 = (if s1 \<noteq> [] \<and> hd s1 = CHR ''.'' then dropWhile is_digit (tl s1) else s1)"
  have le2: "length s2 \<le> length s1"
    using length_dropWhile_le [of is_digit "tl s1"] by (auto simp: s2_def)
  have "takeWhile unit_char s2 \<noteq> []" and s': "s' = dropWhile unit_char s2"
    using step s1 ne by (auto simp: pd_step_def s2_def Let_def split: if_splits option.splits prod.splits)
  then have "s2 \<noteq> []" and "unit_char (hd s2)" by (cases s2; auto split: if_splits)+
  then have "length s' < length s2"
    unfolding s' using length_dropWhile_le [of unit_char "tl s2"] by (cases s2) auto
  with le1 le2 show ?thesis by simp
qed

function pd_loop :: "int \<Rightarrow> string \<Rightarrow> int option" where
  "pd_loop d s =
     (if s = [] then Some d
      else case pd_step d s of None \<Rightarrow> None | Some (d', s') \<Rightarrow> pd_loop d' s')"
  by pat_completeness auto
termination
  by (relation "measure (length \<circ> snd)") (auto dest: pd_step_shorter)

declare pd_loop.simps [simp del]

text \<open>\<open>time.ParseDuration\<close>; the text of the error is not used by the program.\<close>

definition parse_duration :: "string \<Rightarrow> int option" where
  "parse_duration s0 =
     (let neg = (s0 \<noteq> [] \<and> hd s0 = CHR ''-'');
          s = (if s0 \<noteq> [] \<and> (hd s0 = CHR ''-'' \<or> hd s0 = CHR ''+'') then tl s0 else s0)
      in if s = ''0'' then Some 0
         else if s = [] then None
         else case pd_loop 0 s of
           None \<Rightarrow> None
         | Some d \<Rightarrow> if neg then Some (- d)
                     else if d > 2 ^ 63 - 1 then None else Some d)"

text \<open>\<open>fmtFrac\<close>: the fraction of \<open>v / 10 ^ prec\<close> without trailing zeros, and the integer part.\<close>

fun fmt_frac :: "nat \<Rightarrow> int \<Rightarrow> bool \<Rightarrow> string \<Rightarrow> string \<times> int" where
  "fmt_frac 0 v pr acc = ((if pr then CHR ''.'' # acc else acc), v)"
| "fmt_frac (Suc n) v pr acc =
     (let digit = v mod 10; pr' = (pr \<or> digit \<noteq> 0)
      in fmt_frac n (v div 10) pr' (if pr' then digit_char digit # acc else acc))"

text \<open>\<open>Duration.String\<close>: the text of the magnitude, behind a sign.\<close>

definition duration_body :: "int \<Rightarrow> string" where
  "duration_body u =
     (if u < Second then
        (if u = 0 then ''0s''
         else if u < 1000 then digits_of u @ ''ns''
         else if u < 1000000 then
           (let (fr, v) = fmt_frac 3 u False [] in digits_of v @ fr @ [CHR 0xC2, CHR 0xB5, CHR ''s''])
         else (let (fr, v) = fmt_frac 6 u False [] in digits_of v @ fr @ ''ms''))
      else
        (let (fr, v) = fmt_frac 9 u False [];
             secs = digits_of (v mod 60) @ fr @ ''s'';
             m = v div 60;
             mins = digits_of (m mod 60) @ ''m'' @ secs;
             h = m div 60
         in if m > 0 then (if h > 0 then digits_of h @ ''h'' @ mins else mins) else secs))"

definition duration_String :: "int \<Rightarrow> string" where
  "duration_String d = (if d < 0 then CHR ''-'' # duration_body \<bar>d\<bar> else duration_body \<bar>d\<bar>)"

text \<open>
  \<open>int64(math.Round(d.Seconds()))\<close>: whole seconds and the fraction are added as \<open>float64\<close>, and
  halves are rounded away from zero. Every step commutes with a change of sign.
\<close>

definition round_seconds :: "int \<Rightarrow> int" where
  "round_seconds d =
     (let u = \<bar>d\<bar>; x = fl53 (u mod Second, Second);
          y = fl53 (u div Second * snd x + fst x, snd x);
          r = (2 * fst y + snd y) div (2 * snd y)
      in if d < 0 then - r else r)"

section \<open>Instants\<close>

record gotime =
  t_sec :: int   \<comment> \<open>seconds since January 1, year 1, a signed 64-bit integer\<close>
  t_nsec :: int  \<comment> \<open>nanoseconds, below \<open>10 ^ 9\<close>\<close>

definition time_ok :: "gotime \<Rightarrow> bool" where
  "time_ok t = (in_int64 (t_sec t) \<and> 0 \<le> t_nsec t \<and> t_nsec t < Second)"

definition zero_time :: gotime where
  "zero_time = \<lparr>t_sec = 0, t_nsec = 0\<rparr>"

definition time_IsZero :: "gotime \<Rightarrow> bool" where
  "time_IsZero t = (t_sec t = 0 \<and> t_nsec t = 0)"

abbreviation unixToInternal :: int where "unixToInternal \<equiv> 62135596800"

text \<open>\<open>time.Unix(n, 0)\<close>: the addition of the epoch wraps around.\<close>

definition time_Unix :: "int \<Rightarrow> gotime" where
  "time_Unix n = \<lparr>t_sec = wrap64 (n + unixToInternal), t_nsec = 0\<rparr>"

text \<open>The method \<open>Unix\<close>.\<close>

definition unix_seconds :: "gotime \<Rightarrow> int" where
  "unix_seconds t = wrap64 (t_sec t - unixToInternal)"

text \<open>\<open>addSec\<close> saturates.\<close>

definition add_sec :: "int \<Rightarrow> int \<Rightarrow> int" where
  "add_sec ext d =
     (let sum = wrap64 (ext + d)
      in if (ext < sum) = (0 < d) then sum else if 0 < d then 2 ^ 63 - 1 else - (2 ^ 63 - 1))"

definition time_Add :: "gotime \<Rightarrow> int \<Rightarrow> gotime" where
  "time_Add t d =
     (let dsec = tdiv d Second; nsec = t_nsec t + trem d Second
      in if Second \<le> nsec then \<lparr>t_sec = add_sec (t_sec t) (dsec + 1), t_nsec = nsec - Second\<rparr>
         else if nsec < 0 then \<lparr>t_sec = add_sec (t_sec t) (dsec - 1), t_nsec = nsec + Second\<rparr>
         else \<lparr>t_sec = add_sec (t_sec t) dsec, t_nsec = nsec\<rparr>)"

definition time_Before :: "gotime \<Rightarrow> gotime \<Rightarrow> bool" where
  "time_Before t u = (t_sec t < t_sec u \<or> (t_sec t = t_sec u \<and> t_nsec t < t_nsec u))"

definition time_Sub :: "gotime \<Rightarrow> gotime \<Rightarrow> int" where
  "time_Sub t u =
     (let d = wrap64 (wrap64 (t_sec t - t_sec u) * Second + (t_nsec t - t_nsec u))
      in if time_Add u d = t then d
         else if time_Before t u then - (2 ^ 63) else 2 ^ 63 - 1)"

text \<open>\<open>Truncate(time.Second)\<close>.\<close>

definition truncate_second :: "gotime \<Rightarrow> gotime" where
  "truncate_second t = t\<lparr>t_nsec := 0\<rparr>"

text \<open>An instant as one number of nanoseconds, the measure the lemmas speak about.\<close>

definition time_ns :: "gotime \<Rightarrow> int" where
  "time_ns t = t_sec t * Second + t_nsec t"

section \<open>Lemmas on rounding\<close>

lemma round_half_even_exact: "0 < b \<Longrightarrow> round_half_even (n * b) b = n"
  by (simp add: round_half_even_def)

lemma fl_top_exact:
  assumes "0 < n" and "n < 2 ^ 53" and "0 < b"
  shows "fl_top (n * b) b \<le> 52"
proof -
  let ?a = "n * b"
  let ?e = "bitlen ?a - bitlen b"
  have a: "0 < ?a" using assms by simp
  have ba: "1 \<le> bitlen ?a" and bb: "1 \<le> bitlen b"
    using bitlen_bounds a assms(3) bitlen_nonneg
    by (smt (verit) bitlen_eq_zero_iff)+
  have lo: "2 ^ nat (bitlen ?a - 1) \<le> ?a" and hi: "b < 2 ^ nat (bitlen b)"
    using bitlen_bounds [OF a] bitlen_bounds [OF assms(3)] by simp_all
  have e: "?e \<le> 53"
  proof (rule ccontr)
    assume "\<not> ?e \<le> 53"
    then have "nat (bitlen b) + 53 \<le> nat (bitlen ?a - 1)" using ba bb by linarith
    then have "(2::int) ^ (nat (bitlen b) + 53) \<le> 2 ^ nat (bitlen ?a - 1)"
      by (rule power_increasing) simp
    then have "2 ^ nat (bitlen b) * 2 ^ 53 \<le> ?a" using lo by (simp add: power_add)
    moreover have "?a < 2 ^ 53 * b" using assms by simp
    moreover have "b * 2 ^ 53 < 2 ^ nat (bitlen b) * 2 ^ 53" using hi by simp
    ultimately show False by simp
  qed
  show ?thesis
  proof (cases "?e = 53")
    case True
    have "\<not> b * 2 ^ nat 53 \<le> ?a" using assms by simp
    then show ?thesis unfolding fl_top_def True Let_def by simp
  next
    case False
    with e show ?thesis unfolding fl_top_def Let_def by simp
  qed
qed

text \<open>A whole number below \<open>2 ^ 53\<close> is a \<open>float64\<close>: rounding it changes nothing.\<close>

lemma fl53_exact:
  assumes "0 \<le> n" and "n < 2 ^ 53" and "0 < b"
  shows "fst (fl53 (n * b, b)) = n * snd (fl53 (n * b, b)) \<and> 0 < snd (fl53 (n * b, b))"
proof (cases "n = 0")
  case True
  then show ?thesis by (simp add: fl53_def)
next
  case False
  with assms have top: "fl_top (n * b) b - 52 \<le> 0" using fl_top_exact by simp
  define j where "j = nat (- (fl_top (n * b) b - 52))"
  have "round_half_even (n * b * 2 ^ j) b = n * 2 ^ j"
    using round_half_even_exact [OF assms(3), of "n * 2 ^ j"] by (simp add: ac_simps)
  moreover have "fl_top (n * b) b - 52 = 0 \<Longrightarrow> round_half_even (n * b) b = n"
    using round_half_even_exact [OF assms(3)] by simp
  ultimately show ?thesis
    using False assms top by (auto simp: fl53_def Let_def j_def)
qed

lemma fl53_int:
  assumes "0 \<le> n" and "n < 2 ^ 53"
  shows "fst (fl53 (n, 1)) = n * snd (fl53 (n, 1)) \<and> 0 < snd (fl53 (n, 1))"
  using fl53_exact [OF assms, of 1] by simp

text \<open>The fraction of a duration is exact when the scale divides the unit.\<close>

lemma frac_ns_exact:
  assumes "0 \<le> f" and "0 < q" and "0 < scale" and "f * q < 2 ^ 53" and "f < 2 ^ 53" and "q < 2 ^ 53"
  shows "frac_ns f (q * scale) scale = f * q"
proof -
  let ?x = "fl53 (f, 1)" and ?y = "fl53 (q * scale, scale)"
  have x: "fst ?x = f * snd ?x" "0 < snd ?x" using fl53_int assms by simp_all
  have y: "fst ?y = q * snd ?y" "0 < snd ?y" using fl53_exact assms by simp_all
  have "fst ?x * fst ?y = (f * q) * (snd ?x * snd ?y)" using x y by simp
  then have p: "fst (fl53 (fst ?x * fst ?y, snd ?x * snd ?y)) =
      (f * q) * snd (fl53 (fst ?x * fst ?y, snd ?x * snd ?y)) \<and>
      0 < snd (fl53 (fst ?x * fst ?y, snd ?x * snd ?y))"
    unfolding \<open>fst ?x * fst ?y = _\<close> using assms x(2) y(2) by (intro fl53_exact) simp_all
  then show ?thesis by (simp add: frac_ns_def Let_def)
qed

lemma round_seconds_whole:
  assumes "\<bar>k\<bar> < 2 ^ 53"
  shows "round_seconds (k * Second) = k"
proof -
  have u: "\<bar>k * Second\<bar> div Second = \<bar>k\<bar>" "\<bar>k * Second\<bar> mod Second = 0" by (simp_all add: abs_mult)
  have z: "fl53 (0, Second) = (0, 1)" by (simp add: fl53_def)
  let ?y = "fl53 (\<bar>k\<bar>, 1)"
  have y: "fst ?y = \<bar>k\<bar> * snd ?y" "0 < snd ?y" using fl53_int assms by simp_all
  have "(2 * fst ?y + snd ?y) div (2 * snd ?y) = \<bar>k\<bar> + snd ?y div (2 * snd ?y)"
    using y by (simp add: div_mult_self3 mult.assoc mult.left_commute)
  also have "snd ?y div (2 * snd ?y) = 0" using y by simp
  finally show ?thesis unfolding round_seconds_def Let_def u z
    by (cases "k < 0") (simp_all add: mult_less_0_iff)
qed

end
