(* ===== verification/GoTimeLemmas.thy ===== *)
theory GoTimeLemmas
  imports GoTime
begin

text \<open>
  What the program relies on of the package \<open>time\<close>: the text \<open>Duration.String\<close> prints is read
  back by \<open>ParseDuration\<close> as the same duration, for every 64-bit value, and \<open>Sub\<close> is the
  exact difference of two instants clamped to 64 bits.
\<close>

section \<open>Printing and reading a duration\<close>

lemma span_append:
  assumes "list_all P xs" and "ys = [] \<or> \<not> P (hd ys)"
  shows "takeWhile P (xs @ ys) = xs" and "dropWhile P (xs @ ys) = ys"
proof -
  have "takeWhile P ys = []" "dropWhile P ys = ys" using assms(2) by (cases ys; auto)+
  then show "takeWhile P (xs @ ys) = xs" "dropWhile P (xs @ ys) = ys"
    using assms(1) by (simp_all add: list_all_iff)
qed

definition frac_text :: "string \<Rightarrow> string" where
  "frac_text fs = (if fs = [] then [] else CHR ''.'' # fs)"

lemma mod_Suc_digit: "v mod 10 ^ Suc n = v div 10 mod 10 ^ n * 10 + v mod (10::int)"
  using zmod_zmult2_eq [of "10 ^ n" v 10] by simp

lemma fmt_frac_print:
  "0 \<le> v \<Longrightarrow> \<exists>ds. fmt_frac n v True acc = (CHR ''.'' # ds @ acc, v div 10 ^ n) \<and>
     list_all is_digit ds \<and> length ds = n \<and> dec_val ds = v mod 10 ^ n"
proof (induction n arbitrary: v acc)
  case 0
  then show ?case by simp
next
  case (Suc n)
  then have v: "0 \<le> v div 10" by simp
  obtain ds where ds: "fmt_frac n (v div 10) True (digit_char (v mod 10) # acc) =
      (CHR ''.'' # ds @ digit_char (v mod 10) # acc, v div 10 div 10 ^ n)"
    "list_all is_digit ds" "length ds = n" "dec_val ds = v div 10 mod 10 ^ n"
    using Suc.IH [OF v, of "digit_char (v mod 10) # acc"] by auto
  with mod_Suc_digit [of v n] show ?case
    by (intro exI [of _ "ds @ [digit_char (v mod 10)]"]) (simp add: zdiv_zmult2_eq)
qed

lemma fmt_frac_spec:
  "0 \<le> v \<Longrightarrow> \<exists>fs. fmt_frac n v False [] = (frac_text fs, v div 10 ^ n) \<and>
     list_all is_digit fs \<and> length fs \<le> n \<and> dec_val fs * 10 ^ (n - length fs) = v mod 10 ^ n"
proof (induction n arbitrary: v)
  case 0
  then show ?case by (simp add: frac_text_def)
next
  case (Suc n)
  note split = mod_Suc_digit [of v n]
  from Suc.prems have v: "0 \<le> v div 10" by simp
  show ?case
  proof (cases "v mod 10 = 0")
    case True
    obtain fs where fs: "fmt_frac n (v div 10) False [] = (frac_text fs, v div 10 div 10 ^ n)"
      "list_all is_digit fs" "length fs \<le> n" "dec_val fs * 10 ^ (n - length fs) = v div 10 mod 10 ^ n"
      using Suc.IH [OF v] by auto
    have "dec_val fs * 10 ^ (Suc n - length fs) = v div 10 mod 10 ^ n * 10"
      using fs(3,4) by (simp add: Suc_diff_le)
    with fs True split show ?thesis
      by (intro exI [of _ fs]) (simp add: zdiv_zmult2_eq)
  next
    case False
    obtain ds where ds: "fmt_frac n (v div 10) True [digit_char (v mod 10)] =
        (CHR ''.'' # ds @ [digit_char (v mod 10)], v div 10 div 10 ^ n)"
      "list_all is_digit ds" "length ds = n" "dec_val ds = v div 10 mod 10 ^ n"
      using fmt_frac_print [OF v, of n "[digit_char (v mod 10)]"] by auto
    with False split show ?thesis
      by (intro exI [of _ "ds @ [digit_char (v mod 10)]"]) (simp add: frac_text_def zdiv_zmult2_eq)
  qed
qed

lemma fmt_frac_div: "0 \<le> v \<Longrightarrow> fmt_frac n v False [] = (fr, w) \<Longrightarrow> w = v div 10 ^ n"
  using fmt_frac_spec [of v n] by auto

lemma frac_loop_exact:
  "list_all is_digit ds \<Longrightarrow> 0 \<le> x \<Longrightarrow> (x + 1) * 10 ^ length ds \<le> 10 ^ 18 \<Longrightarrow>
   frac_loop ds x sc False = (x * 10 ^ length ds + dec_val ds, sc * 10 ^ length ds)"
proof (induction ds arbitrary: x sc)
  case Nil
  then show ?case by simp
next
  case (Cons c ds)
  have c: "0 \<le> dval c" "dval c < 10" using Cons.prems(1) dval_bounds by auto
  have len: "(x + 1) * 10 * 10 ^ length ds \<le> 10 ^ 18"
    using Cons.prems(3) by (simp add: algebra_simps)
  have p: "(1::int) \<le> 10 ^ length ds" by simp
  have "(x + 1) * 10 * 1 \<le> (x + 1) * 10 * 10 ^ length ds"
    using Cons.prems(2) p by (intro mult_left_mono) auto
  also note len
  finally have x: "(x + 1) * 10 \<le> 10 ^ 18" by simp
  have "(x * 10 + dval c + 1) * 10 ^ length ds \<le> ((x + 1) * 10) * 10 ^ length ds"
    using c by (intro mult_right_mono) auto
  also note len
  finally have "frac_loop ds (x * 10 + dval c) (sc * 10) False =
      ((x * 10 + dval c) * 10 ^ length ds + dec_val ds, sc * 10 * 10 ^ length ds)"
    using Cons.IH [of "x * 10 + dval c" "sc * 10"] Cons.prems c by simp
  moreover have "x \<le> (2 ^ 63 - 1) div 10" "x * 10 + dval c \<le> 2 ^ 63" using x c by simp_all
  ultimately show ?case by (simp add: dec_val_Cons algebra_simps)
qed

text \<open>One segment \<open>digits [. digits] unit\<close> of a duration, followed by nothing or a digit.\<close>

definition seg_frac :: "string \<Rightarrow> int \<Rightarrow> int" where
  "seg_frac fs unit = (if 0 < dec_val fs then frac_ns (dec_val fs) unit (10 ^ length fs) else 0)"

lemma pd_step_segment:
  assumes ds: "list_all is_digit ds" "ds \<noteq> []"
    and fs: "list_all is_digit fs" "length fs \<le> 9"
    and u: "list_all unit_char u" "u \<noteq> []" "map_of unit_map u = Some unit"
    and rest: "rest = [] \<or> is_digit (hd rest)"
    and bounds: "dec_val ds \<le> 2 ^ 63 div unit" "dec_val ds \<le> 2 ^ 63" "0 \<le> d"
      "0 \<le> dec_val ds * unit + seg_frac fs unit"
      "d + (dec_val ds * unit + seg_frac fs unit) \<le> 2 ^ 63"
  shows "pd_step d (ds @ frac_text fs @ u @ rest) = Some (d + (dec_val ds * unit + seg_frac fs unit), rest)"
proof -
  let ?s = "ds @ frac_text fs @ u @ rest"
  have hu: "\<not> is_digit (hd u)" "hd u \<noteq> CHR ''.''"
    using u by (cases u; auto simp: unit_char_def)+
  have nd: "frac_text fs @ u @ rest = [] \<or> \<not> is_digit (hd (frac_text fs @ u @ rest))"
    using hu u(2) by (auto simp: frac_text_def is_digit_def)
  have li: "leading_int ?s = Some (dec_val ds, frac_text fs @ u @ rest)"
    using bounds(2) by (simp add: leading_int_def span_append [OF ds(1) nd])
  have hd: "is_digit (hd ?s)" using ds by (cases ds) auto
  have dot: "(frac_text fs @ u @ rest \<noteq> [] \<and> hd (frac_text fs @ u @ rest) = CHR ''.'') = (fs \<noteq> [])"
    using hu u(2) by (auto simp: frac_text_def)
  have nu: "u @ rest = [] \<or> \<not> is_digit (hd (u @ rest))" using hu u(2) by simp
  have f1: "(if fs \<noteq> [] then takeWhile is_digit (tl (frac_text fs @ u @ rest)) else []) = fs"
    and f2: "(if fs \<noteq> [] then dropWhile is_digit (tl (frac_text fs @ u @ rest))
        else frac_text fs @ u @ rest) = u @ rest"
    using span_append [OF fs(1) nu] by (auto simp: frac_text_def)
  have fl: "frac_loop fs 0 1 False = (dec_val fs, 10 ^ length fs)"
  proof -
    have "(10::int) ^ length fs \<le> 10 ^ 18" using fs(2) by (intro power_increasing) auto
    then show ?thesis using frac_loop_exact [OF fs(1), of 0 1] by simp
  qed
  have nr: "rest = [] \<or> \<not> unit_char (hd rest)" using rest by (auto simp: unit_char_def)
  note us = span_append [OF u(1) nr]
  have le: "dec_val ds * unit + seg_frac fs unit \<le> 2 ^ 63" using bounds by linarith
  have md: "(d + (dec_val ds * unit + seg_frac fs unit)) mod 2 ^ 64 =
      d + (dec_val ds * unit + seg_frac fs unit)"
    using bounds by (intro mod_pos_pos_trivial) auto
  have len: "length (frac_text fs @ u @ rest) \<noteq> length ?s" using ds(2) by simp
  show ?thesis
    unfolding pd_step_def li option.case prod.case Let_def dot f1 f2 fl us
    using hd ds u le bounds len md by (cases "0 < dec_val fs") (simp_all add: seg_frac_def)
qed

lemma pd_loop_Nil [simp]: "pd_loop d [] = Some d"
  by (simp add: pd_loop.simps)

lemma pd_loop_segment:
  assumes ds: "list_all is_digit ds" "ds \<noteq> []"
    and fs: "list_all is_digit fs" "length fs \<le> 9"
    and u: "list_all unit_char u" "u \<noteq> []" "map_of unit_map u = Some unit"
    and rest: "rest = [] \<or> is_digit (hd rest)"
    and bounds: "dec_val ds \<le> 2 ^ 63 div unit" "dec_val ds \<le> 2 ^ 63" "0 \<le> d"
      "0 \<le> dec_val ds * unit + seg_frac fs unit"
      "d + (dec_val ds * unit + seg_frac fs unit) \<le> 2 ^ 63"
  shows "pd_loop d (ds @ frac_text fs @ u @ rest) = pd_loop (d + (dec_val ds * unit + seg_frac fs unit)) rest"
  using pd_step_segment [OF assms] ds(2)
  by (subst pd_loop.simps) simp

lemma pd_loop_number:
  assumes "0 \<le> n" "n * unit + d \<le> 2 ^ 63" "n \<le> 2 ^ 63 div unit" "0 < unit" "0 \<le> d"
    and u: "list_all unit_char u" "u \<noteq> []" "map_of unit_map u = Some unit"
    and rest: "rest = [] \<or> is_digit (hd rest)"
  shows "pd_loop d (digits_of n @ u @ rest) = pd_loop (d + n * unit) rest"
proof -
  have "n * 1 \<le> n * unit" using assms by (intro mult_left_mono) auto
  then have "n \<le> 2 ^ 63" using assms by linarith
  then show ?thesis
    using pd_loop_segment [of "digits_of n" "[]" u unit rest d] assms digits_digits_of [of n]
    by (simp add: frac_text_def seg_frac_def add.commute)
qed

lemma seg_frac_exact:
  assumes "list_all is_digit fs" "length fs \<le> n" "n \<le> 9"
    and v: "dec_val fs * 10 ^ (n - length fs) = r" "r < 10 ^ n"
  shows "seg_frac fs (10 ^ n) = r"
proof -
  let ?q = "(10::int) ^ (n - length fs)"
  have nn: "0 \<le> dec_val fs" using assms(1) by (rule dec_val_nonneg)
  have q: "?q * 10 ^ length fs = 10 ^ n" using assms(2) by (simp flip: power_add)
  have q0: "0 < ?q" by simp
  have "(10::int) ^ n \<le> 10 ^ 9" using assms(3) by (intro power_increasing) auto
  then have r: "r < 2 ^ 53" using v(2) by simp
  have "dec_val fs * 1 \<le> dec_val fs * ?q" using nn by (intro mult_left_mono) auto
  then have f: "dec_val fs < 2 ^ 53" using r v(1) by simp
  have "?q \<le> 10 ^ 9" using assms(3) by (intro power_increasing) auto
  then have q1: "?q < 2 ^ 53" by simp
  have "frac_ns (dec_val fs) (?q * 10 ^ length fs) (10 ^ length fs) = dec_val fs * ?q"
    using nn q0 r f q1 v(1) by (intro frac_ns_exact) simp_all
  then show ?thesis
    using v(1) nn q by (cases "0 < dec_val fs") (simp_all add: seg_frac_def)
qed

text \<open>A value printed with \<open>n\<close> decimals and a unit of \<open>10 ^ n\<close> nanoseconds.\<close>

lemma pd_loop_decimal:
  assumes v: "0 \<le> v" "d + (v div 10 ^ n mod m * 10 ^ n + v mod 10 ^ n) \<le> 2 ^ 63" "0 \<le> d" "0 < m" "n \<le> 9"
    and fr: "fmt_frac n v False [] = (fr, w)"
    and u: "list_all unit_char u" "u \<noteq> []" "map_of unit_map u = Some (10 ^ n)"
  shows "pd_loop d (digits_of (w mod m) @ fr @ u) = Some (d + (w mod m * 10 ^ n + v mod 10 ^ n))"
proof -
  obtain fs where fs: "fr = frac_text fs" "list_all is_digit fs" "length fs \<le> n"
    "dec_val fs * 10 ^ (n - length fs) = v mod 10 ^ n" and w: "w = v div 10 ^ n"
    using fmt_frac_spec [OF v(1), of n] fr by auto
  have "v mod 10 ^ n < 10 ^ n" by simp
  then have sf: "seg_frac fs (10 ^ n) = v mod 10 ^ n"
    using fs v(5) by (intro seg_frac_exact) auto
  have k: "0 \<le> w mod m" using v(4) by simp
  have r0: "0 \<le> v mod 10 ^ n" by simp
  have "w mod m * 10 ^ n \<le> 2 ^ 63" unfolding w using v(2,3) r0 by linarith
  then have b: "w mod m \<le> 2 ^ 63 div 10 ^ n"
    by (simp add: pos_mod_sign zdiv_mono1 [of "w mod m * 10 ^ n" _ "10 ^ n", simplified])
  have "w mod m * 1 \<le> w mod m * 10 ^ n" using k by (intro mult_left_mono) auto
  then have b': "w mod m \<le> 2 ^ 63" using \<open>w mod m * 10 ^ n \<le> 2 ^ 63\<close> by linarith
  have "pd_loop d (digits_of (w mod m) @ frac_text fs @ u @ []) =
      pd_loop (d + (dec_val (digits_of (w mod m)) * 10 ^ n + seg_frac fs (10 ^ n))) []"
    using k b b' v w fs u digits_digits_of [OF k] sf r0
    by (intro pd_loop_segment) auto
  then show "pd_loop d (digits_of (w mod m) @ fr @ u) = Some (d + (w mod m * 10 ^ n + v mod 10 ^ n))"
    using k sf fs(1) by simp
qed

lemma units [simp]:
  "map_of unit_map ''ns'' = Some 1" "map_of unit_map [CHR 0xC2, CHR 0xB5, CHR ''s''] = Some 1000"
  "map_of unit_map ''ms'' = Some 1000000" "map_of unit_map ''s'' = Some 1000000000"
  "map_of unit_map ''m'' = Some 60000000000" "map_of unit_map ''h'' = Some 3600000000000"
  by (simp_all add: unit_map_def)

lemma unit_chars [simp]:
  "unit_char CHR ''n''" "unit_char CHR ''s''" "unit_char CHR ''m''" "unit_char CHR ''h''"
  "unit_char CHR 0xC2" "unit_char CHR 0xB5"
  by (simp_all add: unit_char_def is_digit_def)

text \<open>Below a second: one segment.\<close>

lemma pd_loop_body_small:
  assumes "0 \<le> u" and "u < Second"
  shows "pd_loop 0 (duration_body u) = Some u"
proof -
  consider "u = 0" | "0 < u" "u < 1000" | "1000 \<le> u" "u < 1000000" | "1000000 \<le> u"
    using assms by linarith
  then show ?thesis
  proof cases
    case 1
    have "digits_of 0 = ''0''"
      by (simp add: digits_of.simps digit_char_def char_of_def)
    with pd_loop_number [of 0 Second 0 "''s''" "[]"] 1 show ?thesis
      by (simp add: duration_body_def)
  next
    case 2
    with pd_loop_number [of u 1 0 "''ns''" "[]"] show ?thesis
      by (simp add: duration_body_def)
  next
    case 3
    obtain fr w where fr: "fmt_frac 3 u False [] = (fr, w)" by fastforce
    have "w = u div 1000" using fmt_frac_div [OF assms(1) fr] by simp
    moreover from this have "w mod 1000000 = w" using 3 by auto
    ultimately show ?thesis
      using pd_loop_decimal [of u 0 3 1000000 fr w "[CHR 0xC2, CHR 0xB5, CHR ''s'']"] fr 3
      by (simp add: duration_body_def)
  next
    case 4
    obtain fr w where fr: "fmt_frac 6 u False [] = (fr, w)" by fastforce
    have "w = u div 1000000" using fmt_frac_div [OF assms(1) fr] by simp
    moreover from this have "w mod 1000000 = w" using 4 assms by auto
    ultimately show ?thesis
      using pd_loop_decimal [of u 0 6 1000000 fr w "''ms''"] fr 4 assms
      by (simp add: duration_body_def)
  qed
qed

text \<open>From a second on: hours, minutes and seconds.\<close>

lemma digits_of_front: "0 \<le> n \<Longrightarrow> digits_of n @ s = [] \<or> is_digit (hd (digits_of n @ s))"
  using hd_digits_of by simp

lemma pd_loop_body_large:
  assumes "Second \<le> u" and "u \<le> 2 ^ 63"
  shows "pd_loop 0 (duration_body u) = Some u"
proof -
  obtain fr w where fr: "fmt_frac 9 u False [] = (fr, w)" by fastforce
  define m where "m = w div 60"
  define h where "h = m div 60"
  define secs where "secs = digits_of (w mod 60) @ fr @ ''s''"
  have w: "w = u div Second"
    using fmt_frac_div [OF _ fr] assms by simp
  then have w0: "0 \<le> w" and u: "w * Second + u mod Second = u" using assms by simp_all
  have m0: "0 \<le> m" and wm: "m * 60 + w mod 60 = w" using w0 by (simp_all add: m_def)
  have h0: "0 \<le> h" and mh: "h * 60 + m mod 60 = m" using m0 by (simp_all add: h_def)
  have secs: "pd_loop d secs = Some (d + (w mod 60 * Second + u mod Second))"
    if "0 \<le> d" "d + (w mod 60 * Second + u mod Second) \<le> 2 ^ 63" for d
  proof -
    have b: "d + (u div 10 ^ 9 mod 60 * 10 ^ 9 + u mod 10 ^ 9) \<le> 2 ^ 63"
      using that(2) unfolding w by simp
    have u0: "0 \<le> u" using assms(1) by simp
    have k: "map_of unit_map ''s'' = Some (10 ^ 9)" by simp
    have "pd_loop d (digits_of (w mod 60) @ fr @ ''s'') = Some (d + (w mod 60 * 10 ^ 9 + u mod 10 ^ 9))"
      by (rule pd_loop_decimal [OF u0 b that(1) _ _ fr _ _ k]) simp_all
    then show ?thesis by (simp add: secs_def)
  qed
  have us: "w mod 60 * Second + u mod Second + m * Minute = u" using u wm by simp
  have f1: "secs = [] \<or> is_digit (hd secs)" unfolding secs_def by (rule digits_of_front) simp
  have mins: "pd_loop d (digits_of (m mod 60) @ ''m'' @ secs) =
      Some (d + m mod 60 * Minute + (w mod 60 * Second + u mod Second))"
    if "0 \<le> d" "d + m mod 60 * Minute + (w mod 60 * Second + u mod Second) \<le> 2 ^ 63" for d
  proof -
    define s where "s = w mod 60 * Second + u mod Second"
    define k where "k = m mod 60"
    have b: "0 \<le> s" "0 \<le> k" "k < 60" by (simp_all add: s_def k_def)
    then have "pd_loop d (digits_of k @ ''m'' @ secs) = pd_loop (d + k * Minute) secs"
      using that f1 unfolding s_def [symmetric] k_def [symmetric] by (intro pd_loop_number) simp_all
    also have "\<dots> = Some (d + k * Minute + s)"
      using that b unfolding s_def k_def by (intro secs) simp_all
    finally show ?thesis by (simp add: s_def k_def)
  qed
  have body: "duration_body u =
      (if 0 < m then (if 0 < h then digits_of h @ ''h'' @ digits_of (m mod 60) @ ''m'' @ secs
         else digits_of (m mod 60) @ ''m'' @ secs) else secs)"
    using assms(1) fr unfolding duration_body_def m_def h_def secs_def Let_def by simp
  define n where "n = w mod 60 * Second + u mod Second"
  have n0: "0 \<le> n" by (simp add: n_def)
  have sum: "h * Hour + m mod 60 * Minute + n = u" using us mh unfolding n_def by linarith
  show ?thesis
  proof (cases "0 < h")
    case True
    then have "0 < m" using mh by (simp add: h_def)
    have f2: "digits_of (m mod 60) @ ''m'' @ secs = [] \<or> is_digit (hd (digits_of (m mod 60) @ ''m'' @ secs))"
      by (rule digits_of_front) simp
    have "0 \<le> m mod 60 * Minute" by simp
    then have hb: "h * Hour \<le> 2 ^ 63" using sum n0 assms(2) by linarith
    then have "h \<le> 2 ^ 63 div Hour" by simp
    then have "pd_loop 0 (digits_of h @ ''h'' @ digits_of (m mod 60) @ ''m'' @ secs) =
        pd_loop (0 + h * Hour) (digits_of (m mod 60) @ ''m'' @ secs)"
      using f2 h0 hb by (intro pd_loop_number) simp_all
    also have "\<dots> = Some u"
      using mins [of "0 + h * Hour"] h0 sum assms(2) unfolding n_def [symmetric] by simp
    finally show ?thesis using body True \<open>0 < m\<close> by simp
  next
    case False
    then have h: "h = 0" using h0 by simp
    then have "pd_loop 0 (digits_of (m mod 60) @ ''m'' @ secs) = Some u"
      using mins [of 0] sum assms(2) unfolding n_def [symmetric] by simp
    moreover have "pd_loop 0 secs = Some u" if "m = 0"
      using secs [of 0] sum assms(2) h that unfolding n_def [symmetric] by simp
    ultimately show ?thesis using body False m0 by (cases "m = 0") simp_all
  qed
qed

lemma pd_loop_body: "0 \<le> u \<Longrightarrow> u \<le> 2 ^ 63 \<Longrightarrow> pd_loop 0 (duration_body u) = Some u"
  using pd_loop_body_small pd_loop_body_large by (cases "u < Second") auto

lemma duration_body_shape:
  assumes "0 \<le> u"
  shows "duration_body u \<noteq> [] \<and> is_digit (hd (duration_body u)) \<and> last (duration_body u) = CHR ''s''"
proof -
  have "is_digit (hd (digits_of n))" if "0 \<le> n" for n using that by (rule hd_digits_of)
  moreover have "0 \<le> w" if "fmt_frac n u False [] = (fr, w)" for n fr w
    using fmt_frac_div [OF assms that] assms by (simp add: pos_imp_zdiv_nonneg_iff)
  moreover have "is_digit CHR ''0''" by (simp add: is_digit_def)
  ultimately show ?thesis
    using assms by (auto simp: duration_body_def Let_def split: prod.splits)
qed

theorem parse_duration_String:
  assumes "in_int64 d"
  shows "parse_duration (duration_String d) = Some d"
proof -
  let ?b = "duration_body \<bar>d\<bar>"
  have u: "0 \<le> \<bar>d\<bar>" "\<bar>d\<bar> \<le> 2 ^ 63" using assms by (auto simp: in_int64_def)
  note shape = duration_body_shape [OF u(1)]
  have sign: "hd ?b \<noteq> CHR ''-''" "hd ?b \<noteq> CHR ''+''" and n0: "?b \<noteq> ''0''"
    using shape digit_not_sign by auto
  show ?thesis
    using pd_loop_body [OF u] shape sign n0 assms
    by (auto simp: duration_String_def parse_duration_def in_int64_def)
qed

lemma space_ends_unfold: "set space_ends = {CHR 0x09, CHR 0x0A, CHR 0x0B, CHR 0x0C, CHR 0x0D, CHR 0x20,
    CHR 0xC2, CHR 0xE1, CHR 0xE2, CHR 0xE3, CHR 0x80, CHR 0x81, CHR 0x82, CHR 0x83, CHR 0x84, CHR 0x85,
    CHR 0x86, CHR 0x87, CHR 0x88, CHR 0x89, CHR 0x8A, CHR 0xA8, CHR 0xA9, CHR 0xAF, CHR 0x9F, CHR 0xA0}"
  by (auto simp: space_ends_def space_seqs_def ascii_spaces_def)

lemma trim_duration_String [simp]: "trim_space (duration_String d) = duration_String d"
proof (rule trim_space_id)
  note shape = duration_body_shape [of "\<bar>d\<bar>"]
  show "duration_String d \<noteq> []" using shape by (auto simp: duration_String_def)
  show "last (duration_String d) \<notin> set space_ends"
    using shape by (auto simp: duration_String_def space_ends_unfold)
  have "is_digit (hd (duration_String d)) \<or> hd (duration_String d) = CHR ''-''"
    using shape by (auto simp: duration_String_def)
  then show "hd (duration_String d) \<notin> set space_ends"
    by (auto simp: space_ends_unfold is_digit_def)
qed

lemma trim_in_duration_String [simp]: "trim_prefix (duration_String d) ''in '' = duration_String d"
proof -
  note shape = duration_body_shape [of "\<bar>d\<bar>"]
  then have "hd (duration_String d) \<noteq> CHR ''i''" and "duration_String d \<noteq> []"
    by (auto simp: duration_String_def is_digit_def)
  then show ?thesis by (cases "duration_String d") (auto simp: trim_prefix_def)
qed

section \<open>Instants\<close>

lemma trem_eq: "trem d b = (if d < 0 then - ((- d) mod b) else d mod b)"
  using minus_div_mult_eq_mod [of "- d" b] minus_div_mult_eq_mod [of d b]
  by (auto simp: trem_def tdiv_def)

lemma trem_bounds: "- Second < trem d Second \<and> trem d Second < Second"
  using pos_mod_bound [of Second d] pos_mod_bound [of Second "- d"]
    pos_mod_sign [of Second d] pos_mod_sign [of Second "- d"]
  by (simp add: trem_eq del: pos_mod_bound pos_mod_sign)

lemma tdiv_trem: "tdiv d Second * Second + trem d Second = d"
  by (simp add: trem_def)

lemma add_sec_exact: "in_int64 e \<Longrightarrow> in_int64 (e + d) \<Longrightarrow> add_sec e d = e + d"
  by (simp add: add_sec_def)

lemma in_int64_add_sec [simp]: "in_int64 (add_sec e d)"
  by (simp add: add_sec_def Let_def) (simp add: in_int64_def)

lemma time_ok_Add: "time_ok t \<Longrightarrow> time_ok (time_Add t d)"
  using trem_bounds [of d] by (auto simp: time_Add_def time_ok_def Let_def)

lemma time_ok_Unix [simp]: "time_ok (time_Unix n)"
  by (simp add: time_Unix_def time_ok_def)

lemma time_ok_truncate [simp]: "time_ok t \<Longrightarrow> time_ok (truncate_second t)"
  by (simp add: truncate_second_def time_ok_def)

lemma wrap64_cong: "(x - y) mod 2 ^ 64 = 0 \<Longrightarrow> wrap64 x = wrap64 y"
proof -
  assume "(x - y) mod 2 ^ 64 = 0"
  then have "(x + 2 ^ 63) mod 2 ^ 64 = (y + 2 ^ 63) mod 2 ^ 64"
    by (simp add: mod_eq_dvd_iff mod_eq_0_iff_dvd)
  then show ?thesis unfolding wrap64_def by simp
qed

lemma wrap64_wrap64_add [simp]: "wrap64 (wrap64 x + y) = wrap64 (x + y)"
proof (rule wrap64_cong)
  have "wrap64 x + y - (x + y) = - (2 ^ 64 * ((x + 2 ^ 63) div 2 ^ 64))"
    using minus_mod_eq_mult_div [of "x + 2 ^ 63" "2 ^ 64"] unfolding wrap64_def by linarith
  then show "(wrap64 x + y - (x + y)) mod 2 ^ 64 = 0" by simp
qed

lemma unix_seconds_Unix: "in_int64 n \<Longrightarrow> unix_seconds (time_Unix n) = n"
  using wrap64_wrap64_add [of "n + unixToInternal" "- unixToInternal"]
  by (simp add: unix_seconds_def time_Unix_def)

lemma sec_div: "0 \<le> x \<Longrightarrow> x < Second \<Longrightarrow> (k * Second + x) div Second = k"
  by simp

lemma time_ns_inj:
  assumes "time_ok t" and "time_ok u"
  shows "time_ns t = time_ns u \<longleftrightarrow> t = u"
proof
  assume eq: "time_ns t = time_ns u"
  have "t_sec t = time_ns t div Second" "t_sec u = time_ns u div Second"
    using assms sec_div by (auto simp: time_ok_def time_ns_def)
  with eq have "t_sec t = t_sec u" by simp
  with eq show "t = u" by (simp add: time_ns_def)
qed simp

text \<open>The addition carries some number of seconds, which saturate, and the nanoseconds exactly.\<close>

lemma time_Add_shape:
  "\<exists>k. t_sec (time_Add t d) = add_sec (t_sec t) k \<and> t_nsec (time_Add t d) - t_nsec t = d - k * Second"
proof -
  define q where "q = tdiv d Second"
  define r where "r = trem d Second"
  have d: "d = q * Second + r" using tdiv_trem [of d] by (simp add: q_def r_def)
  have add: "time_Add t d =
      (if Second \<le> t_nsec t + r then \<lparr>t_sec = add_sec (t_sec t) (q + 1), t_nsec = t_nsec t + r - Second\<rparr>
       else if t_nsec t + r < 0 then \<lparr>t_sec = add_sec (t_sec t) (q - 1), t_nsec = t_nsec t + r + Second\<rparr>
       else \<lparr>t_sec = add_sec (t_sec t) q, t_nsec = t_nsec t + r\<rparr>)"
    by (simp add: time_Add_def q_def r_def Let_def)
  show ?thesis
    unfolding add
    by (rule exI [of _ "if Second \<le> t_nsec t + r then q + 1 else if t_nsec t + r < 0 then q - 1 else q"])
       (simp add: d)
qed

lemma add_sec_cases:
  assumes "in_int64 e"
  shows "(in_int64 (e + k) \<and> add_sec e k = e + k) \<or> (2 ^ 63 \<le> e + k \<and> add_sec e k = 2 ^ 63 - 1 \<and> 0 < k)
    \<or> (e + k < - (2 ^ 63) \<and> add_sec e k = - (2 ^ 63 - 1) \<and> k < 0) \<or> 2 ^ 63 < \<bar>k\<bar>"
proof -
  consider "in_int64 (e + k)" | "2 ^ 63 \<le> e + k" "k \<le> 2 ^ 63" | "e + k < - (2 ^ 63)" "- (2 ^ 63) \<le> k" | "2 ^ 63 < \<bar>k\<bar>"
    by (fastforce simp: in_int64_def)
  then show ?thesis
  proof cases
    case 1
    then show ?thesis using assms by (simp add: add_sec_exact)
  next
    case 2
    have "wrap64 (e + k) = wrap64 (e + k - 2 ^ 64)" by (rule wrap64_cong) simp
    also have "\<dots> = e + k - 2 ^ 64" using 2 assms by (intro wrap64_id) (simp add: in_int64_def)
    finally show ?thesis using 2 assms by (simp add: add_sec_def in_int64_def)
  next
    case 3
    have "wrap64 (e + k) = wrap64 (e + k + 2 ^ 64)" by (rule wrap64_cong) simp
    also have "\<dots> = e + k + 2 ^ 64" using 3 assms by (intro wrap64_id) (simp add: in_int64_def)
    finally show ?thesis using 3 assms by (simp add: add_sec_def in_int64_def)
  qed simp
qed

text \<open>So it is exact where the seconds stay in range.\<close>

lemma time_ns_Add:
  assumes "time_ok t" and "in_int64 ((time_ns t + d) div Second)"
  shows "time_ns (time_Add t d) = time_ns t + d"
proof -
  obtain k where k: "t_sec (time_Add t d) = add_sec (t_sec t) k"
    "t_nsec (time_Add t d) = t_nsec t + (d - k * Second)"
    using time_Add_shape [of t d] by (metis add.commute diff_add_cancel)
  have n: "0 \<le> t_nsec t + (d - k * Second)" "t_nsec t + (d - k * Second) < Second"
    using time_ok_Add [OF assms(1), of d] k(2) by (simp_all add: time_ok_def)
  have "time_ns t + d = (t_sec t + k) * Second + (t_nsec t + (d - k * Second))"
    by (simp add: time_ns_def algebra_simps)
  then have "(time_ns t + d) div Second = t_sec t + k" using sec_div [OF n] by simp
  with assms have "add_sec (t_sec t) k = t_sec t + k" by (simp add: add_sec_exact time_ok_def)
  with k show ?thesis by (simp add: time_ns_def algebra_simps)
qed

lemma time_ns_range:
  assumes "time_ok t"
  shows "in_int64 (time_ns t div Second)"
proof -
  have "time_ns t div Second = t_sec t"
    using assms sec_div by (simp add: time_ok_def time_ns_def)
  with assms show ?thesis by (simp add: time_ok_def)
qed

lemma time_Before_ns:
  assumes "time_ok t" and "time_ok u"
  shows "time_Before t u \<longleftrightarrow> time_ns t < time_ns u"
proof -
  have n: "0 \<le> t_nsec t" "t_nsec t < Second" "0 \<le> t_nsec u" "t_nsec u < Second"
    using assms by (simp_all add: time_ok_def)
  then show ?thesis
    unfolding time_Before_def time_ns_def
    by (cases "t_sec t < t_sec u"; cases "t_sec t = t_sec u") linarith+
qed

text \<open>\<open>Sub\<close> of instants whose difference fits is that difference; in general it is clamped.\<close>

lemma wrap64_mult_right: "wrap64 (wrap64 x * k + y) = wrap64 (x * k + y)"
proof (rule wrap64_cong)
  have "wrap64 x * k + y - (x * k + y) = (wrap64 x - x) * k" by (simp add: algebra_simps)
  also have "wrap64 x - x = - (2 ^ 64 * ((x + 2 ^ 63) div 2 ^ 64))"
    using minus_mod_eq_mult_div [of "x + 2 ^ 63" "2 ^ 64"] unfolding wrap64_def by linarith
  finally show "(wrap64 x * k + y - (x * k + y)) mod 2 ^ 64 = 0" by (simp add: mult.assoc)
qed

lemma time_Sub_d: "wrap64 (wrap64 (t_sec t - t_sec u) * Second + (t_nsec t - t_nsec u)) =
    wrap64 (time_ns t - time_ns u)"
  unfolding wrap64_mult_right time_ns_def by (simp add: algebra_simps)

lemma time_Sub_exact:
  assumes "time_ok t" and "time_ok u" and "in_int64 (time_ns t - time_ns u)"
  shows "time_Sub t u = time_ns t - time_ns u"
proof -
  let ?d = "time_ns t - time_ns u"
  have "time_ns (time_Add u ?d) = time_ns u + ?d"
    using assms time_ns_range [OF assms(1)] by (intro time_ns_Add) simp_all
  then have "time_Add u ?d = t"
    using time_ns_inj [OF time_ok_Add [OF assms(2)] assms(1)] by simp
  then show ?thesis
    using assms(3) by (simp add: time_Sub_def time_Sub_d)
qed

text \<open>A sum that reaches the other instant stems from the true difference.\<close>

lemma time_Add_reaches:
  assumes ok: "time_ok t" "time_ok u" and d: "in_int64 d" and "time_Add u d = t"
  shows "in_int64 (time_ns t - time_ns u)"
proof -
  obtain k where k: "t_sec t = add_sec (t_sec u) k" "t_nsec t - t_nsec u = d - k * Second"
    using time_Add_shape [of u d] assms(4) by auto
  have n: "- Second < t_nsec t - t_nsec u" "t_nsec t - t_nsec u < Second"
    using ok by (simp_all add: time_ok_def)
  have kb: "\<bar>k\<bar> \<le> 2 ^ 63" using k(2) n d by (auto simp: in_int64_def)
  have diff: "time_ns t - time_ns u = (t_sec t - t_sec u - k) * Second + d"
    using k(2) by (simp add: time_ns_def algebra_simps)
  have diff': "time_ns t - time_ns u = (t_sec t - t_sec u) * Second + (t_nsec t - t_nsec u)"
    by (simp add: time_ns_def algebra_simps)
  have u: "in_int64 (t_sec u)" using ok by (simp add: time_ok_def)
  from add_sec_cases [OF u, of k] kb consider "t_sec t = t_sec u + k"
    | "0 \<le> t_sec t - t_sec u" "t_sec t - t_sec u < k" | "t_sec t - t_sec u \<le> 1" "k < t_sec t - t_sec u"
    using k(1) u by (fastforce simp: in_int64_def)
  then show ?thesis
  proof cases
    case 1
    with diff d show ?thesis by simp
  next
    case 2
    have "(t_sec t - t_sec u - k) * Second \<le> 0" using 2 by simp
    moreover have "0 \<le> (t_sec t - t_sec u) * Second" using 2 by simp
    ultimately show ?thesis using diff diff' d n by (auto simp: in_int64_def)
  next
    case 3
    have "0 \<le> (t_sec t - t_sec u - k) * Second" using 3 by simp
    moreover have "(t_sec t - t_sec u) * Second \<le> Second" using 3 by simp
    ultimately show ?thesis using diff diff' d n by (auto simp: in_int64_def)
  qed
qed

theorem time_Sub_clamp:
  assumes "time_ok t" and "time_ok u"
  shows "time_Sub t u = clamp64 (time_ns t - time_ns u)"
proof (cases "in_int64 (time_ns t - time_ns u)")
  case True
  then show ?thesis
    using time_Sub_exact [OF assms] by (simp add: clamp64_def in_int64_def)
next
  case False
  then have "time_Add u (wrap64 (time_ns t - time_ns u)) \<noteq> t"
    using time_Add_reaches [OF assms in_int64_wrap64] by blast
  then have "time_Sub t u = (if time_ns t < time_ns u then - (2 ^ 63) else 2 ^ 63 - 1)"
    by (simp add: time_Sub_def time_Sub_d time_Before_ns [OF assms])
  then show ?thesis using False by (auto simp: clamp64_def in_int64_def)
qed

end
