(* ===== verification/GoValue.thy ===== *)
theory GoValue
  imports GoTimeLemmas
begin

text \<open>
  Dynamic values (the type \<open>any\<close>) as JSON decoding and the program itself make them, the
  conversion of floating point numbers to integers, and \<open>time.Parse\<close> with the layout
  \<open>RFC3339\<close>. A map is an association list with distinct keys, listed in the order in which a
  \<open>range\<close> visits it.
\<close>

section \<open>Values\<close>

datatype gofloat = Fin rat | PosInf | NegInf | NaN

datatype goval =
    VNil
  | VBool bool
  | VFloat gofloat
  | VInt int
  | VInt64 int
  | VStr string
  | VTime gotime
  | VStrs "string list"
  | VList "goval list"
  | VMap "(string \<times> goval) list"
  | VOther string

type_synonym gomap = "(string \<times> goval) list"

text \<open>The verb \<open>%T\<close>; any other type is represented by its name.\<close>

fun type_name :: "goval \<Rightarrow> string" where
  "type_name VNil = ''<nil>''"
| "type_name (VBool _) = ''bool''"
| "type_name (VFloat _) = ''float64''"
| "type_name (VInt _) = ''int''"
| "type_name (VInt64 _) = ''int64''"
| "type_name (VStr _) = ''string''"
| "type_name (VTime _) = ''time.Time''"
| "type_name (VStrs _) = ''[]string''"
| "type_name (VList _) = ''[]interface {}''"
| "type_name (VMap _) = ''map[string]interface {}''"
| "type_name (VOther n) = n"

text \<open>Assigning to a key of a map: in place, or as a new entry.\<close>

fun map_put :: "string \<Rightarrow> 'v \<Rightarrow> (string \<times> 'v) list \<Rightarrow> (string \<times> 'v) list" where
  "map_put n v [] = [(n, v)]"
| "map_put n v ((m, w) # xs) = (if m = n then (n, v) # xs else (m, w) # map_put n v xs)"

lemma map_of_map_put [simp]: "map_of (map_put n v xs) k = (if k = n then Some v else map_of xs k)"
  by (induction n v xs rule: map_put.induct) auto

lemma keys_map_put [simp]: "fst ` set (map_put n v xs) = insert n (fst ` set xs)"
  by (induction n v xs rule: map_put.induct) auto

lemma distinct_map_put [simp]: "distinct (map fst xs) \<Longrightarrow> distinct (map fst (map_put n v xs))"
proof (induction n v xs rule: map_put.induct)
  case (2 n v m w xs)
  then show ?case using keys_map_put [of n v xs] by (auto simp: image_iff)
qed simp

text \<open>
  \<open>int64(v)\<close>: the fraction is dropped. Outside the range of \<open>int64\<close> the language leaves the
  result to the implementation: \<open>oor\<close>.
\<close>

definition trunc_rat :: "rat \<Rightarrow> int" where
  "trunc_rat q = (if q < 0 then - \<lfloor>- q\<rfloor> else \<lfloor>q\<rfloor>)"

definition int64_of_float :: "(gofloat \<Rightarrow> int) \<Rightarrow> gofloat \<Rightarrow> int" where
  "int64_of_float oor f =
     (case f of Fin q \<Rightarrow> if in_int64 (trunc_rat q) then trunc_rat q else oor f | _ \<Rightarrow> oor f)"

lemma int64_of_float_int [simp]: "in_int64 n \<Longrightarrow> int64_of_float oor (Fin (of_int n)) = n"
  by (simp add: int64_of_float_def trunc_rat_def flip: of_int_minus)

section \<open>RFC 3339\<close>

text \<open>\<open>getnum\<close>: one or two digits; \<open>fixed\<close> insists on two.\<close>

definition getnum :: "bool \<Rightarrow> string \<Rightarrow> (int \<times> string) option" where
  "getnum fixed s =
     (case s of
        a # b # r \<Rightarrow>
          if \<not> is_digit a then None
          else if is_digit b then Some (dval a * 10 + dval b, r)
          else if fixed then None else Some (dval a, b # r)
      | [a] \<Rightarrow> if is_digit a \<and> \<not> fixed then Some (dval a, []) else None
      | [] \<Rightarrow> None)"

text \<open>A two-digit field with its range, after the literal in front of it.\<close>

definition skip_char :: "char \<Rightarrow> string \<Rightarrow> string option" where
  "skip_char c s = (case s of d # r \<Rightarrow> if c = d then Some r else None | [] \<Rightarrow> None)"

definition num_field :: "char \<Rightarrow> bool \<Rightarrow> int \<Rightarrow> int \<Rightarrow> string \<Rightarrow> (int \<times> string) option" where
  "num_field c fixed lo hi s =
     (case skip_char c s of
        None \<Rightarrow> None
      | Some r \<Rightarrow>
          (case getnum fixed r of
             None \<Rightarrow> None
           | Some (n, r') \<Rightarrow> if lo \<le> n \<and> n \<le> hi then Some (n, r') else None))"

text \<open>The year: four characters, all of them digits.\<close>

definition year_field :: "string \<Rightarrow> (int \<times> string) option" where
  "year_field s =
     (if length s < 4 \<or> \<not> list_all is_digit (take 4 s) then None else Some (dec_val (take 4 s), drop 4 s))"

text \<open>The fraction that may follow the seconds: only nine digits of it count.\<close>

definition frac_field :: "string \<Rightarrow> int \<times> string" where
  "frac_field s =
     (case s of
        p # d # r \<Rightarrow>
          if (p = CHR ''.'' \<or> p = CHR '','') \<and> is_digit d then
            (let ds = takeWhile is_digit (d # r); ns = take 9 ds
             in (dec_val ns * 10 ^ (9 - length ns), dropWhile is_digit (d # r)))
          else (0, s)
      | _ \<Rightarrow> (0, s))"

text \<open>The zone: \<open>Z\<close>, or a signed offset in hours and minutes; nothing may follow. In seconds.\<close>

definition zone_field :: "string \<Rightarrow> int option" where
  "zone_field s =
     (if s = ''Z'' then Some 0
      else case s of
        [sg, h1, h2, c, m1, m2] \<Rightarrow>
          if c \<noteq> CHR '':'' \<or> sg \<notin> {CHR ''+'', CHR ''-''} then None
          else (case (getnum True [h1, h2], getnum True [m1, m2]) of
                  (Some (hr, _), Some (mm, _)) \<Rightarrow>
                    if hr > 24 \<or> mm > 60 then None
                    else Some ((if sg = CHR ''-'' then -1 else 1) * ((hr * 60 + mm) * 60))
                | _ \<Rightarrow> None)
      | _ \<Rightarrow> None)"

definition is_leap :: "int \<Rightarrow> bool" where
  "is_leap y = (y mod 4 = 0 \<and> (y mod 100 \<noteq> 0 \<or> y mod 400 = 0))"

definition days_in :: "int \<Rightarrow> int \<Rightarrow> int" where
  "days_in m y = (if m = 2 then (if is_leap y then 29 else 28) else if m \<in> {4, 6, 9, 11} then 30 else 31)"

text \<open>\<open>time.Date\<close> in UTC for fields in range: seconds since January 1, year 1.\<close>

definition days_before_year :: "int \<Rightarrow> int" where
  "days_before_year y = (let p = y - 1 in 365 * p + p div 4 - p div 100 + p div 400)"

definition days_before_month :: "int \<Rightarrow> int \<Rightarrow> int" where
  "days_before_month m y = sum_list (map (\<lambda>k. days_in k y) [1..m - 1])"

definition date_seconds :: "int \<Rightarrow> int \<Rightarrow> int \<Rightarrow> int \<Rightarrow> int \<Rightarrow> int \<Rightarrow> int" where
  "date_seconds y mo d h mi s =
     (days_before_year y + days_before_month mo y + (d - 1)) * 86400 + h * 3600 + mi * 60 + s"

text \<open>\<open>time.Parse(time.RFC3339, v)\<close>; the text of the error is not used by the program.\<close>

definition parse_rfc3339 :: "string \<Rightarrow> gotime option" where
  "parse_rfc3339 s =
     (case year_field s of
        None \<Rightarrow> None
      | Some (y, s1) \<Rightarrow>
     (case num_field CHR ''-'' True 1 12 s1 of
        None \<Rightarrow> None
      | Some (mo, s2) \<Rightarrow>
     (case num_field CHR ''-'' True 0 99 s2 of
        None \<Rightarrow> None
      | Some (d, s3) \<Rightarrow>
     (case num_field CHR ''T'' False 0 23 s3 of
        None \<Rightarrow> None
      | Some (h, s4) \<Rightarrow>
     (case num_field CHR '':'' True 0 59 s4 of
        None \<Rightarrow> None
      | Some (mi, s5) \<Rightarrow>
     (case num_field CHR '':'' True 0 59 s5 of
        None \<Rightarrow> None
      | Some (sec, s6) \<Rightarrow>
          let (ns, s7) = frac_field s6
          in case zone_field s7 of
               None \<Rightarrow> None
             | Some off \<Rightarrow>
                 if d < 1 \<or> days_in mo y < d then None
                 else Some \<lparr>t_sec = add_sec (date_seconds y mo d h mi sec) (- off), t_nsec = ns\<rparr>))))))"

text \<open>The canonical text of a date in UTC.\<close>

definition two_digits :: "int \<Rightarrow> string" where
  "two_digits n = [digit_char (n div 10), digit_char (n mod 10)]"

definition format_rfc3339 :: "int \<Rightarrow> int \<Rightarrow> int \<Rightarrow> int \<Rightarrow> int \<Rightarrow> int \<Rightarrow> string" where
  "format_rfc3339 y mo d h mi s =
     two_digits (y div 100) @ two_digits (y mod 100) @ ''-'' @ two_digits mo @ ''-'' @ two_digits d @ ''T'' @
     two_digits h @ '':'' @ two_digits mi @ '':'' @ two_digits s @ ''Z''"

lemma getnum_two_digits [simp]: "0 \<le> n \<Longrightarrow> n < 100 \<Longrightarrow> getnum f (two_digits n @ r) = Some (n, r)"
  by (simp add: getnum_def two_digits_def)

lemma num_field_two [simp]:
  "0 \<le> n \<Longrightarrow> n < 100 \<Longrightarrow> lo \<le> n \<Longrightarrow> n \<le> hi \<Longrightarrow> num_field c f lo hi (c # two_digits n @ r) = Some (n, r)"
  by (simp add: num_field_def skip_char_def)

lemma year_field_two: "0 \<le> y \<Longrightarrow> y < 10000 \<Longrightarrow> year_field (two_digits (y div 100) @ two_digits (y mod 100) @ r) = Some (y, r)"
  by (simp add: year_field_def two_digits_def dec_val_def)

lemma frac_zone_Z: "frac_field ''Z'' = (0, ''Z'')" "zone_field ''Z'' = Some 0"
  by (simp_all add: frac_field_def zone_field_def)

lemma parse_format_rfc3339:
  assumes "0 \<le> y" "y < 10000" "1 \<le> mo" "mo \<le> 12" "1 \<le> d" "d \<le> days_in mo y"
    "0 \<le> h" "h < 24" "0 \<le> mi" "mi < 60" "0 \<le> s" "s < 60"
  shows "parse_rfc3339 (format_rfc3339 y mo d h mi s) = Some \<lparr>t_sec = add_sec (date_seconds y mo d h mi s) 0, t_nsec = 0\<rparr>"
proof -
  have "d \<le> 31" using assms(6) by (auto simp: days_in_def split: if_splits)
  then show ?thesis
    using assms by (simp add: parse_rfc3339_def format_rfc3339_def year_field_two frac_zone_Z)
qed

end
