(* ===== verification/Codec.thy ===== *)
theory Codec
  imports GoText "HOL-Library.Word"
begin

text \<open>
  The packages \<open>encoding/hex\<close> and \<open>encoding/base64\<close> (the unpadded URL alphabet) on byte
  strings. Key ids are base64url texts of thumbprints, request and token ids are hexadecimal;
  the lemmas give the round trip, from which two thumbprints with one key id are equal.
\<close>

type_synonym byte = "8 word"

section \<open>Hexadecimal\<close>

definition hextable :: string where
  "hextable = ''0123456789abcdef''"

fun hex_encode :: "byte list \<Rightarrow> string" where
  "hex_encode [] = []"
| "hex_encode (b # bs) = hextable ! (unat b div 16) # hextable ! (unat b mod 16) # hex_encode bs"

lemma length_hex_encode [simp]: "length (hex_encode bs) = 2 * length bs"
  by (induction bs) auto

lemma length_hextable [simp]: "length hextable = 16"
  by (simp add: hextable_def)

lemma byte_less: "unat (b :: byte) < 256"
proof -
  have "unat b < 2 ^ LENGTH(8)" by (rule unsigned_less)
  then show ?thesis by simp
qed

lemma byte_div_mod: "unat (b :: byte) div 16 < 16 \<and> unat b mod 16 < 16"
  using byte_less [of b] by (simp add: less_mult_imp_div_less)

lemma hex_encode_chars: "set (hex_encode bs) \<subseteq> set hextable"
  by (induction bs) (use byte_div_mod in \<open>auto intro!: nth_mem\<close>)

lemma distinct_hextable: "distinct hextable"
  by (simp add: hextable_def)

lemma hex_encode_inj: "hex_encode bs = hex_encode cs \<Longrightarrow> bs = cs"
proof (induction bs arbitrary: cs)
  case Nil
  then show ?case by (cases cs) auto
next
  case (Cons b bs)
  then obtain c cs' where cs: "cs = c # cs'" by (cases cs) auto
  have "unat b div 16 = unat c div 16" "unat b mod 16 = unat c mod 16"
    using Cons.prems cs byte_div_mod [of b] byte_div_mod [of c] distinct_hextable
    by (simp_all add: nth_eq_iff_index_eq)
  then have "unat b = unat c" by (metis div_mult_mod_eq)
  then have "b = c" by (simp add: word_unat_eq_iff)
  with Cons cs show ?case by simp
qed

section \<open>Base64, URL alphabet, without padding\<close>

definition b64_alphabet :: string where
  "b64_alphabet = ''ABCDEFGHIJKLMNOPQRSTUVWXYZabcdefghijklmnopqrstuvwxyz0123456789-_''"

definition b64_char :: "nat \<Rightarrow> char" where
  "b64_char n = b64_alphabet ! (n mod 64)"

definition b64_val :: "char \<Rightarrow> nat option" where
  "b64_val c = map_of (zip b64_alphabet [0..<64]) c"

fun b64_encode :: "byte list \<Rightarrow> string" where
  "b64_encode [] = []"
| "b64_encode [a] = (let v = unat a * 65536 in [b64_char (v div 262144), b64_char (v div 4096)])"
| "b64_encode [a, b] =
     (let v = unat a * 65536 + unat b * 256
      in [b64_char (v div 262144), b64_char (v div 4096), b64_char (v div 64)])"
| "b64_encode (a # b # c # r) =
     (let v = unat a * 65536 + unat b * 256 + unat c
      in b64_char (v div 262144) # b64_char (v div 4096) # b64_char (v div 64) # b64_char v # b64_encode r)"

text \<open>The values of the characters, in groups of four; the spare bits of the last group are dropped.\<close>

fun b64_bytes :: "nat list \<Rightarrow> byte list option" where
  "b64_bytes [] = Some []"
| "b64_bytes [w] = None"
| "b64_bytes [w, x] = Some [word_of_nat ((w * 262144 + x * 4096) div 65536)]"
| "b64_bytes [w, x, y] =
     (let v = w * 262144 + x * 4096 + y * 64
      in Some [word_of_nat (v div 65536), word_of_nat (v div 256)])"
| "b64_bytes (w # x # y # z # r) =
     (let v = w * 262144 + x * 4096 + y * 64 + z
      in map_option (\<lambda>bs. word_of_nat (v div 65536) # word_of_nat (v div 256) # word_of_nat v # bs)
           (b64_bytes r))"

text \<open>\<open>DecodeString\<close> skips line ends and fails at any other byte outside the alphabet.\<close>

definition b64_decode :: "string \<Rightarrow> byte list option" where
  "b64_decode s =
     (case those (map b64_val (filter (\<lambda>c. c \<noteq> CHR 0x0A \<and> c \<noteq> CHR 0x0D) s)) of
        None \<Rightarrow> None
      | Some vs \<Rightarrow> b64_bytes vs)"

lemma length_b64_alphabet [simp]: "length b64_alphabet = 64"
  by (simp add: b64_alphabet_def)

lemma distinct_b64_alphabet: "distinct b64_alphabet"
  by (simp add: b64_alphabet_def)

lemma b64_val_char [simp]: "b64_val (b64_char n) = Some (n mod 64)"
proof -
  have "map_of (zip b64_alphabet [0..<64]) (b64_alphabet ! i) = Some i" if "i < 64" for i
    using map_of_zip_nth [of b64_alphabet "[0..<64]" i] that distinct_b64_alphabet by simp
  then show ?thesis by (simp add: b64_val_def b64_char_def)
qed

lemma b64_char_line: "b64_char n \<noteq> CHR 0x0A" "b64_char n \<noteq> CHR 0x0D"
proof -
  have "b64_char n \<in> set b64_alphabet" by (simp add: b64_char_def)
  moreover have "CHR 0x0A \<notin> set b64_alphabet" "CHR 0x0D \<notin> set b64_alphabet"
    by (simp_all add: b64_alphabet_def)
  ultimately show "b64_char n \<noteq> CHR 0x0A" "b64_char n \<noteq> CHR 0x0D" by metis+
qed

lemma sextets:
  fixes v :: nat
  assumes "v < 16777216"
  shows "v div 262144 mod 64 * 262144 + v div 4096 mod 64 * 4096 + v div 64 mod 64 * 64 + v mod 64 = v"
proof -
  define a b c where "a = v div 64" and "b = a div 64" and "c = b div 64"
  have ba: "v div 4096 = b" using div_mult2_eq [of v 64 64] by (simp add: a_def b_def)
  have ca: "v div 262144 = c" using div_mult2_eq [of v 4096 64] ba by (simp add: c_def)
  have "c < 64" unfolding ca [symmetric] using assms by (simp add: less_mult_imp_div_less)
  moreover have "c * 64 + b mod 64 = b" "b * 64 + a mod 64 = a" "a * 64 + v mod 64 = v"
    by (simp_all add: a_def b_def c_def)
  ultimately show ?thesis unfolding ba ca a_def [symmetric] by simp
qed

lemma div256: "c < 256 \<Longrightarrow> (k * 256 + c) div 256 = (k :: nat)"
  by simp

lemma word_of_nat_byte: "n = unat (b :: byte) + 256 * k \<Longrightarrow> word_of_nat n = b"
proof -
  assume n: "n = unat b + 256 * k"
  have "unat (word_of_nat n :: byte) = n mod 256" by (simp add: unsigned_of_nat take_bit_eq_mod)
  also have "\<dots> = unat b" using n byte_less [of b] by simp
  finally show ?thesis by (simp add: word_unat_eq_iff)
qed

text \<open>The 24 bits of a group of bytes, and the bytes back.\<close>

lemma octets:
  fixes a b c :: byte
  defines "v \<equiv> unat a * 65536 + unat b * 256 + unat c"
  shows "v < 16777216" and "v div 65536 = unat a" and "v div 256 = unat b + 256 * unat a"
    and "v = unat c + 256 * (unat a * 256 + unat b)"
proof -
  note less = byte_less [of a] byte_less [of b] byte_less [of c]
  show "v < 16777216" using less unfolding v_def by linarith
  have v: "v = (unat a * 256 + unat b) * 256 + unat c" by (simp add: v_def algebra_simps)
  then have d: "v div 256 = unat a * 256 + unat b" using less div256 by simp
  then show "v div 256 = unat b + 256 * unat a" by simp
  have "v div 65536 = v div 256 div 256" using div_mult2_eq [of v 256 256] by simp
  then show "v div 65536 = unat a" using d less div256 by simp
  show "v = unat c + 256 * (unat a * 256 + unat b)" using v by simp
qed

lemma b64_decode_encode: "b64_decode (b64_encode bs) = Some bs"
proof (induction bs rule: b64_encode.induct)
  case 1
  then show ?case by (simp add: b64_decode_def)
next
  case (2 a)
  let ?v = "unat a * 65536"
  have "?v div 64 mod 64 = 0" "?v mod 64 = 0" using div_mult_self1_is_m [of 64 "unat a * 1024"] by simp_all
  then have eq: "?v div 262144 mod 64 * 262144 + ?v div 4096 mod 64 * 4096 = ?v"
    using sextets [of ?v] byte_less [of a] by simp
  have "b64_bytes [?v div 262144 mod 64, ?v div 4096 mod 64] = Some [a]"
    unfolding b64_bytes.simps eq by simp
  then show ?case by (simp add: b64_decode_def b64_char_line Let_def del: b64_bytes.simps)
next
  case (3 a b)
  let ?v = "unat a * 65536 + unat b * 256"
  note o = octets [of a b 0, unfolded unsigned_0 add_0_right]
  have "?v = (unat a * 1024 + unat b * 4) * 64" by simp
  then have m: "?v mod 64 = 0" using mod_mult_self2_is_0 by presburger
  have eq: "?v div 262144 mod 64 * 262144 + ?v div 4096 mod 64 * 4096 + ?v div 64 mod 64 * 64 = ?v"
    using sextets [OF o(1)] unfolding m add_0_right .
  have "b64_bytes [?v div 262144 mod 64, ?v div 4096 mod 64, ?v div 64 mod 64] = Some [a, b]"
    unfolding b64_bytes.simps Let_def eq o(2) word_of_nat_byte [OF o(3)] by simp
  then show ?case by (simp add: b64_decode_def b64_char_line Let_def del: b64_bytes.simps)
next
  case (4 a b c r)
  let ?v = "unat a * 65536 + unat b * 256 + unat c"
  note o = octets [of a b c]
  have eq: "?v div 262144 mod 64 * 262144 + ?v div 4096 mod 64 * 4096 + ?v div 64 mod 64 * 64 + ?v mod 64 = ?v"
    using o(1) by (rule sextets)
  have w: "word_of_nat (?v div 65536) = a" "word_of_nat (?v div 256) = b" "word_of_nat ?v = c"
    using word_of_nat_byte [OF o(3)] word_of_nat_byte [OF o(4)] unfolding o(2) by simp_all
  have "b64_bytes ((?v div 262144 mod 64) # (?v div 4096 mod 64) # (?v div 64 mod 64) # (?v mod 64) # vs) =
      map_option (\<lambda>bs. a # b # c # bs) (b64_bytes vs)" for vs
    unfolding b64_bytes.simps Let_def eq w ..
  with 4 show ?case
    by (auto simp: b64_decode_def b64_char_line Let_def simp del: b64_bytes.simps split: option.splits)
qed

lemma b64_encode_inj: "b64_encode bs = b64_encode cs \<Longrightarrow> bs = cs"
  by (metis b64_decode_encode option.inject)

lemma b64_encode_alphabet: "set (b64_encode bs) \<subseteq> set b64_alphabet"
proof -
  have char: "b64_char n \<in> set b64_alphabet" for n by (simp add: b64_char_def)
  show ?thesis by (induction bs rule: b64_encode.induct) (simp_all add: Let_def char)
qed

lemma b64_encode_Nil_iff [simp]: "b64_encode bs = [] \<longleftrightarrow> bs = []"
  by (cases bs rule: b64_encode.cases) (auto simp: Let_def)

end
