(* ===== verification/Http.thy ===== *)
theory Http
  imports GoValue Codec
begin

text \<open>
  Requests and responses as the standard library presents them to the handlers: \<open>net/http\<close> has
  split the request into method, path, query, headers, basic credentials and form,
  \<open>encoding/json\<close> has read the body as a JSON value or reports an error. Decoding that value into
  the structs of the program is modelled here: field names match exactly or else up to case, a
  value of the wrong type is remembered as the error and decoding goes on, and an error of an
  \<open>UnmarshalJSON\<close> method ends it.
\<close>

section \<open>JSON\<close>

text \<open>Objects list their members in the order of the text.\<close>

datatype json = JNull | JBool bool | JNum rat | JStr string | JArr "json list" | JObj "(string \<times> json) list"

text \<open>The value a JSON value becomes in a variable of type \<open>any\<close>.\<close>

fun to_any :: "json \<Rightarrow> goval" and any_members :: "(string \<times> json) list \<Rightarrow> gomap \<Rightarrow> gomap" where
  "to_any JNull = VNil"
| "to_any (JBool b) = VBool b"
| "to_any (JNum q) = VFloat (Fin q)"
| "to_any (JStr s) = VStr s"
| "to_any (JArr xs) = VList (map to_any xs)"
| "to_any (JObj ms) = VMap (any_members ms [])"
| "any_members [] acc = acc"
| "any_members ((k, v) # ms) acc = any_members ms (map_put k (to_any v) acc)"

fun json_kind :: "json \<Rightarrow> string" where
  "json_kind JNull = ''null''"
| "json_kind (JBool _) = ''bool''"
| "json_kind (JNum _) = ''number''"
| "json_kind (JStr _) = ''string''"
| "json_kind (JArr _) = ''array''"
| "json_kind (JObj _) = ''object''"

definition type_error :: "json \<Rightarrow> string \<Rightarrow> string \<Rightarrow> gerr" where
  "type_error v field t =
     errorf [Lit (''json: cannot unmarshal '' @ json_kind v @ '' into Go struct field '' @ field @ '' of type '' @ t)]"

definition top_type_error :: "json \<Rightarrow> string \<Rightarrow> gerr" where
  "top_type_error v t = errorf [Lit (''json: cannot unmarshal '' @ json_kind v @ '' into Go value of type '' @ t)]"

text \<open>The struct field a member name selects.\<close>

definition field_of :: "string list \<Rightarrow> string \<Rightarrow> string option" where
  "field_of names key = (if List.member names key then Some key else find (\<lambda>n. equal_fold n key) names)"

text \<open>Decoding into one variable: its new value and the error to remember, if there is one.\<close>

definition decode_string :: "string \<Rightarrow> json \<Rightarrow> string \<Rightarrow> string \<times> gerr option" where
  "decode_string field v old =
     (case v of JStr s \<Rightarrow> (s, None) | JNull \<Rightarrow> (old, None) | _ \<Rightarrow> (old, Some (type_error v field ''string'')))"

definition decode_map :: "string \<Rightarrow> json \<Rightarrow> gomap \<Rightarrow> gomap \<times> gerr option" where
  "decode_map field v old =
     (case v of
        JObj ms \<Rightarrow> (any_members ms old, None)
      | JNull \<Rightarrow> ([], None)
      | _ \<Rightarrow> (old, Some (type_error v field ''map[string]interface {}'')))"

text \<open>The elements of a list of strings; \<open>null\<close> leaves the empty string.\<close>

fun decode_strings :: "string \<Rightarrow> json list \<Rightarrow> string list \<times> gerr option" where
  "decode_strings field [] = ([], None)"
| "decode_strings field (v # vs) =
     (let (s, e) = decode_string field v []; (ss, e') = decode_strings field vs
      in (s # ss, case e of None \<Rightarrow> e' | Some _ \<Rightarrow> e))"

definition first_err :: "gerr option \<Rightarrow> gerr option \<Rightarrow> gerr option" where
  "first_err e e' = (case e of None \<Rightarrow> e' | Some _ \<Rightarrow> e)"

section \<open>Requests\<close>

text \<open>The body as a JSON decoder reads it: nothing, an error, or a value.\<close>

datatype json_body = BodyEOF | BodyError gerr | BodyValue json

record http_request =
  r_Method :: string
  r_Path :: string
  r_Query :: "(string \<times> string list) list"
  r_Header :: "(string \<times> string) list"
  r_RemoteAddr :: string
  r_BasicUser :: "string option"
  r_MediaType :: "gerr + string"
  r_PostForm :: "gerr + (string \<times> string list) list"
  r_Json :: json_body

text \<open>\<open>Header.Get\<close>, and \<open>Get\<close> of URL values: the first value, or the empty string.\<close>

definition header_Get :: "http_request \<Rightarrow> string \<Rightarrow> string" where
  "header_Get r name = (case map_of (r_Header r) name of None \<Rightarrow> [] | Some v \<Rightarrow> v)"

definition values_Get :: "(string \<times> string list) list \<Rightarrow> string \<Rightarrow> string" where
  "values_Get vs name = (case map_of vs name of Some (v # _) \<Rightarrow> v | _ \<Rightarrow> [])"

section \<open>Responses\<close>

text \<open>A body is a JSON value to be encoded, bytes, or plain text.\<close>

datatype http_body = BJson goval | BRaw string | BText string

record http_response =
  h_Status :: int
  h_Header :: "(string \<times> string) list"
  h_Body :: http_body

definition header_Set :: "string \<Rightarrow> string \<Rightarrow> http_response \<Rightarrow> http_response" where
  "header_Set n v h = h\<lparr>h_Header := map_put n v (h_Header h)\<rparr>"

definition resp_header :: "http_response \<Rightarrow> string \<Rightarrow> string option" where
  "resp_header h n = map_of (h_Header h) n"

lemma resp_header_Set [simp]:
  "resp_header (header_Set n v h) m = (if m = n then Some v else resp_header h m)"
  "h_Status (header_Set n v h) = h_Status h" "h_Body (header_Set n v h) = h_Body h"
  by (simp_all add: resp_header_def header_Set_def)

end
