(* ===== verification/GoFlag.thy ===== *)
theory GoFlag
  imports Http
begin

text \<open>
  The package \<open>flag\<close> as the commands use it: a flag set is the list of its flags, each with the
  way its value is written into the configuration. Parsing stops at the first argument that is
  not a flag, after \<open>--\<close>, or at the first error; what was set before stays set.
\<close>

text \<open>
  What a command reads from the operating system, and the two parsers of the standard library
  that are taken as given: files and environment variables, the JSON value of a text, and the
  number of a decimal or hexadecimal floating-point literal.
\<close>

record os_env =
  os_ReadFile :: "string \<Rightarrow> gerr + string"
  os_Getenv :: "string \<Rightarrow> string"
  json_parse :: "string \<Rightarrow> gerr + json"
  ParseFloat :: "string \<Rightarrow> gerr + gofloat"

record 'c flag =
  fl_name :: string
  fl_bool :: bool
  fl_set :: "string \<Rightarrow> 'c \<Rightarrow> gerr + 'c"

definition ErrHelp :: gerr where
  "ErrHelp = sentinel ''flag.ErrHelp'' ''flag: help requested''"

definition flag_invalid :: "'c flag \<Rightarrow> bool \<Rightarrow> string \<Rightarrow> gerr \<Rightarrow> gerr" where
  "flag_invalid f given v e =
     (if fl_bool f \<and> \<not> given then errorf ([Lit (''invalid boolean flag '' @ fl_name f @ '': '')] @ err_text e)
      else errorf ([Lit (if fl_bool f then ''invalid boolean value '' else ''invalid value ''), Quo v,
                    Lit ((if fl_bool f then '' for -'' else '' for flag -'') @ fl_name f @ '': '')] @ err_text e))"

text \<open>The name and, behind the first equals sign, the value.\<close>

definition flag_name :: "string \<Rightarrow> string" where
  "flag_name s = takeWhile (\<lambda>ch. ch \<noteq> CHR ''='') s"

definition flag_value :: "string \<Rightarrow> string" where
  "flag_value s = drop (Suc (length (flag_name s))) s"

fun flag_parse :: "'c flag list \<Rightarrow> string list \<Rightarrow> 'c \<Rightarrow> 'c \<times> (gerr + string list)" where
  "flag_parse fs [] c = (c, Inr [])"
| "flag_parse fs (s # args) c =
     (if length s < 2 \<or> hd s \<noteq> CHR ''-'' then (c, Inr (s # args))
      else if s = ''--'' then (c, Inr args)
      else
        (let body = (if s ! 1 = CHR ''-'' then drop 2 s else drop 1 s);
             given = List.member body CHR ''='';
             name = flag_name body
         in if body = [] \<or> hd body = CHR ''-'' \<or> hd body = CHR ''='' then (c, Inl (errorf [Lit (''bad flag syntax: '' @ s)]))
            else case find (\<lambda>f. fl_name f = name) fs of
              None \<Rightarrow>
                (c, Inl (if name = ''help'' \<or> name = ''h'' then ErrHelp
                         else errorf [Lit (''flag provided but not defined: -'' @ name)]))
            | Some f \<Rightarrow>
                if fl_bool f \<or> given then
                  (let v = (if given then flag_value body else ''true'')
                   in case fl_set f v c of
                        Inl e \<Rightarrow> (c, Inl (flag_invalid f given v e))
                      | Inr c' \<Rightarrow> flag_parse fs args c')
                else (case args of
                    [] \<Rightarrow> (c, Inl (errorf [Lit (''flag needs an argument: -'' @ name)]))
                  | v # args' \<Rightarrow>
                      (case fl_set f v c of
                         Inl e \<Rightarrow> (c, Inl (flag_invalid f True v e))
                       | Inr c' \<Rightarrow> flag_parse fs args' c'))))"

declare flag_parse.simps(2) [simp del]

section \<open>The kinds of flags\<close>

definition StringVar :: "string \<Rightarrow> (string \<Rightarrow> 'c \<Rightarrow> 'c) \<Rightarrow> 'c flag" where
  "StringVar name upd = \<lparr>fl_name = name, fl_bool = False, fl_set = (\<lambda>v c. Inr (upd v c))\<rparr>"

definition parse_error :: gerr where
  "parse_error = errors_New ''parse error''"

definition DurationVar :: "string \<Rightarrow> (int \<Rightarrow> 'c \<Rightarrow> 'c) \<Rightarrow> 'c flag" where
  "DurationVar name upd =
     \<lparr>fl_name = name, fl_bool = False,
      fl_set = (\<lambda>v c. case parse_duration v of None \<Rightarrow> Inl parse_error | Some d \<Rightarrow> Inr (upd d c))\<rparr>"

text \<open>\<open>strconv.ParseBool\<close>.\<close>

definition parse_bool :: "string \<Rightarrow> bool option" where
  "parse_bool s =
     (if List.member [''1'', ''t'', ''T'', ''TRUE'', ''true'', ''True''] s then Some True
      else if List.member [''0'', ''f'', ''F'', ''FALSE'', ''false'', ''False''] s then Some False else None)"

definition BoolVar :: "string \<Rightarrow> (bool \<Rightarrow> 'c \<Rightarrow> 'c) \<Rightarrow> 'c flag" where
  "BoolVar name upd =
     \<lparr>fl_name = name, fl_bool = True,
      fl_set = (\<lambda>v c. case parse_bool v of None \<Rightarrow> Inl parse_error | Some b \<Rightarrow> Inr (upd b c))\<rparr>"

text \<open>Any other parser of a value, with its error.\<close>

definition ParsedVar :: "string \<Rightarrow> (string \<Rightarrow> gerr + 'v) \<Rightarrow> ('v \<Rightarrow> 'c \<Rightarrow> 'c) \<Rightarrow> 'c flag" where
  "ParsedVar name parse upd =
     \<lparr>fl_name = name, fl_bool = False, fl_set = (\<lambda>v c. case parse v of Inl e \<Rightarrow> Inl e | Inr x \<Rightarrow> Inr (upd x c))\<rparr>"

text \<open>\<open>strconv.ParseInt\<close> with base 0: the prefix of the literal decides, underscores separate digits.\<close>

definition ErrRange :: gerr where "ErrRange = sentinel ''strconv.ErrRange'' ''value out of range''"
definition ErrSyntax :: gerr where "ErrSyntax = sentinel ''strconv.ErrSyntax'' ''invalid syntax''"

definition literal_digit :: "char \<Rightarrow> int option" where
  "literal_digit ch = (let n = of_char (lower_char ch) :: int in
     if is_digit ch then Some (n - 48) else if 97 \<le> n \<and> n \<le> 122 then Some (n - 87) else None)"

definition base_prefix :: "string \<Rightarrow> bool" where
  "base_prefix s = (length s \<ge> 2 \<and> hd s = CHR ''0'' \<and> List.member ''box'' (lower_char (s ! 1)))"

text \<open>The last thing seen: nothing, a digit, an underscore, anything else.\<close>

fun underscores_ok :: "bool \<Rightarrow> char \<Rightarrow> string \<Rightarrow> bool" where
  "underscores_ok hexa saw [] = (saw \<noteq> CHR ''_'')"
| "underscores_ok hexa saw (ch # s) =
     (if is_digit ch \<or> hexa \<and> List.member ''abcdef'' (lower_char ch) then underscores_ok hexa CHR ''0'' s
      else if ch = CHR ''_'' then saw = CHR ''0'' \<and> underscores_ok hexa CHR ''_'' s
      else saw \<noteq> CHR ''_'' \<and> underscores_ok hexa CHR ''!'' s)"

definition underscoreOK :: "string \<Rightarrow> bool" where
  "underscoreOK s =
     (if base_prefix s then underscores_ok (lower_char (s ! 1) = CHR ''x'') CHR ''0'' (drop 2 s)
      else underscores_ok False CHR ''^'' s)"

fun uint_loop :: "int \<Rightarrow> int \<Rightarrow> string \<Rightarrow> gerr + int" where
  "uint_loop base n [] = Inr n"
| "uint_loop base n (ch # s) =
     (if ch = CHR ''_'' then uint_loop base n s
      else case literal_digit ch of
        None \<Rightarrow> Inl ErrSyntax
      | Some d \<Rightarrow>
          if d \<ge> base then Inl ErrSyntax
          else if n * base + d \<ge> 2 ^ 64 then Inl ErrRange else uint_loop base (n * base + d) s)"

definition parse_int0 :: "string \<Rightarrow> gerr + int" where
  "parse_int0 s0 =
     (let neg = (s0 \<noteq> [] \<and> hd s0 = CHR ''-'');
          s = (if s0 \<noteq> [] \<and> (hd s0 = CHR ''-'' \<or> hd s0 = CHR ''+'') then tl s0 else s0);
          long = (base_prefix s \<and> length s \<ge> 3);
          base = (if long then (if lower_char (s ! 1) = CHR ''b'' then 2 else if lower_char (s ! 1) = CHR ''o'' then 8 else 16)
                  else if s \<noteq> [] \<and> hd s = CHR ''0'' then 8 else 10 :: int);
          body = (if long then drop 2 s else if s \<noteq> [] \<and> hd s = CHR ''0'' then tl s else s)
      in if s = [] then Inl ErrSyntax
         else case uint_loop base 0 body of
           Inl e \<Rightarrow> Inl e
         | Inr n \<Rightarrow>
             if List.member body CHR ''_'' \<and> \<not> underscoreOK s then Inl ErrSyntax
             else if neg then (if n > 2 ^ 63 then Inl ErrRange else Inr (- n))
             else (if n \<ge> 2 ^ 63 then Inl ErrRange else Inr n))"

text \<open>The errors of numbers are replaced by those of the package.\<close>

definition numError :: "gerr \<Rightarrow> gerr" where
  "numError e = (if errors_Is e ErrSyntax then parse_error else if errors_Is e ErrRange then errors_New ''value out of range'' else e)"

definition IntVar :: "string \<Rightarrow> (int \<Rightarrow> 'c \<Rightarrow> 'c) \<Rightarrow> 'c flag" where
  "IntVar name upd = ParsedVar name (\<lambda>s. map_sum numError id (parse_int0 s)) upd"

definition Float64Var :: "os_env \<Rightarrow> string \<Rightarrow> (gofloat \<Rightarrow> 'c \<Rightarrow> 'c) \<Rightarrow> 'c flag" where
  "Float64Var en name upd = ParsedVar name (\<lambda>s. map_sum numError id (ParseFloat en s)) upd"

lemmas flag_kinds = IntVar_def Float64Var_def StringVar_def DurationVar_def BoolVar_def ParsedVar_def

section \<open>Lemmas\<close>

lemma flag_parse_skip:
  assumes "length s < 2 \<or> hd s \<noteq> CHR ''-''"
  shows "flag_parse fs (s # args) c = (c, Inr (s # args))"
  using assms by (simp add: flag_parse.simps(2))

text \<open>One flag written as \<open>--name=value\<close>.\<close>

lemma flag_parse_equals:
  assumes "find (\<lambda>f. fl_name f = n) fs = Some f" and "n \<noteq> []" and "hd n \<noteq> CHR ''-''" and "CHR ''='' \<notin> set n"
    and "fl_set f v c = Inr c'"
  shows "flag_parse fs ((''--'' @ n @ ''='' @ v) # args) c = flag_parse fs args c'"
proof -
  have name: "flag_name (n @ ''='' @ v) = n"
    using assms(4) unfolding flag_name_def by (subst takeWhile_append2) auto
  then have "flag_value (n @ ''='' @ v) = v" by (simp add: flag_value_def)
  moreover have "hd (n @ ''='' @ v) \<noteq> CHR ''-'' \<and> hd (n @ ''='' @ v) \<noteq> CHR ''=''" using assms(2-4) by (cases n) auto
  ultimately show ?thesis
    using assms(1,2,5) name by (simp add: flag_parse.simps(2) Let_def)
qed

end
