(* ===== verification/Keyring.thy ===== *)
theory Keyring
  imports GoTimeLemmas Codec
begin

text \<open>
  The component \<open>internal/keyring\<close>: the in-memory key ring. Keys are objects the maps
  \<open>active\<close> and \<open>retired\<close> point to and that retiring and zeroizing change in place, so the
  state holds a heap of keys and the maps hold addresses. Randomness and the clock enter as
  arguments (\<open>crypto_draw\<close>: what the generators return in one call). The JWK library is a
  parameter, a record of the functions the code calls. A Go \<open>range\<close> over a map takes the
  order of the visit as an argument.
\<close>

section \<open>Algorithms, statuses, errors\<close>

type_synonym algorithm = string
type_synonym keystatus = string

definition AlgRS256 :: algorithm where "AlgRS256 = ''RS256''"
definition AlgES256 :: algorithm where "AlgES256 = ''ES256''"
definition AlgEdDSA :: algorithm where "AlgEdDSA = ''EdDSA''"

lemmas alg_defs = AlgRS256_def AlgES256_def AlgEdDSA_def

definition KeyStatusActive :: keystatus where "KeyStatusActive = ''active''"
definition KeyStatusRetired :: keystatus where "KeyStatusRetired = ''retired''"

definition allAlgorithms :: "algorithm list" where
  "allAlgorithms = [AlgRS256, AlgES256, AlgEdDSA]"

text \<open>The JWA identifiers of the library, by their names.\<close>

definition JWAAlgorithms :: "(algorithm \<times> string) list" where
  "JWAAlgorithms = [(AlgRS256, ''RS256''), (AlgES256, ''ES256''), (AlgEdDSA, ''EdDSA'')]"

definition ErrNoActiveKey :: gerr where
  "ErrNoActiveKey = sentinel ''keyring.ErrNoActiveKey'' ''keyring: no active signing key''"

definition ErrUnsupportedAlg :: gerr where
  "ErrUnsupportedAlg = sentinel ''keyring.ErrUnsupportedAlg'' ''keyring: unsupported algorithm''"

definition ErrKeyNotFound :: gerr where
  "ErrKeyNotFound = sentinel ''keyring.ErrKeyNotFound'' ''keyring: key not found''"

lemmas ring_errs = ErrNoActiveKey_def ErrUnsupportedAlg_def ErrKeyNotFound_def

section \<open>Keys\<close>

record rsa_key =
  rsa_N :: int
  rsa_E :: int
  rsa_D :: int
  rsa_Dp :: int
  rsa_Dq :: int
  rsa_Qinv :: int
  rsa_Primes :: "int list"

record ecdsa_key =
  ec_curve :: string
  ec_X :: int
  ec_Y :: int
  ec_D :: int

datatype private_key = RSAPriv rsa_key | ECDSAPriv ecdsa_key | Ed25519Priv "byte list"

datatype public_key = RSAPub int int | ECDSAPub string int int | Ed25519Pub "byte list"

text \<open>The method \<open>Public\<close> of the three private key types.\<close>

fun Public :: "private_key \<Rightarrow> public_key" where
  "Public (RSAPriv k) = RSAPub (rsa_N k) (rsa_E k)"
| "Public (ECDSAPriv k) = ECDSAPub (ec_curve k) (ec_X k) (ec_Y k)"
| "Public (Ed25519Priv bs) = Ed25519Pub (drop 32 bs)"

record 'j jwx =
  jwk_Import :: "private_key \<Rightarrow> gerr + 'j"
  jwk_PublicKey :: "'j \<Rightarrow> gerr + 'j"
  jwk_Thumbprint :: "'j \<Rightarrow> gerr + byte list"
  jwk_Set :: "'j \<Rightarrow> string \<Rightarrow> string \<Rightarrow> gerr + 'j"
  jwk_KeyID :: "'j \<Rightarrow> string option"
  jwk_AddKey :: "'j list \<Rightarrow> 'j \<Rightarrow> gerr + 'j list"
  jwk_LookupKeyID :: "'j list \<Rightarrow> string \<Rightarrow> 'j option"

record 'j Key =
  k_Private :: private_key
  k_Public :: public_key
  k_PrivJWK :: 'j
  k_PubJWK :: 'j
  k_Algorithm :: algorithm
  k_CreatedAt :: gotime
  k_RetiredAt :: gotime

definition Kid :: "'j jwx \<Rightarrow> 'j Key \<Rightarrow> string" where
  "Kid lib k = (case jwk_KeyID lib (k_PubJWK k) of None \<Rightarrow> [] | Some s \<Rightarrow> s)"

fun zeroizePrivate :: "private_key \<Rightarrow> private_key" where
  "zeroizePrivate (RSAPriv k) =
     RSAPriv (k\<lparr>rsa_D := 0, rsa_Dp := 0, rsa_Dq := 0, rsa_Qinv := 0, rsa_Primes := map (\<lambda>_. 0) (rsa_Primes k)\<rparr>)"
| "zeroizePrivate (ECDSAPriv k) = ECDSAPriv k"
| "zeroizePrivate (Ed25519Priv bs) = Ed25519Priv (map (\<lambda>_. 0) bs)"

section \<open>Key generation\<close>

record crypto_draw =
  draw_rsa :: "gerr + rsa_key"
  draw_ecdsa :: "gerr + ecdsa_key"
  draw_ed25519 :: "gerr + byte list"
  draw_now :: gotime

definition draw_private :: "crypto_draw \<Rightarrow> algorithm \<Rightarrow> gerr + private_key" where
  "draw_private dr alg =
     (if alg = AlgRS256 then map_sum id RSAPriv (draw_rsa dr)
      else if alg = AlgES256 then map_sum id ECDSAPriv (draw_ecdsa dr)
      else map_sum id Ed25519Priv (draw_ed25519 dr))"

text \<open>The three fields the loop sets on each JWK.\<close>

definition set_fields :: "'j jwx \<Rightarrow> string \<Rightarrow> string \<Rightarrow> 'j \<Rightarrow> gerr + 'j" where
  "set_fields lib kid jwaAlg k =
     (case jwk_Set lib k ''kid'' kid of
        Inl e \<Rightarrow> Inl e
      | Inr k1 \<Rightarrow>
          (case jwk_Set lib k1 ''use'' ''sig'' of
             Inl e \<Rightarrow> Inl e
           | Inr k2 \<Rightarrow> jwk_Set lib k2 ''alg'' jwaAlg))"

definition generateKey :: "'j jwx \<Rightarrow> crypto_draw \<Rightarrow> algorithm \<Rightarrow> gerr + 'j Key" where
  "generateKey lib dr alg =
     (if alg \<notin> set allAlgorithms then Inl (wrapf [] ErrUnsupportedAlg [Lit '': '', Lit alg])
      else case draw_private dr alg of
        Inl e \<Rightarrow> Inl (wrapf [Lit ''generate '', Lit alg, Lit '' key: ''] e [])
      | Inr priv \<Rightarrow>
          (case jwk_Import lib priv of
             Inl e \<Rightarrow> Inl (wrapf [Lit ''build private jwk: ''] e [])
           | Inr privJWK \<Rightarrow>
               (case jwk_PublicKey lib privJWK of
                  Inl e \<Rightarrow> Inl (wrapf [Lit ''derive public jwk: ''] e [])
                | Inr pubJWK \<Rightarrow>
                    (case jwk_Thumbprint lib pubJWK of
                       Inl e \<Rightarrow> Inl (wrapf [Lit ''compute rfc7638 thumbprint: ''] e [])
                     | Inr thumbprint \<Rightarrow>
                         (case set_fields lib (b64_encode thumbprint) alg privJWK of
                            Inl e \<Rightarrow> Inl e
                          | Inr privJWK' \<Rightarrow>
                              (case set_fields lib (b64_encode thumbprint) alg pubJWK of
                                 Inl e \<Rightarrow> Inl e
                               | Inr pubJWK' \<Rightarrow>
                                   Inr \<lparr>k_Private = priv, k_Public = Public priv, k_PrivJWK = privJWK',
                                        k_PubJWK = pubJWK', k_Algorithm = alg,
                                        k_CreatedAt = draw_now dr, k_RetiredAt = zero_time\<rparr>))))))"

section \<open>The ring\<close>

type_synonym keyref = nat

record 'j KeyRing =
  kr_heap :: "keyref \<rightharpoonup> 'j Key"
  kr_next :: keyref
  kr_active :: "algorithm \<rightharpoonup> keyref"
  kr_retired :: "algorithm \<rightharpoonup> keyref list"
  kr_grace :: int
  kr_enabled :: "algorithm \<rightharpoonup> bool"

definition enabled_alg :: "'j KeyRing \<Rightarrow> algorithm \<Rightarrow> bool" where
  "enabled_alg r alg = (kr_enabled r alg = Some True)"

text \<open>Allocating a key and making it the active one of its algorithm.\<close>

definition install :: "algorithm \<Rightarrow> 'j Key \<Rightarrow> 'j KeyRing \<Rightarrow> 'j KeyRing" where
  "install alg k r =
     r\<lparr>kr_heap := (kr_heap r)(kr_next r \<mapsto> k), kr_next := Suc (kr_next r),
       kr_active := (kr_active r)(alg \<mapsto> kr_next r)\<rparr>"

fun new_loop :: "'j jwx \<Rightarrow> crypto_draw \<Rightarrow> algorithm list \<Rightarrow> 'j KeyRing \<Rightarrow> gerr + 'j KeyRing" where
  "new_loop lib dr [] r = Inr r"
| "new_loop lib dr (alg # algs) r =
     (if enabled_alg r alg then
        (case generateKey lib dr alg of
           Inl e \<Rightarrow> Inl e
         | Inr k \<Rightarrow> new_loop lib dr algs (install alg k r))
      else new_loop lib dr algs r)"

definition enabled_map :: "algorithm list \<Rightarrow> algorithm \<rightharpoonup> bool" where
  "enabled_map algs =
     foldl (\<lambda>m alg. m(alg \<mapsto> True)) (foldl (\<lambda>m alg. m(alg \<mapsto> False)) Map.empty allAlgorithms) algs"

definition keyring_New :: "'j jwx \<Rightarrow> crypto_draw \<Rightarrow> int \<Rightarrow> algorithm list \<Rightarrow> gerr + 'j KeyRing" where
  "keyring_New lib dr grace enabledAlgs =
     (let enabled = enabled_map enabledAlgs
      in if enabled AlgRS256 \<noteq> Some True \<and> enabled AlgES256 \<noteq> Some True \<and> enabled AlgEdDSA \<noteq> Some True
         then Inl (errors_New ''keyring: at least one algorithm must be enabled'')
         else new_loop lib dr allAlgorithms
                \<lparr>kr_heap = Map.empty, kr_next = 0, kr_active = Map.empty, kr_retired = Map.empty,
                 kr_grace = grace, kr_enabled = enabled\<rparr>)"

definition Signer :: "'j KeyRing \<Rightarrow> algorithm \<Rightarrow> gerr + 'j Key" where
  "Signer r alg =
     (if \<not> enabled_alg r alg then Inl (wrapf [] ErrUnsupportedAlg [Lit '': '', Lit alg])
      else case Option.bind (kr_active r alg) (kr_heap r) of
        None \<Rightarrow> Inl ErrNoActiveKey
      | Some k \<Rightarrow> Inr k)"

definition ActiveKid :: "'j jwx \<Rightarrow> 'j KeyRing \<Rightarrow> algorithm \<Rightarrow> gerr + string" where
  "ActiveKid lib r alg = (case Signer r alg of Inl e \<Rightarrow> Inl e | Inr k \<Rightarrow> Inr (Kid lib k))"

text \<open>The old active key, if there is one, gets its time stamp and joins the retired ones.\<close>

definition retire_active :: "algorithm \<Rightarrow> gotime \<Rightarrow> 'j KeyRing \<Rightarrow> 'j KeyRing" where
  "retire_active alg now r =
     (case kr_active r alg of
        None \<Rightarrow> r
      | Some old \<Rightarrow>
          r\<lparr>kr_heap := (kr_heap r)(old := map_option (\<lambda>k. k\<lparr>k_RetiredAt := now\<rparr>) (kr_heap r old)),
            kr_retired := (kr_retired r)(alg \<mapsto>
              (case kr_retired r alg of None \<Rightarrow> [] | Some xs \<Rightarrow> xs) @ [old])\<rparr>)"

text \<open>
  The loop of \<open>RotateAt\<close>. An error ends it, and what the algorithms before it did stays done.
\<close>

fun rotate_loop ::
    "'j jwx \<Rightarrow> crypto_draw \<Rightarrow> gotime \<Rightarrow> algorithm list \<Rightarrow> 'j KeyRing \<Rightarrow> 'j KeyRing \<times> gerr option" where
  "rotate_loop lib dr now [] r = (r, None)"
| "rotate_loop lib dr now (alg # algs) r =
     (if \<not> enabled_alg r alg then rotate_loop lib dr now algs r
      else case generateKey lib dr alg of
        Inl e \<Rightarrow> (r, Some e)
      | Inr k \<Rightarrow> rotate_loop lib dr now algs (install alg k (retire_active alg now r)))"

definition RotateAt :: "'j jwx \<Rightarrow> crypto_draw \<Rightarrow> gotime \<Rightarrow> 'j KeyRing \<Rightarrow> 'j KeyRing \<times> gerr option" where
  "RotateAt lib dr now r = rotate_loop lib dr now allAlgorithms r"

text \<open>\<open>Rotate\<close> reads the clock, which the draw of the call carries.\<close>

definition Rotate :: "'j jwx \<Rightarrow> crypto_draw \<Rightarrow> 'j KeyRing \<Rightarrow> 'j KeyRing \<times> gerr option" where
  "Rotate lib dr r = RotateAt lib dr (draw_now dr) r"

definition within_grace :: "gotime \<Rightarrow> int \<Rightarrow> 'j Key \<Rightarrow> bool" where
  "within_grace now grace k = (time_Sub now (k_RetiredAt k) < grace)"

definition zeroize_ref :: "keyref \<Rightarrow> 'j KeyRing \<Rightarrow> 'j KeyRing" where
  "zeroize_ref x r =
     r\<lparr>kr_heap := (kr_heap r)(x := map_option (\<lambda>k. k\<lparr>k_Private := zeroizePrivate (k_Private k)\<rparr>) (kr_heap r x))\<rparr>"

text \<open>The inner loop of \<open>PruneAt\<close> over one list of retired keys: the kept ones, and the ring.\<close>

fun prune_keys :: "gotime \<Rightarrow> keyref list \<Rightarrow> 'j KeyRing \<Rightarrow> keyref list \<times> 'j KeyRing" where
  "prune_keys now [] r = ([], r)"
| "prune_keys now (x # xs) r =
     (case kr_heap r x of
        None \<Rightarrow> prune_keys now xs r
      | Some k \<Rightarrow>
          if within_grace now (kr_grace r) k
          then (let (kept, r') = prune_keys now xs r in (x # kept, r'))
          else prune_keys now xs (zeroize_ref x r))"

text \<open>\<open>ord\<close> is the order in which the range visits the map of retired keys.\<close>

fun prune_loop :: "gotime \<Rightarrow> algorithm list \<Rightarrow> 'j KeyRing \<Rightarrow> 'j KeyRing" where
  "prune_loop now [] r = r"
| "prune_loop now (alg # ord) r =
     (case kr_retired r alg of
        None \<Rightarrow> prune_loop now ord r
      | Some keys \<Rightarrow>
          (let (kept, r') = prune_keys now keys r
           in prune_loop now ord (r'\<lparr>kr_retired := (kr_retired r')(alg \<mapsto> kept)\<rparr>)))"

definition PruneAt :: "gotime \<Rightarrow> algorithm list \<Rightarrow> 'j KeyRing \<Rightarrow> 'j KeyRing" where
  "PruneAt now ord r = prune_loop now ord r"

definition Prune :: "crypto_draw \<Rightarrow> algorithm list \<Rightarrow> 'j KeyRing \<Rightarrow> 'j KeyRing" where
  "Prune dr ord r = PruneAt (draw_now dr) ord r"

text \<open>What the goroutine logs: \<open>alg=kid\<close> for each algorithm with an active key.\<close>

datatype rotation_log = RotationDisabled | RotationFailed gerr | KeysRotated "string list"

definition active_kids :: "'j jwx \<Rightarrow> 'j KeyRing \<Rightarrow> string list" where
  "active_kids lib r =
     List.map_filter (\<lambda>alg. case ActiveKid lib r alg of Inl e \<Rightarrow> None | Inr kid \<Rightarrow> Some (alg @ ''='' @ kid)) allAlgorithms"

text \<open>One tick of the goroutine of \<open>StartRotation\<close>: pruning only follows a rotation that worked.\<close>

definition rotation_tick ::
    "'j jwx \<Rightarrow> crypto_draw \<Rightarrow> gotime \<Rightarrow> algorithm list \<Rightarrow> 'j KeyRing \<Rightarrow> 'j KeyRing \<times> rotation_log" where
  "rotation_tick lib dr now ord r =
     (case RotateAt lib dr now r of
        (r', Some e) \<Rightarrow> (r', RotationFailed e)
      | (r', None) \<Rightarrow> (let r'' = PruneAt now ord r' in (r'', KeysRotated (active_kids lib r''))))"

fun rotation_run ::
    "'j jwx \<Rightarrow> (crypto_draw \<times> gotime \<times> algorithm list) list \<Rightarrow> 'j KeyRing \<Rightarrow> 'j KeyRing \<times> rotation_log list" where
  "rotation_run lib [] r = (r, [])"
| "rotation_run lib ((dr, now, ord) # ts) r =
     (let (r', l) = rotation_tick lib dr now ord r; (r'', ls) = rotation_run lib ts r' in (r'', l # ls))"

text \<open>\<open>StartRotation\<close>: the ticks the ticker delivers until the context ends; none if the
  interval is not positive.\<close>

definition StartRotation ::
    "'j jwx \<Rightarrow> int \<Rightarrow> (crypto_draw \<times> gotime \<times> algorithm list) list \<Rightarrow> 'j KeyRing \<Rightarrow> 'j KeyRing \<times> rotation_log list" where
  "StartRotation lib interval ticks r =
     (if interval \<le> 0 then (r, [RotationDisabled]) else rotation_run lib ticks r)"

section \<open>Reading the ring\<close>

text \<open>The values of a map in the order of a visit.\<close>

definition range_map :: "('k \<rightharpoonup> 'v) \<Rightarrow> 'k list \<Rightarrow> 'v list" where
  "range_map m ord = List.map_filter m ord"

definition active_keys :: "algorithm list \<Rightarrow> 'j KeyRing \<Rightarrow> 'j Key list" where
  "active_keys ao r = List.map_filter (kr_heap r) (range_map (kr_active r) ao)"

definition retired_keys :: "algorithm list \<Rightarrow> 'j KeyRing \<Rightarrow> 'j Key list" where
  "retired_keys ro r = List.map_filter (kr_heap r) (concat (range_map (kr_retired r) ro))"

text \<open>\<open>sort.Slice\<close> by key id. (It is not stable, which only matters between equal ids.)\<close>

definition sortedKeysUnlocked :: "'j jwx \<Rightarrow> algorithm list \<Rightarrow> algorithm list \<Rightarrow> 'j KeyRing \<Rightarrow> 'j Key list" where
  "sortedKeysUnlocked lib ao ro r = sort_key (Kid lib) (active_keys ao r @ retired_keys ro r)"

definition Snapshot :: "'j jwx \<Rightarrow> algorithm list \<Rightarrow> algorithm list \<Rightarrow> 'j KeyRing \<Rightarrow> 'j Key list" where
  "Snapshot lib ao ro r = sortedKeysUnlocked lib ao ro r"

definition not_found :: "string \<Rightarrow> gerr" where
  "not_found kid = wrapf [] ErrKeyNotFound [Lit '': kid '', Quo kid]"

definition Lookup ::
    "'j jwx \<Rightarrow> algorithm list \<Rightarrow> algorithm list \<Rightarrow> 'j KeyRing \<Rightarrow> string \<Rightarrow> gerr + (public_key \<times> keystatus)" where
  "Lookup lib ao ro r kid =
     (case find (\<lambda>k. Kid lib k = kid) (active_keys ao r) of
        Some k \<Rightarrow> Inr (k_Public k, KeyStatusActive)
      | None \<Rightarrow>
          (case find (\<lambda>k. Kid lib k = kid) (retired_keys ro r) of
             Some k \<Rightarrow> Inr (k_Public k, KeyStatusRetired)
           | None \<Rightarrow> Inl (not_found kid)))"

definition PublicKeyByKID ::
    "'j jwx \<Rightarrow> algorithm list \<Rightarrow> algorithm list \<Rightarrow> 'j KeyRing \<Rightarrow> string \<Rightarrow> gerr + public_key" where
  "PublicKeyByKID lib ao ro r kid =
     (case find (\<lambda>k. Kid lib k = kid) (sortedKeysUnlocked lib ao ro r) of
        Some k \<Rightarrow> Inr (k_Public k)
      | None \<Rightarrow> Inl (not_found kid))"

fun add_keys :: "'j jwx \<Rightarrow> 'j Key list \<Rightarrow> 'j list \<Rightarrow> gerr + 'j list" where
  "add_keys lib [] s = Inr s"
| "add_keys lib (k # ks) s =
     (case jwk_AddKey lib s (k_PubJWK k) of Inl e \<Rightarrow> Inl e | Inr s' \<Rightarrow> add_keys lib ks s')"

definition JWKS :: "'j jwx \<Rightarrow> algorithm list \<Rightarrow> algorithm list \<Rightarrow> 'j KeyRing \<Rightarrow> gerr + 'j list" where
  "JWKS lib ao ro r = add_keys lib (sortedKeysUnlocked lib ao ro r) []"

definition JWKByKID ::
    "'j jwx \<Rightarrow> algorithm list \<Rightarrow> algorithm list \<Rightarrow> 'j KeyRing \<Rightarrow> string \<Rightarrow> gerr + 'j" where
  "JWKByKID lib ao ro r kid =
     (case JWKS lib ao ro r of
        Inl e \<Rightarrow> Inl e
      | Inr s \<Rightarrow> (case jwk_LookupKeyID lib s kid of None \<Rightarrow> Inl (not_found kid) | Some k \<Rightarrow> Inr k))"

definition EnabledAlgorithms :: "'j KeyRing \<Rightarrow> algorithm list" where
  "EnabledAlgorithms r = filter (enabled_alg r) allAlgorithms"

section \<open>The invariant\<close>

text \<open>Address \<open>x\<close> holds a key of algorithm \<open>alg\<close>.\<close>

definition holds_key :: "'j KeyRing \<Rightarrow> algorithm \<Rightarrow> keyref \<Rightarrow> bool" where
  "holds_key r alg x = (case kr_heap r x of None \<Rightarrow> False | Some k \<Rightarrow> k_Algorithm k = alg)"

definition retired_refs :: "'j KeyRing \<Rightarrow> algorithm \<Rightarrow> keyref list" where
  "retired_refs r alg = (case kr_retired r alg of None \<Rightarrow> [] | Some xs \<Rightarrow> xs)"

text \<open>
  Every pointer of the maps points to a key of the algorithm it is filed under, no list of
  retired keys repeats a key or holds the active one, and addresses are below the next free one.
\<close>

definition ring_wf :: "'j KeyRing \<Rightarrow> bool" where
  "ring_wf r =
     ((\<forall>x. kr_heap r x \<noteq> None \<longrightarrow> x < kr_next r) \<and>
      dom (kr_active r) \<subseteq> set allAlgorithms \<and> dom (kr_retired r) \<subseteq> set allAlgorithms \<and>
      (\<forall>alg x. kr_active r alg = Some x \<longrightarrow> holds_key r alg x) \<and>
      (\<forall>alg. distinct (retired_refs r alg)) \<and>
      (\<forall>alg. \<forall>x\<in>set (retired_refs r alg). holds_key r alg x \<and> kr_active r alg \<noteq> Some x))"

text \<open>Exactly the enabled algorithms have an active key.\<close>

definition ring_full :: "'j KeyRing \<Rightarrow> bool" where
  "ring_full r = (\<forall>alg\<in>set allAlgorithms. kr_active r alg \<noteq> None \<longleftrightarrow> enabled_alg r alg)"

definition ring_ok :: "'j KeyRing \<Rightarrow> bool" where
  "ring_ok r = (ring_wf r \<and> ring_full r)"

lemma ring_wfD:
  assumes "ring_wf r"
  shows "kr_heap r x = Some k \<Longrightarrow> x < kr_next r"
    and "kr_active r alg = Some x \<Longrightarrow> alg \<in> set allAlgorithms \<and> holds_key r alg x"
    and "distinct (retired_refs r alg)"
    and "x \<in> set (retired_refs r alg) \<Longrightarrow> holds_key r alg x \<and> kr_active r alg \<noteq> Some x"
    and "dom (kr_retired r) \<subseteq> set allAlgorithms"
  using assms by (auto simp: ring_wf_def dom_def)

lemma holds_key_less: "ring_wf r \<Longrightarrow> holds_key r alg x \<Longrightarrow> x < kr_next r"
  by (auto simp: holds_key_def dest: ring_wfD(1) split: option.splits)

lemma holds_key_alg: "holds_key r alg x \<Longrightarrow> holds_key r alg' x \<Longrightarrow> alg = alg'"
  by (auto simp: holds_key_def split: option.splits)

section \<open>What the steps of a rotation do\<close>

text \<open>The retired keys after one step: the old active key is appended.\<close>

definition rotate_step :: "algorithm \<Rightarrow> 'j Key \<Rightarrow> gotime \<Rightarrow> 'j KeyRing \<Rightarrow> 'j KeyRing" where
  "rotate_step alg k now r = install alg k (retire_active alg now r)"

lemma rotate_step_frame [simp]:
  "kr_grace (rotate_step alg k now r) = kr_grace r"
  "kr_enabled (rotate_step alg k now r) = kr_enabled r"
  "kr_next (rotate_step alg k now r) = Suc (kr_next r)"
  "kr_active (rotate_step alg k now r) = (kr_active r)(alg \<mapsto> kr_next r)"
  by (auto simp: rotate_step_def install_def retire_active_def split: option.splits)

lemma enabled_rotate_step [simp]: "enabled_alg (rotate_step alg k now r) a = enabled_alg r a"
  by (simp add: enabled_alg_def)

lemma retired_refs_rotate_step:
  "retired_refs (rotate_step alg k now r) a =
     (if a = alg then retired_refs r alg @ (case kr_active r alg of None \<Rightarrow> [] | Some x \<Rightarrow> [x])
      else retired_refs r a)"
  by (auto simp: rotate_step_def install_def retire_active_def retired_refs_def split: option.splits)

lemma heap_rotate_step:
  assumes "ring_wf r"
  shows "kr_heap (rotate_step alg k now r) x =
     (if x = kr_next r then Some k
      else if kr_active r alg = Some x then map_option (\<lambda>h. h\<lparr>k_RetiredAt := now\<rparr>) (kr_heap r x)
      else kr_heap r x)"
  by (auto simp: rotate_step_def install_def retire_active_def split: option.splits)

lemma holds_rotate_step:
  assumes "ring_wf r" and "k_Algorithm k = alg"
  shows "holds_key r a x \<Longrightarrow> holds_key (rotate_step alg k now r) a x"
    and "holds_key (rotate_step alg k now r) alg (kr_next r)"
  using assms holds_key_less [OF assms(1), of a x]
  by (auto simp: holds_key_def heap_rotate_step split: option.splits)

lemma dom_retired_rotate_step:
  "dom (kr_retired (rotate_step alg k now r)) \<subseteq> insert alg (dom (kr_retired r))"
  by (auto simp: rotate_step_def install_def retire_active_def split: option.splits if_splits)

lemma wf_rotate_step:
  assumes wf: "ring_wf r" and alg: "alg \<in> set allAlgorithms" and k: "k_Algorithm k = alg"
  shows "ring_wf (rotate_step alg k now r)"
proof -
  let ?r = "rotate_step alg k now r"
  have old: "x < kr_next r" if "kr_active r a = Some x" for a x
    using that ring_wfD(2) [OF wf] holds_key_less [OF wf] by blast
  have ret: "x < kr_next r" if "x \<in> set (retired_refs r a)" for a x
    using that ring_wfD(4) [OF wf] holds_key_less [OF wf] by blast
  have "x < kr_next ?r" if "kr_heap ?r x = Some k'" for x k'
    using that ring_wfD(1) [OF wf] by (fastforce simp: heap_rotate_step [OF wf] split: if_splits)
  moreover have "dom (kr_retired ?r) \<subseteq> set allAlgorithms"
    using dom_retired_rotate_step ring_wfD(5) [OF wf] alg by fastforce
  moreover have "holds_key ?r a x" if "kr_active ?r a = Some x" for a x
    using that holds_rotate_step [OF wf k] ring_wfD(2) [OF wf] by (auto split: if_splits)
  moreover have "distinct (retired_refs ?r a)" for a
    using ring_wfD(3) [OF wf] ring_wfD(4) [OF wf] by (auto simp: retired_refs_rotate_step split: option.splits)
  moreover have "holds_key ?r a x \<and> kr_active ?r a \<noteq> Some x" if "x \<in> set (retired_refs ?r a)" for a x
    using that holds_rotate_step(1) [OF wf k] ring_wfD(2) [OF wf] ring_wfD(4) [OF wf] old ret
    by (fastforce simp: retired_refs_rotate_step split: option.splits if_splits)
  ultimately show ?thesis
    using alg ring_wfD(2) [OF wf] by (auto simp: ring_wf_def)
qed

text \<open>Installing a first key is a rotation step without an old key.\<close>

lemma install_rotate_step: "kr_active r alg = None \<Longrightarrow> install alg k r = rotate_step alg k now r"
  by (simp add: rotate_step_def retire_active_def)

lemma generateKey_Algorithm: "generateKey lib dr alg = Inr k \<Longrightarrow> k_Algorithm k = alg \<and> k_RetiredAt k = zero_time"
  by (auto simp: generateKey_def split: sum.splits if_splits)

section \<open>Whole operations: creation and rotation\<close>

lemma new_loop_ok:
  assumes "new_loop lib dr algs r = Inr r'" and "ring_wf r" and "distinct algs"
    and "set algs \<subseteq> set allAlgorithms" and "\<forall>a\<in>set algs. kr_active r a = None"
  shows "ring_wf r' \<and> kr_enabled r' = kr_enabled r \<and> kr_grace r' = kr_grace r \<and> kr_retired r' = kr_retired r \<and>
     (\<forall>a. kr_active r' a \<noteq> None \<longleftrightarrow> kr_active r a \<noteq> None \<or> a \<in> set algs \<and> enabled_alg r a)"
  using assms
proof (induction algs arbitrary: r)
  case Nil
  then show ?case by simp
next
  case (Cons alg algs)
  show ?case
  proof (cases "enabled_alg r alg")
    case False
    with Cons show ?thesis by auto
  next
    case True
    then obtain k where k: "generateKey lib dr alg = Inr k"
      and loop: "new_loop lib dr algs (install alg k r) = Inr r'"
      using Cons.prems(1) by (auto split: sum.splits)
    have "ring_wf (install alg k r)"
      using Cons.prems generateKey_Algorithm [OF k] wf_rotate_step [of r alg k zero_time]
        install_rotate_step [of r alg k zero_time] by simp
    moreover have "\<forall>a\<in>set algs. kr_active (install alg k r) a = None"
      using Cons.prems(3,5) by (auto simp: install_def)
    ultimately show ?thesis
      using Cons.IH [OF loop] Cons.prems(3,4) True
      by (auto simp: install_def enabled_alg_def)
  qed
qed

lemma keyring_New_ok:
  assumes "keyring_New lib dr grace algs = Inr r"
  shows "ring_ok r" and "kr_retired r = Map.empty" and "kr_grace r = grace" and "kr_enabled r = enabled_map algs"
proof -
  let ?r0 = "\<lparr>kr_heap = Map.empty, kr_next = 0, kr_active = Map.empty, kr_retired = Map.empty,
      kr_grace = grace, kr_enabled = enabled_map algs\<rparr> :: 'a KeyRing"
  have loop: "new_loop lib dr allAlgorithms ?r0 = Inr r"
    using assms by (auto simp: keyring_New_def Let_def split: if_splits)
  have "ring_wf ?r0" by (simp add: ring_wf_def retired_refs_def)
  moreover have "distinct allAlgorithms" by (simp add: allAlgorithms_def alg_defs)
  ultimately show "ring_ok r" "kr_retired r = Map.empty" "kr_grace r = grace" "kr_enabled r = enabled_map algs"
    using new_loop_ok [OF loop] by (auto simp: ring_ok_def ring_full_def enabled_alg_def)
qed

lemma rotate_loop_Cons [simp]:
  "rotate_loop lib dr now (alg # algs) r =
     (if \<not> enabled_alg r alg then rotate_loop lib dr now algs r
      else case generateKey lib dr alg of
        Inl e \<Rightarrow> (r, Some e)
      | Inr k \<Rightarrow> rotate_loop lib dr now algs (rotate_step alg k now r))"
  by (auto simp: rotate_step_def split: sum.split)

declare rotate_loop.simps(2) [simp del]

lemma rotate_loop_ok:
  assumes "rotate_loop lib dr now algs r = (r', e)" and "ring_wf r" and "set algs \<subseteq> set allAlgorithms"
  shows "ring_wf r' \<and> kr_enabled r' = kr_enabled r \<and> kr_grace r' = kr_grace r \<and> (ring_full r \<longrightarrow> ring_full r')"
  using assms
proof (induction algs arbitrary: r)
  case Nil
  then show ?case by simp
next
  case (Cons alg algs)
  show ?case
  proof (cases "enabled_alg r alg")
    case False
    with Cons show ?thesis by simp
  next
    case en: True
    show ?thesis
    proof (cases "generateKey lib dr alg")
      case (Inl e')
      with Cons en show ?thesis by simp
    next
      case (Inr k)
      have "ring_full r \<longrightarrow> ring_full (rotate_step alg k now r)"
        using en by (auto simp: ring_full_def)
      moreover have "ring_wf (rotate_step alg k now r)"
        using Cons.prems generateKey_Algorithm [OF Inr] by (intro wf_rotate_step) auto
      ultimately show ?thesis
        using Cons.IH [of "rotate_step alg k now r"] Cons.prems en Inr by simp
    qed
  qed
qed

text \<open>The address of the active key as a list, empty where there is none.\<close>

definition active_ref :: "'j KeyRing \<Rightarrow> algorithm \<Rightarrow> keyref list" where
  "active_ref r alg = (case kr_active r alg of None \<Rightarrow> [] | Some x \<Rightarrow> [x])"

text \<open>What a rotation that worked did to the algorithms it went through, and to the old keys.\<close>

lemma rotate_loop_spec:
  assumes "rotate_loop lib dr now algs r = (r', None)" and "ring_wf r" and "distinct algs"
    and "set algs \<subseteq> set allAlgorithms"
  shows "(\<forall>a. a \<notin> set algs \<or> \<not> enabled_alg r a \<longrightarrow>
            kr_active r' a = kr_active r a \<and> retired_refs r' a = retired_refs r a) \<and>
         (\<forall>a\<in>set algs. enabled_alg r a \<longrightarrow>
            (\<exists>k x. generateKey lib dr a = Inr k \<and> kr_active r' a = Some x \<and> kr_next r \<le> x \<and>
               kr_heap r' x = Some k \<and> retired_refs r' a = retired_refs r a @ active_ref r a)) \<and>
         (\<forall>x<kr_next r. kr_heap r' x =
            (if \<exists>a\<in>set algs. enabled_alg r a \<and> kr_active r a = Some x
             then map_option (\<lambda>k. k\<lparr>k_RetiredAt := now\<rparr>) (kr_heap r x) else kr_heap r x))"
  using assms
proof (induction algs arbitrary: r)
  case Nil
  then show ?case by simp
next
  case (Cons alg algs)
  show ?case
  proof (cases "enabled_alg r alg")
    case False
    then show ?thesis using Cons.IH [of r] Cons.prems by auto
  next
    case en: True
    then obtain k where k: "generateKey lib dr alg = Inr k"
      and loop: "rotate_loop lib dr now algs (rotate_step alg k now r) = (r', None)"
      using Cons.prems(1) by (auto split: sum.splits)
    let ?r1 = "rotate_step alg k now r"
    have wf1: "ring_wf ?r1"
      using Cons.prems generateKey_Algorithm [OF k] by (intro wf_rotate_step) auto
    note IH = Cons.IH [OF loop wf1]
    have low: "x < kr_next r" if "kr_active r a = Some x" for a x
      using that ring_wfD(2) [OF Cons.prems(2)] holds_key_less [OF Cons.prems(2)] by blast
    have inj: "a = b" if "kr_active r a = Some x" "kr_active r b = Some x" for a b x
      using that ring_wfD(2) [OF Cons.prems(2)] holds_key_alg by blast
    have "kr_heap r' (kr_next r) = Some k"
      using IH Cons.prems low by (auto simp: heap_rotate_step [OF Cons.prems(2)] split: if_splits dest: low)
    moreover have "kr_heap r' x =
        (if \<exists>a\<in>set (alg # algs). enabled_alg r a \<and> kr_active r a = Some x
         then map_option (\<lambda>k. k\<lparr>k_RetiredAt := now\<rparr>) (kr_heap r x) else kr_heap r x)" if "x < kr_next r" for x
      using IH Cons.prems that en inj
      by (fastforce simp: heap_rotate_step [OF Cons.prems(2)] split: if_splits)
    ultimately show ?thesis
      using IH Cons.prems k en by (auto simp: retired_refs_rotate_step active_ref_def)
  qed
qed

section \<open>Pruning\<close>

definition keep :: "gotime \<Rightarrow> 'j KeyRing \<Rightarrow> keyref \<Rightarrow> bool" where
  "keep now r x = (case kr_heap r x of None \<Rightarrow> False | Some k \<Rightarrow> within_grace now (kr_grace r) k)"

definition zeroize_key :: "'j Key \<Rightarrow> 'j Key" where
  "zeroize_key k = k\<lparr>k_Private := zeroizePrivate (k_Private k)\<rparr>"

lemma zeroizePrivate_idem [simp]: "zeroizePrivate (zeroizePrivate p) = zeroizePrivate p"
  by (cases p) (auto simp: comp_def)

lemma zeroize_key_simps [simp]:
  "zeroize_key (zeroize_key k) = zeroize_key k" "k_RetiredAt (zeroize_key k) = k_RetiredAt k"
  "k_Algorithm (zeroize_key k) = k_Algorithm k" "k_PubJWK (zeroize_key k) = k_PubJWK k"
  by (simp_all add: zeroize_key_def)

lemma map_zeroize_idem [simp]: "map_option zeroize_key (map_option zeroize_key v) = map_option zeroize_key v"
  by (cases v) auto

lemma zeroize_ref_heap:
  "zeroize_ref x r = r\<lparr>kr_heap := (kr_heap r)(x := map_option zeroize_key (kr_heap r x))\<rparr>"
  by (simp add: zeroize_ref_def zeroize_key_def [abs_def])

lemma ring_update_cong:
  "(\<And>y. h y = h' y) \<Longrightarrow> r\<lparr>kr_heap := h\<rparr> = r\<lparr>kr_heap := h'\<rparr>"
  "(\<And>y. h y = h' y) \<Longrightarrow> (\<And>a. g a = g' a) \<Longrightarrow>
   r\<lparr>kr_heap := h, kr_retired := g\<rparr> = r\<lparr>kr_heap := h', kr_retired := g'\<rparr>"
  by (simp_all add: ext [of h h'] ext [of g g'])

text \<open>Zeroizing private material changes no decision of the loop.\<close>

lemma keep_heap_cong:
  "(\<And>x. map_option k_RetiredAt (h x) = map_option k_RetiredAt (kr_heap r x)) \<Longrightarrow>
   keep now (r\<lparr>kr_heap := h\<rparr>) = keep now r"
proof
  fix x
  assume "\<And>x. map_option k_RetiredAt (h x) = map_option k_RetiredAt (kr_heap r x)"
  from this [of x] show "keep now (r\<lparr>kr_heap := h\<rparr>) x = keep now r x"
    by (auto simp: keep_def within_grace_def map_option_case split: option.splits)
qed

lemma keep_retired_update: "keep now (r\<lparr>kr_heap := h, kr_retired := g\<rparr>) = keep now (r\<lparr>kr_heap := h\<rparr>)"
  by (simp add: keep_def fun_eq_iff split: option.split)

lemma prune_keys_spec:
  "prune_keys now xs r =
     (filter (keep now r) xs,
      r\<lparr>kr_heap := \<lambda>y. if y \<in> set xs \<and> \<not> keep now r y then map_option zeroize_key (kr_heap r y)
                        else kr_heap r y\<rparr>)"
proof (induction xs arbitrary: r)
  case Nil
  then show ?case by simp
next
  case (Cons x xs)
  show ?case
  proof (cases "kr_heap r x")
    case None
    then have "\<not> keep now r x" by (simp add: keep_def)
    with None show ?thesis using Cons [of r] by (auto intro: ring_update_cong)
  next
    case (Some k)
    show ?thesis
    proof (cases "keep now r x")
      case True
      with Some have "within_grace now (kr_grace r) k" by (simp add: keep_def)
      with True Some show ?thesis using Cons [of r] by (auto intro: ring_update_cong)
    next
      case False
      with Some have w: "\<not> within_grace now (kr_grace r) k" by (simp add: keep_def)
      have k: "keep now (zeroize_ref x r) = keep now r"
        unfolding zeroize_ref_heap by (rule keep_heap_cong) (simp add: Some)
      show ?thesis
        using Cons [of "zeroize_ref x r"] Some False w unfolding k
        by (auto simp: zeroize_ref_heap intro!: ring_update_cong)
    qed
  qed
qed

text \<open>
  The whole of \<open>PruneAt\<close>: the lists lose the keys past the grace period, whose private
  material is zeroized, and nothing else changes.
\<close>

definition pruned :: "gotime \<Rightarrow> algorithm list \<Rightarrow> 'j KeyRing \<Rightarrow> 'j KeyRing" where
  "pruned now ord r =
     r\<lparr>kr_heap := (\<lambda>y. if (\<exists>a\<in>set ord. y \<in> set (retired_refs r a)) \<and> \<not> keep now r y
                       then map_option zeroize_key (kr_heap r y) else kr_heap r y),
       kr_retired := (\<lambda>a. if a \<in> set ord then map_option (filter (keep now r)) (kr_retired r a)
                          else kr_retired r a)\<rparr>"

lemma prune_loop_spec: "prune_loop now ord r = pruned now ord r"
proof (induction ord arbitrary: r)
  case Nil
  then show ?case by (simp add: pruned_def)
next
  case (Cons alg ord)
  show ?case
  proof (cases "kr_retired r alg")
    case None
    then have "retired_refs r alg = []" by (simp add: retired_refs_def)
    with None Cons [of r] show ?thesis by (auto simp: pruned_def intro!: ring_update_cong)
  next
    case (Some keys)
    let ?h = "\<lambda>y. if y \<in> set keys \<and> \<not> keep now r y then map_option zeroize_key (kr_heap r y) else kr_heap r y"
    let ?r1 = "r\<lparr>kr_heap := ?h, kr_retired := (kr_retired r)(alg \<mapsto> filter (keep now r) keys)\<rparr>"
    have keys: "retired_refs r alg = keys" using Some by (simp add: retired_refs_def)
    have "keep now ?r1 = keep now (r\<lparr>kr_heap := ?h\<rparr>)" by (rule keep_retired_update)
    also have "\<dots> = keep now r" by (rule keep_heap_cong) (simp add: option.map_comp comp_def)
    finally have k: "keep now ?r1 = keep now r" .
    have refs: "retired_refs ?r1 a = (if a = alg then filter (keep now r) keys else retired_refs r a)" for a
      by (simp add: retired_refs_def)
    have "prune_loop now (alg # ord) r = pruned now ord ?r1"
      using Some Cons [of ?r1] by (simp add: prune_keys_spec)
    also have "\<dots> = pruned now (alg # ord) r"
      unfolding pruned_def k refs using Some keys
      by (auto intro!: ring_update_cong simp: option.map_comp comp_def)
    finally show ?thesis .
  qed
qed

lemma PruneAt_eq: "PruneAt now ord r = pruned now ord r"
  by (simp add: PruneAt_def prune_loop_spec)

lemma retired_refs_pruned:
  "retired_refs (pruned now ord r) a = (if a \<in> set ord then filter (keep now r) (retired_refs r a) else retired_refs r a)"
  by (simp add: retired_refs_def pruned_def split: option.split)

lemma pruned_frame [simp]:
  "kr_grace (pruned now ord r) = kr_grace r" "kr_enabled (pruned now ord r) = kr_enabled r"
  "kr_active (pruned now ord r) = kr_active r" "kr_next (pruned now ord r) = kr_next r"
  "dom (kr_retired (pruned now ord r)) = dom (kr_retired r)"
  "(kr_heap (pruned now ord r) x \<noteq> None) = (kr_heap r x \<noteq> None)"
  by (auto simp: pruned_def split: if_splits)

lemma holds_key_pruned [simp]: "holds_key (pruned now ord r) a x = holds_key r a x"
  by (simp add: holds_key_def pruned_def split: option.split)

lemma ring_ok_pruned:
  assumes "ring_ok r"
  shows "ring_ok (pruned now ord r)"
proof -
  have "ring_wf (pruned now ord r)"
    using assms unfolding ring_ok_def ring_wf_def pruned_frame holds_key_pruned retired_refs_pruned
    by auto
  then show ?thesis using assms by (auto simp: ring_ok_def ring_full_def enabled_alg_def)
qed

end
