(* ===== verification/KeyringLife.thy ===== *)
theory KeyringLife
  imports Keyring
begin

text \<open>
  The life of a key ring: the states it reaches from \<open>New\<close> by rotations and prunings in any
  order, with any outcome of the generators, and what holds in all of them.
\<close>

section \<open>Reachable rings\<close>

inductive ring_step :: "'j jwx \<Rightarrow> 'j KeyRing \<Rightarrow> 'j KeyRing \<Rightarrow> bool" for lib where
  rotate: "RotateAt lib dr now r = (r', e) \<Longrightarrow> ring_step lib r r'"
| prune: "ring_step lib r (PruneAt now ord r)"

inductive ring_reachable :: "'j jwx \<Rightarrow> 'j KeyRing \<Rightarrow> bool" for lib where
  new: "keyring_New lib dr grace algs = Inr r \<Longrightarrow> ring_reachable lib r"
| step: "ring_reachable lib r \<Longrightarrow> ring_step lib r r' \<Longrightarrow> ring_reachable lib r'"

inductive_cases ring_stepE: "ring_step lib r r'"

text \<open>The addresses of the published keys of an algorithm.\<close>

definition ring_refs :: "'j KeyRing \<Rightarrow> algorithm \<Rightarrow> keyref list" where
  "ring_refs r alg = active_ref r alg @ retired_refs r alg"

text \<open>
  Every published key is as a generation of that algorithm made it, except for the time stamp
  of its retirement, which an active key does not have.
\<close>

definition ring_intact :: "'j jwx \<Rightarrow> 'j KeyRing \<Rightarrow> bool" where
  "ring_intact lib r =
     (\<forall>alg. (\<forall>x. kr_active r alg = Some x \<longrightarrow> (\<exists>dr k. generateKey lib dr alg = Inr k \<and> kr_heap r x = Some k)) \<and>
            (\<forall>x\<in>set (retired_refs r alg). \<exists>dr k t. generateKey lib dr alg = Inr k \<and>
               kr_heap r x = Some (k\<lparr>k_RetiredAt := t\<rparr>)))"

lemma active_inj: "ring_wf r \<Longrightarrow> kr_active r a = Some x \<Longrightarrow> kr_active r b = Some x \<Longrightarrow> a = b"
  using ring_wfD(2) [of r a x] ring_wfD(2) [of r b x] holds_key_alg [of r a x b] by simp

lemma retired_inj: "ring_wf r \<Longrightarrow> x \<in> set (retired_refs r a) \<Longrightarrow> x \<in> set (retired_refs r b) \<Longrightarrow> a = b"
  using ring_wfD(4) [of r x a] ring_wfD(4) [of r x b] holds_key_alg [of r a x b] by simp

lemma active_not_retired: "ring_wf r \<Longrightarrow> kr_active r a = Some x \<Longrightarrow> x \<notin> set (retired_refs r b)"
  using ring_wfD(2) [of r a x] ring_wfD(4) [of r x b] holds_key_alg [of r a x b] by auto

lemma ring_refs_less:
  "ring_wf r \<Longrightarrow> kr_active r a = Some x \<Longrightarrow> x < kr_next r"
  "ring_wf r \<Longrightarrow> x \<in> set (retired_refs r a) \<Longrightarrow> x < kr_next r"
  using ring_wfD(2) [of r a x] ring_wfD(4) [of r x a] holds_key_less [of r a x] by simp_all

lemma ring_intactD:
  assumes "ring_intact lib r"
  shows "kr_active r alg = Some x \<Longrightarrow> \<exists>dr k. generateKey lib dr alg = Inr k \<and> kr_heap r x = Some k"
    and "x \<in> set (retired_refs r alg) \<Longrightarrow>
      \<exists>dr k t. generateKey lib dr alg = Inr k \<and> kr_heap r x = Some (k\<lparr>k_RetiredAt := t\<rparr>)"
  using assms unfolding ring_intact_def by blast+

lemma intact_rotate_step:
  assumes wf: "ring_wf r" and int: "ring_intact lib r" and k: "generateKey lib dr alg = Inr k"
  shows "ring_intact lib (rotate_step alg k now r)"
proof -
  let ?r = "rotate_step alg k now r"
  show ?thesis
    unfolding ring_intact_def
  proof (intro allI conjI impI ballI)
    fix a x
    assume x: "kr_active ?r a = Some x"
    show "\<exists>dr k'. generateKey lib dr a = Inr k' \<and> kr_heap ?r x = Some k'"
    proof (cases "a = alg")
      case True
      then show ?thesis using x k by (auto simp: heap_rotate_step [OF wf])
    next
      case False
      then have a: "kr_active r a = Some x" using x by simp
      then have "kr_active r alg \<noteq> Some x" using False active_inj [OF wf] by blast
      then have "kr_heap ?r x = kr_heap r x"
        using ring_refs_less(1) [OF wf a] by (simp add: heap_rotate_step [OF wf])
      then show ?thesis using ring_intactD(1) [OF int a] by simp
    qed
  next
    fix a x
    assume x: "x \<in> set (retired_refs ?r a)"
    show "\<exists>dr k' t. generateKey lib dr a = Inr k' \<and> kr_heap ?r x = Some (k'\<lparr>k_RetiredAt := t\<rparr>)"
    proof (cases "kr_active r alg = Some x")
      case True
      then have "a = alg"
        using x active_not_retired [OF wf True, of a] by (auto simp: retired_refs_rotate_step split: if_splits)
      with True show ?thesis
        using ring_intactD(1) [OF int True] ring_refs_less(1) [OF wf True]
        by (auto simp: heap_rotate_step [OF wf])
    next
      case False
      then have a: "x \<in> set (retired_refs r a)"
        using x by (auto simp: retired_refs_rotate_step split: if_splits option.splits)
      with False show ?thesis
        using ring_intactD(2) [OF int a] ring_refs_less(2) [OF wf a] by (simp add: heap_rotate_step [OF wf])
    qed
  qed
qed

text \<open>What every step of a rotation keeps, the whole rotation keeps, whether it fails or not.\<close>

lemma rotate_loop_keeps:
  assumes "rotate_loop lib dr now algs r = (r', e)" and "ring_wf r" and "set algs \<subseteq> set allAlgorithms" and "P r"
    and step: "\<And>r alg k. ring_wf r \<Longrightarrow> P r \<Longrightarrow> generateKey lib dr alg = Inr k \<Longrightarrow> P (rotate_step alg k now r)"
  shows "P r'"
  using assms(1-4)
proof (induction algs arbitrary: r)
  case (Cons alg algs)
  show ?case
  proof (cases "enabled_alg r alg \<and> (\<exists>k. generateKey lib dr alg = Inr k)")
    case True
    then obtain k where k: "generateKey lib dr alg = Inr k" by blast
    have "ring_wf (rotate_step alg k now r)"
      using Cons.prems generateKey_Algorithm [OF k] by (intro wf_rotate_step) auto
    then show ?thesis using Cons True k step [OF Cons.prems(2,4) k] by auto
  next
    case False
    then show ?thesis using Cons by (auto split: if_splits sum.splits)
  qed
qed simp

lemma heap_pruned:
  "kr_heap (pruned now ord r) y =
     (if (\<exists>a\<in>set ord. y \<in> set (retired_refs r a)) \<and> \<not> keep now r y
      then map_option zeroize_key (kr_heap r y) else kr_heap r y)"
  by (simp add: pruned_def)

lemma heap_pruned_active:
  assumes "ring_wf r" and "kr_active r a = Some x"
  shows "kr_heap (pruned now ord r) x = kr_heap r x"
proof -
  have "x \<notin> set (retired_refs r b)" for b
    using active_not_retired [OF assms] .
  then show ?thesis by (simp add: pruned_def)
qed

lemma heap_pruned_retired:
  assumes "ring_wf r" and x: "x \<in> set (retired_refs (pruned now ord r) a)"
  shows "kr_heap (pruned now ord r) x = kr_heap r x \<and> x \<in> set (retired_refs r a)"
proof -
  have old: "x \<in> set (retired_refs r a)" and k: "a \<in> set ord \<Longrightarrow> keep now r x"
    using x by (auto simp: retired_refs_pruned split: if_splits)
  have "\<not> ((\<exists>b\<in>set ord. x \<in> set (retired_refs r b)) \<and> \<not> keep now r x)"
    using retired_inj [OF assms(1) _ old] k by blast
  then have "kr_heap (pruned now ord r) x = kr_heap r x" unfolding heap_pruned by (rule if_not_P)
  with old show ?thesis by simp
qed

lemma intact_pruned:
  assumes wf: "ring_wf r" and int: "ring_intact lib r"
  shows "ring_intact lib (pruned now ord r)"
  unfolding ring_intact_def
proof (intro allI conjI impI ballI)
  fix a x
  assume "kr_active (pruned now ord r) a = Some x"
  then show "\<exists>dr k. generateKey lib dr a = Inr k \<and> kr_heap (pruned now ord r) x = Some k"
    using int heap_pruned_active [OF wf] by (simp add: ring_intact_def)
next
  fix a x
  assume "x \<in> set (retired_refs (pruned now ord r) a)"
  then show "\<exists>dr k t. generateKey lib dr a = Inr k \<and> kr_heap (pruned now ord r) x = Some (k\<lparr>k_RetiredAt := t\<rparr>)"
    using int heap_pruned_retired [OF wf] by (simp add: ring_intact_def)
qed

lemma intact_new_loop:
  assumes "new_loop lib dr algs r = Inr r'" and "ring_wf r" and "distinct algs"
    and "set algs \<subseteq> set allAlgorithms" and "\<forall>a\<in>set algs. kr_active r a = None" and "ring_intact lib r"
  shows "ring_intact lib r'"
  using assms
proof (induction algs arbitrary: r)
  case (Cons alg algs)
  show ?case
  proof (cases "enabled_alg r alg")
    case True
    then obtain k where k: "generateKey lib dr alg = Inr k"
      and loop: "new_loop lib dr algs (rotate_step alg k zero_time r) = Inr r'"
      using Cons.prems(1,5) install_rotate_step [of r alg _ zero_time] by (auto split: sum.splits)
    have "ring_wf (rotate_step alg k zero_time r)"
      using Cons.prems generateKey_Algorithm [OF k] by (intro wf_rotate_step) auto
    moreover have "ring_intact lib (rotate_step alg k zero_time r)"
      using Cons.prems k by (intro intact_rotate_step)
    moreover have "\<forall>a\<in>set algs. kr_active (rotate_step alg k zero_time r) a = None"
      using Cons.prems(3,5) by auto
    ultimately show ?thesis using Cons.IH [OF loop] Cons.prems(3,4) by simp
  qed (use Cons in auto)
qed simp

lemma distinct_allAlgorithms [simp]: "distinct allAlgorithms"
  by (simp add: allAlgorithms_def alg_defs)

lemma keyring_New_intact:
  assumes "keyring_New lib dr grace algs = Inr r"
  shows "ring_intact lib r"
proof -
  let ?r0 = "\<lparr>kr_heap = Map.empty, kr_next = 0, kr_active = Map.empty, kr_retired = Map.empty,
      kr_grace = grace, kr_enabled = enabled_map algs\<rparr> :: 'a KeyRing"
  have "new_loop lib dr allAlgorithms ?r0 = Inr r"
    using assms by (auto simp: keyring_New_def Let_def split: if_splits)
  moreover have "ring_wf ?r0" by (simp add: ring_wf_def retired_refs_def)
  moreover have "ring_intact lib ?r0" by (simp add: ring_intact_def retired_refs_def)
  ultimately show ?thesis by (auto intro: intact_new_loop)
qed

lemma RotateAt_ok: "RotateAt lib dr now r = (r', e) \<Longrightarrow> ring_ok r \<Longrightarrow> ring_ok r'"
  unfolding RotateAt_def ring_ok_def by (blast dest: rotate_loop_ok)

lemma RotateAt_intact:
  "RotateAt lib dr now r = (r', e) \<Longrightarrow> ring_ok r \<Longrightarrow> ring_intact lib r \<Longrightarrow> ring_intact lib r'"
  unfolding RotateAt_def ring_ok_def
  by (rule rotate_loop_keeps [where P = "ring_intact lib"]) (auto intro: intact_rotate_step)

lemma ring_step_inv:
  assumes "ring_step lib r r'" and "ring_ok r \<and> ring_intact lib r"
  shows "ring_ok r' \<and> ring_intact lib r'"
  using assms(1)
proof (cases rule: ring_step.cases)
  case (rotate dr now e)
  then show ?thesis using assms(2) RotateAt_ok RotateAt_intact by blast
next
  case (prune now ord)
  then show ?thesis using assms(2) ring_ok_pruned intact_pruned by (auto simp: PruneAt_eq ring_ok_def)
qed

lemma reachable_inv: "ring_reachable lib r \<Longrightarrow> ring_ok r \<and> ring_intact lib r"
  by (induction rule: ring_reachable.induct) (simp_all add: keyring_New_ok keyring_New_intact ring_step_inv)

section \<open>Published keys\<close>

text \<open>An order in which a range may visit a map.\<close>

definition covers :: "('k \<rightharpoonup> 'v) \<Rightarrow> 'k list \<Rightarrow> bool" where
  "covers m ord = (distinct ord \<and> set ord = dom m)"

definition is_active :: "'j KeyRing \<Rightarrow> algorithm \<Rightarrow> 'j Key \<Rightarrow> bool" where
  "is_active r alg k = (\<exists>x. kr_active r alg = Some x \<and> kr_heap r x = Some k)"

definition is_retired :: "'j KeyRing \<Rightarrow> algorithm \<Rightarrow> 'j Key \<Rightarrow> bool" where
  "is_retired r alg k = (\<exists>x\<in>set (retired_refs r alg). kr_heap r x = Some k)"

text \<open>No two published keys share a key id, as thumbprints of different keys do not.\<close>

definition kids_distinct :: "'j jwx \<Rightarrow> 'j KeyRing \<Rightarrow> bool" where
  "kids_distinct lib r =
     (\<forall>a b x y k l. x \<in> set (ring_refs r a) \<longrightarrow> y \<in> set (ring_refs r b) \<longrightarrow> kr_heap r x = Some k \<longrightarrow>
        kr_heap r y = Some l \<longrightarrow> Kid lib k = Kid lib l \<longrightarrow> x = y)"

lemma set_map_filter_Some: "set (List.map_filter f xs) = {y. \<exists>x\<in>set xs. f x = Some y}"
  by (induction xs) (auto simp: List.map_filter_simps split: option.split)

lemma set_active_keys: "covers (kr_active r) ao \<Longrightarrow> set (active_keys ao r) = {k. \<exists>a. is_active r a k}"
  by (auto simp: active_keys_def range_map_def set_map_filter_Some is_active_def covers_def dom_def)

lemma retired_refs_Some: "kr_retired r a = Some xs \<Longrightarrow> retired_refs r a = xs"
  by (simp add: retired_refs_def)

lemma in_retired_refs: "x \<in> set (retired_refs r a) \<longleftrightarrow> (\<exists>xs. kr_retired r a = Some xs \<and> x \<in> set xs)"
  by (cases "kr_retired r a") (auto simp: retired_refs_def)

lemma set_retired_keys: "covers (kr_retired r) ro \<Longrightarrow> set (retired_keys ro r) = {k. \<exists>a. is_retired r a k}"
  by (fastforce simp: retired_keys_def range_map_def set_map_filter_Some is_retired_def covers_def dom_def in_retired_refs)

lemma published_ref:
  "is_active r a k \<or> is_retired r a k \<Longrightarrow> \<exists>x\<in>set (ring_refs r a). kr_heap r x = Some k"
  by (auto simp: is_active_def is_retired_def ring_refs_def active_ref_def)

lemma kids_distinct_keys:
  assumes "kids_distinct lib r" and "is_active r a k \<or> is_retired r a k" and "is_active r b l \<or> is_retired r b l"
    and "Kid lib k = Kid lib l"
  shows "k = l"
proof -
  from published_ref [OF assms(2)] obtain x where x: "x \<in> set (ring_refs r a)" "kr_heap r x = Some k" by blast
  from published_ref [OF assms(3)] obtain y where y: "y \<in> set (ring_refs r b)" "kr_heap r y = Some l" by blast
  from assms(1,4) x y have "x = y" unfolding kids_distinct_def by blast
  with x y show ?thesis by simp
qed

lemma find_unique:
  assumes "y \<in> set xs" "P y" "\<And>z. z \<in> set xs \<Longrightarrow> P z \<Longrightarrow> z = y"
  shows "find P xs = Some y"
proof (cases "find P xs")
  case None
  with assms(1,2) show ?thesis by (auto simp: find_None_iff)
next
  case (Some z)
  then have "z \<in> set xs" "P z" by (auto simp: find_Some_iff)
  with assms(3) Some show ?thesis by blast
qed

definition published :: "'j KeyRing \<Rightarrow> 'j Key set" where
  "published r = {k. \<exists>a. is_active r a k \<or> is_retired r a k}"

lemma find_Kid:
  assumes "kids_distinct lib r" and "k \<in> set ks" and "set ks \<subseteq> published r"
  shows "find (\<lambda>l. Kid lib l = Kid lib k) ks = Some k"
proof (rule find_unique [OF assms(2)])
  fix z
  assume "z \<in> set ks" and eq: "Kid lib z = Kid lib k"
  then have "z \<in> published r" "k \<in> published r" using assms(2,3) by auto
  then show "z = k" unfolding published_def using kids_distinct_keys [OF assms(1) _ _ eq] by blast
qed simp

lemma kids_distinctD:
  "kids_distinct lib r \<Longrightarrow> x \<in> set (ring_refs r a) \<Longrightarrow> y \<in> set (ring_refs r b) \<Longrightarrow> kr_heap r x = Some k \<Longrightarrow>
   kr_heap r y = Some l \<Longrightarrow> Kid lib k = Kid lib l \<Longrightarrow> x = y"
  unfolding kids_distinct_def by blast

text \<open>What \<open>Lookup\<close> returns, for any order of the visits.\<close>

lemma Lookup_active:
  assumes "covers (kr_active r) ao" and "kids_distinct lib r" and "is_active r a k"
  shows "Lookup lib ao ro r (Kid lib k) = Inr (k_Public k, KeyStatusActive)"
proof -
  have "find (\<lambda>l. Kid lib l = Kid lib k) (active_keys ao r) = Some k"
    using assms by (intro find_Kid) (auto simp: set_active_keys published_def)
  then show ?thesis by (simp add: Lookup_def)
qed

lemma Lookup_retired:
  assumes "covers (kr_active r) ao" and "covers (kr_retired r) ro" and "kids_distinct lib r" and "ring_wf r"
    and k: "is_retired r a k"
  shows "Lookup lib ao ro r (Kid lib k) = Inr (k_Public k, KeyStatusRetired)"
proof -
  have "Kid lib l \<noteq> Kid lib k" if "is_active r b l" for b l
  proof
    assume eq: "Kid lib l = Kid lib k"
    from that obtain x where x: "kr_active r b = Some x" "kr_heap r x = Some l" by (auto simp: is_active_def)
    from k obtain y where y: "y \<in> set (retired_refs r a)" "kr_heap r y = Some k" by (auto simp: is_retired_def)
    have "x \<in> set (ring_refs r b)" "y \<in> set (ring_refs r a)"
      using x(1) y(1) by (simp_all add: ring_refs_def active_ref_def)
    then have "x = y" using kids_distinctD [OF assms(3)] x(2) y(2) eq by blast
    with active_not_retired [OF assms(4) x(1)] y(1) show False by blast
  qed
  then have "find (\<lambda>l. Kid lib l = Kid lib k) (active_keys ao r) = None"
    using assms(1) by (auto simp: find_None_iff set_active_keys)
  moreover have "find (\<lambda>l. Kid lib l = Kid lib k) (retired_keys ro r) = Some k"
    using assms by (intro find_Kid) (auto simp: set_retired_keys published_def)
  ultimately show ?thesis by (simp add: Lookup_def)
qed

lemma Lookup_none:
  assumes "covers (kr_active r) ao" and "covers (kr_retired r) ro"
    and "\<And>a k. is_active r a k \<or> is_retired r a k \<Longrightarrow> Kid lib k \<noteq> kid"
  shows "Lookup lib ao ro r kid = Inl (not_found kid)"
proof -
  have "find (\<lambda>l. Kid lib l = kid) (active_keys ao r) = None"
    "find (\<lambda>l. Kid lib l = kid) (retired_keys ro r) = None"
    using assms by (auto simp: find_None_iff set_active_keys set_retired_keys)
  then show ?thesis by (simp add: Lookup_def)
qed

lemma KeyStatus_distinct [simp]: "KeyStatusActive \<noteq> KeyStatusRetired" "KeyStatusRetired \<noteq> KeyStatusActive"
  by (simp_all add: KeyStatusActive_def KeyStatusRetired_def)

lemma Lookup_iff:
  assumes "covers (kr_active r) ao" and "covers (kr_retired r) ro" and "kids_distinct lib r" and "ring_wf r"
  shows "Lookup lib ao ro r kid = Inr (p, s) \<longleftrightarrow>
     (\<exists>a k. Kid lib k = kid \<and> k_Public k = p \<and>
        (s = KeyStatusActive \<and> is_active r a k \<or> s = KeyStatusRetired \<and> is_retired r a k))" (is "?L \<longleftrightarrow> ?R")
proof
  assume ?R
  then show ?L using Lookup_active [OF assms(1,3)] Lookup_retired [OF assms] by blast
next
  assume L: ?L
  consider (act) a k where "Kid lib k = kid" "is_active r a k" | (ret) a k where "Kid lib k = kid" "is_retired r a k"
    | (none) "\<forall>a k. is_active r a k \<or> is_retired r a k \<longrightarrow> Kid lib k \<noteq> kid"
    by blast
  then show ?R
  proof cases
    case act
    then show ?thesis using L Lookup_active [OF assms(1,3), of a k ro] by auto
  next
    case ret
    then show ?thesis using L Lookup_retired [OF assms, of a k] by auto
  next
    case none
    then show ?thesis using L Lookup_none [OF assms(1,2), of lib kid] by auto
  qed
qed

end
