(* ===== verification/KeyringProps.thy ===== *)
theory KeyringProps
  imports KeyringLife
begin

text \<open>
  The correctness of the key ring: what creation, rotation and pruning do, what the queries
  answer and how they agree, and how long a key stays published.
\<close>

section \<open>The JWK library\<close>

text \<open>
  What the code relies on: a field that was set is read back and the others stay, a set keeps
  the keys it was given in order, and looking a key up by its id finds the first one that has it.
\<close>

definition jwk_laws :: "'j jwx \<Rightarrow> bool" where
  "jwk_laws lib =
     ((\<forall>k v k'. jwk_Set lib k ''kid'' v = Inr k' \<longrightarrow> jwk_KeyID lib k' = Some v) \<and>
      (\<forall>k f v k'. f \<noteq> ''kid'' \<longrightarrow> jwk_Set lib k f v = Inr k' \<longrightarrow> jwk_KeyID lib k' = jwk_KeyID lib k) \<and>
      (\<forall>s k. k \<notin> set s \<longrightarrow> jwk_AddKey lib s k = Inr (s @ [k])) \<and>
      (\<forall>s kid. jwk_LookupKeyID lib s kid = find (\<lambda>k. jwk_KeyID lib k = Some kid) s))"

lemma jwk_lawsD:
  assumes "jwk_laws lib"
  shows "jwk_Set lib k ''kid'' v = Inr k' \<Longrightarrow> jwk_KeyID lib k' = Some v"
    and "f \<noteq> ''kid'' \<Longrightarrow> jwk_Set lib k f v = Inr k' \<Longrightarrow> jwk_KeyID lib k' = jwk_KeyID lib k"
    and "k \<notin> set s \<Longrightarrow> jwk_AddKey lib s k = Inr (s @ [k])"
    and "jwk_LookupKeyID lib s kid = find (\<lambda>k. jwk_KeyID lib k = Some kid) s"
  using assms unfolding jwk_laws_def by blast+

lemma set_fields_KeyID:
  assumes "jwk_laws lib" and "set_fields lib kid alg k = Inr k'"
  shows "jwk_KeyID lib k' = Some kid"
proof -
  from assms(2) obtain k1 k2 where "jwk_Set lib k ''kid'' kid = Inr k1" "jwk_Set lib k1 ''use'' ''sig'' = Inr k2"
    "jwk_Set lib k2 ''alg'' alg = Inr k'"
    by (auto simp: set_fields_def split: sum.splits)
  from jwk_lawsD(1) [OF assms(1) this(1)] jwk_lawsD(2) [OF assms(1) _ this(2)] jwk_lawsD(2) [OF assms(1) _ this(3)]
  show ?thesis by simp
qed

lemma generateKey_KeyID:
  assumes "jwk_laws lib" and "generateKey lib dr alg = Inr k"
  obtains privJWK pubJWK th where "jwk_Import lib (k_Private k) = Inr privJWK" "jwk_PublicKey lib privJWK = Inr pubJWK"
    "jwk_Thumbprint lib pubJWK = Inr th" "jwk_KeyID lib (k_PubJWK k) = Some (b64_encode th)"
    "jwk_KeyID lib (k_PrivJWK k) = Some (b64_encode th)" "k_Public k = Public (k_Private k)"
  using assms by (auto simp: generateKey_def split: sum.splits if_splits dest!: set_fields_KeyID [OF assms(1)])

section \<open>An instance of the library, for evaluation\<close>

type_synonym demo_jwk = "public_key \<times> (string \<times> string) list"

fun demo_thumbprint :: "public_key \<Rightarrow> byte list" where
  "demo_thumbprint (RSAPub n e) = [1, word_of_int n, word_of_int e]"
| "demo_thumbprint (ECDSAPub c x y) = [2, word_of_int x, word_of_int y]"
| "demo_thumbprint (Ed25519Pub bs) = 3 # bs"

definition demo_jwx :: "demo_jwk jwx" where
  "demo_jwx =
     \<lparr>jwk_Import = (\<lambda>p. Inr (Public p, [])), jwk_PublicKey = Inr, jwk_Thumbprint = (\<lambda>j. Inr (demo_thumbprint (fst j))),
      jwk_Set = (\<lambda>j f v. Inr (fst j, (f, v) # snd j)), jwk_KeyID = (\<lambda>j. map_of (snd j) ''kid''),
      jwk_AddKey = (\<lambda>s k. if k \<in> set s then Inl (errors_New ''key already exists'') else Inr (s @ [k])),
      jwk_LookupKeyID = (\<lambda>s kid. find (\<lambda>j. map_of (snd j) ''kid'' = Some kid) s)\<rparr>"

lemma demo_jwx_laws: "jwk_laws demo_jwx"
  by (auto simp: jwk_laws_def demo_jwx_def)

definition demo_draw :: "int \<Rightarrow> int \<Rightarrow> crypto_draw" where
  "demo_draw n t =
     \<lparr>draw_rsa = Inr \<lparr>rsa_N = n, rsa_E = 65537, rsa_D = n + 1, rsa_Dp = 1, rsa_Dq = 1, rsa_Qinv = 1, rsa_Primes = [3, 5]\<rparr>,
      draw_ecdsa = Inl (errors_New ''no entropy''),
      draw_ed25519 = Inr (replicate 32 7 @ replicate 32 (word_of_int n)), draw_now = time_Unix t\<rparr>"

definition demo_ring :: "demo_jwk KeyRing" where
  "demo_ring = projr (keyring_New demo_jwx (demo_draw 33 1000) 60000000000 [AlgEdDSA, AlgRS256])"

lemmas demo_gen_eval = generateKey_def demo_jwx_def draw_private_def demo_draw_def alg_defs allAlgorithms_def
  set_fields_def Let_def
lemmas demo_ring_eval = keyring_New_def enabled_map_def enabled_alg_def install_def demo_gen_eval

lemma demo_ring_New: "keyring_New demo_jwx (demo_draw 33 1000) 60000000000 [AlgEdDSA, AlgRS256] = Inr demo_ring"
proof -
  have "\<not> isl (keyring_New demo_jwx (demo_draw 33 1000) 60000000000 [AlgEdDSA, AlgRS256])"
    by (simp add: demo_ring_eval)
  then show ?thesis by (simp add: demo_ring_def)
qed

section \<open>Creation\<close>

lemma enabled_map_Some:
  "enabled_map algs alg =
     (if alg \<in> set algs then Some True else if alg \<in> set allAlgorithms then Some False else None)"
proof -
  have "foldl (\<lambda>m a. m(a \<mapsto> v)) m xs alg = (if alg \<in> set xs then Some v else m alg)" for m :: "algorithm \<rightharpoonup> bool" and v xs
    by (induction xs arbitrary: m) auto
  then show ?thesis by (simp add: enabled_map_def)
qed

lemma new_loop_active:
  assumes "new_loop lib dr algs r = Inr r'" and "distinct algs" and "\<forall>a x. kr_active r a = Some x \<longrightarrow> x < kr_next r"
  shows "\<forall>a\<in>set algs. enabled_alg r a \<longrightarrow>
      (\<exists>k x. generateKey lib dr a = Inr k \<and> kr_active r' a = Some x \<and> kr_heap r' x = Some k)"
    and "\<forall>a. a \<notin> set algs \<longrightarrow> kr_active r' a = kr_active r a"
    and "\<forall>x<kr_next r. kr_heap r' x = kr_heap r x"
  using assms
proof (induction algs arbitrary: r)
  case (Cons alg algs)
  {
    case 1
    then show ?case
    proof (cases "enabled_alg r alg")
      case True
      then obtain k where k: "generateKey lib dr alg = Inr k"
        and loop: "new_loop lib dr algs (install alg k r) = Inr r'"
        using 1 by (auto split: sum.splits)
      have low: "\<forall>a x. kr_active (install alg k r) a = Some x \<longrightarrow> x < kr_next (install alg k r)"
        using 1 by (auto simp: install_def less_Suc_eq)
      have "kr_active r' alg = Some (kr_next r)"
        using Cons.IH(2) [OF loop _ low] 1 by (simp add: install_def)
      moreover have "kr_heap r' (kr_next r) = Some k"
        using Cons.IH(3) [OF loop _ low] 1 by (simp add: install_def)
      ultimately show ?thesis
        using Cons.IH(1) [OF loop _ low] 1 k by (auto simp: install_def enabled_alg_def)
    qed (use Cons.IH(1) in auto)
  next
    case 2
    then show ?case
      using Cons.IH(2) by (fastforce simp: install_def less_Suc_eq split: if_splits sum.splits)
  next
    case 3
    then show ?case
      using Cons.IH(3) by (fastforce simp: install_def less_Suc_eq split: if_splits sum.splits)
  }
qed auto

lemma new_loop_error:
  "isl (new_loop lib dr algs r) \<longleftrightarrow> (\<exists>a\<in>set algs. enabled_alg r a \<and> isl (generateKey lib dr a))"
  by (induction algs arbitrary: r) (auto simp: install_def enabled_alg_def isl_def split: sum.splits)

text \<open>
  C13: a ring can be made exactly when at least one supported algorithm is asked for and a key
  can be generated for each supported algorithm that is asked for.
\<close>

theorem New_error_iff:
  "isl (keyring_New lib dr grace algs) \<longleftrightarrow>
     set algs \<inter> set allAlgorithms = {} \<or>
     (\<exists>alg\<in>set algs \<inter> set allAlgorithms. isl (generateKey lib dr alg))"
proof (cases "set algs \<inter> set allAlgorithms = {}")
  case True
  then have "AlgRS256 \<notin> set algs \<and> AlgES256 \<notin> set algs \<and> AlgEdDSA \<notin> set algs" by (auto simp: allAlgorithms_def)
  with True show ?thesis by (simp add: keyring_New_def Let_def enabled_map_Some)
next
  case False
  then have "AlgRS256 \<in> set algs \<or> AlgES256 \<in> set algs \<or> AlgEdDSA \<in> set algs" by (auto simp: allAlgorithms_def)
  then have "isl (keyring_New lib dr grace algs) \<longleftrightarrow>
      (\<exists>a\<in>set allAlgorithms. a \<in> set algs \<and> isl (generateKey lib dr a))"
    by (auto simp: keyring_New_def Let_def enabled_map_Some new_loop_error enabled_alg_def)
  with False show ?thesis by auto
qed

lemma Signer_active:
  assumes "kr_active r alg = Some x" and "kr_heap r x = Some k"
  shows "Signer r alg = (if enabled_alg r alg then Inr k else Inl (wrapf [] ErrUnsupportedAlg [Lit '': '', Lit alg]))"
  using assms by (simp add: Signer_def)

text \<open>
  In a new ring each supported algorithm that was asked for signs with the key generated for
  it; an algorithm that was not asked for is refused as unsupported, and one that was asked for
  but is not supported has no active key.
\<close>

theorem New_Signer:
  assumes "keyring_New lib dr grace algs = Inr r"
  shows "Signer r alg =
     (if alg \<notin> set algs then Inl (wrapf [] ErrUnsupportedAlg [Lit '': '', Lit alg])
      else if alg \<notin> set allAlgorithms then Inl ErrNoActiveKey
      else generateKey lib dr alg)"
proof -
  let ?r0 = "\<lparr>kr_heap = Map.empty, kr_next = 0, kr_active = Map.empty, kr_retired = Map.empty,
      kr_grace = grace, kr_enabled = enabled_map algs\<rparr> :: 'a KeyRing"
  have loop: "new_loop lib dr allAlgorithms ?r0 = Inr r"
    using assms by (auto simp: keyring_New_def Let_def split: if_splits)
  have en: "enabled_alg r alg \<longleftrightarrow> alg \<in> set algs"
    using keyring_New_ok(4) [OF assms] by (simp add: enabled_alg_def enabled_map_Some)
  have "enabled_alg ?r0 alg \<longleftrightarrow> alg \<in> set algs" by (simp add: enabled_alg_def enabled_map_Some)
  then show ?thesis
    using new_loop_active(1,2) [OF loop] en by (auto simp: Signer_def)
qed

theorem New_Signer_witness:
  "Signer demo_ring ''none'' = Inl (wrapf [] ErrUnsupportedAlg [Lit '': '', Lit ''none''])"
  using New_Signer [OF demo_ring_New, of "''none''"] by (simp add: alg_defs)

section \<open>Rotation\<close>

lemma rotate_loop_enabled: "rotate_loop lib dr now algs r = (r', e) \<Longrightarrow> kr_enabled r' = kr_enabled r"
  by (induction algs arbitrary: r) (auto split: if_splits sum.splits)

lemma RotateAt_enabled: "RotateAt lib dr now r = (r', e) \<Longrightarrow> enabled_alg r' = enabled_alg r"
  unfolding RotateAt_def by (drule rotate_loop_enabled) (simp add: enabled_alg_def fun_eq_iff)

text \<open>A rotation that fails did the algorithms before the one it failed at, and those only.\<close>

lemma rotate_loop_failed:
  assumes "rotate_loop lib dr now algs r = (r', Some e)"
  shows "\<exists>pre alg post. algs = pre @ alg # post \<and> enabled_alg r alg \<and> generateKey lib dr alg = Inl e \<and>
     rotate_loop lib dr now pre r = (r', None)"
  using assms
proof (induction algs arbitrary: r)
  case (Cons a algs)
  show ?case
  proof (cases "enabled_alg r a \<and> isl (generateKey lib dr a)")
    case True
    then have "a # algs = [] @ a # algs \<and> enabled_alg r a \<and> generateKey lib dr a = Inl e \<and>
        rotate_loop lib dr now [] r = (r', None)"
      using Cons.prems by (auto simp: isl_def)
    then show ?thesis by blast
  next
    case False
    define r1 where "r1 = (if enabled_alg r a then rotate_step a (projr (generateKey lib dr a)) now r else r)"
    have step: "rotate_loop lib dr now (a # bs) r = rotate_loop lib dr now bs r1" for bs
      using False by (auto simp: r1_def split: sum.splits)
    have "enabled_alg r1 = enabled_alg r" by (auto simp: r1_def)
    then show ?thesis
      using Cons.IH [of r1] Cons.prems step by (metis append_Cons)
  qed
qed simp

lemma RotateAt_Signer_ok:
  assumes "ring_ok r"
  shows "(\<exists>k. Signer r alg = Inr k) \<longleftrightarrow> enabled_alg r alg \<and> alg \<in> set allAlgorithms"
proof (cases "kr_active r alg")
  case None
  then show ?thesis using assms by (auto simp: Signer_def ring_ok_def ring_full_def)
next
  case (Some x)
  then show ?thesis
    using assms ring_wfD(2) [of r alg x]
    by (auto simp: Signer_def ring_ok_def ring_full_def holds_key_def split: option.splits)
qed

lemma retired_rotate_step:
  assumes "ring_wf r" and "is_retired r a k"
  shows "is_retired (rotate_step alg l now r) a k"
proof -
  from assms(2) obtain x where x: "x \<in> set (retired_refs r a)" "kr_heap r x = Some k" by (auto simp: is_retired_def)
  then have "x \<noteq> kr_next r" "kr_active r alg \<noteq> Some x"
    using ring_refs_less(2) [OF assms(1)] active_not_retired [OF assms(1)] by auto
  then have "kr_heap (rotate_step alg l now r) x = Some k" using x by (simp add: heap_rotate_step [OF assms(1)])
  moreover have "x \<in> set (retired_refs (rotate_step alg l now r) a)" using x by (auto simp: retired_refs_rotate_step)
  ultimately show ?thesis by (auto simp: is_retired_def)
qed

lemma active_rotate_step:
  assumes wf: "ring_wf r" and "is_active r a k"
  shows "if a = alg then is_retired (rotate_step alg l now r) a (k\<lparr>k_RetiredAt := now\<rparr>)
         else is_active (rotate_step alg l now r) a k"
proof -
  from assms(2) obtain x where x: "kr_active r a = Some x" "kr_heap r x = Some k" by (auto simp: is_active_def)
  have "x \<noteq> kr_next r" using ring_refs_less(1) [OF wf x(1)] by simp
  moreover have "kr_active r alg = Some x \<longleftrightarrow> a = alg" using active_inj [OF wf x(1)] x(1) by blast
  ultimately have "kr_heap (rotate_step alg l now r) x = Some (if a = alg then k\<lparr>k_RetiredAt := now\<rparr> else k)"
    using x by (simp add: heap_rotate_step [OF wf])
  then show ?thesis using x by (auto simp: is_active_def is_retired_def retired_refs_rotate_step)
qed

lemma RotateAt_published:
  assumes "RotateAt lib dr now r = (r', e)" and "ring_wf r"
  shows "is_retired r a k \<Longrightarrow> is_retired r' a k"
    and "is_active r a k \<Longrightarrow> is_active r' a k \<or> is_retired r' a (k\<lparr>k_RetiredAt := now\<rparr>)"
proof -
  note loop = rotate_loop_keeps [OF assms(1) [unfolded RotateAt_def] assms(2) subset_refl]
  show "is_retired r a k \<Longrightarrow> is_retired r' a k"
    by (rule loop [where P = "\<lambda>r. is_retired r a k"]) (auto intro: retired_rotate_step)
  show "is_active r' a k \<or> is_retired r' a (k\<lparr>k_RetiredAt := now\<rparr>)" if "is_active r a k"
  proof (rule loop [where P = "\<lambda>r. is_active r a k \<or> is_retired r a (k\<lparr>k_RetiredAt := now\<rparr>)"])
    fix r alg l
    assume "ring_wf r" and "is_active r a k \<or> is_retired r a (k\<lparr>k_RetiredAt := now\<rparr>)"
    then show "is_active (rotate_step alg l now r) a k \<or>
        is_retired (rotate_step alg l now r) a (k\<lparr>k_RetiredAt := now\<rparr>)"
      using active_rotate_step retired_rotate_step by metis
  qed (use that in simp)
qed

lemma Signer_Inr: "Signer r alg = Inr k \<longleftrightarrow> enabled_alg r alg \<and> is_active r alg k"
  by (auto simp: Signer_def is_active_def Option.bind_eq_Some_conv split: option.splits)

text \<open>
  Whatever its outcome, a rotation takes no key away: the same algorithms can sign
  afterwards, a retired key stays retired as it was, and a signing key either goes on signing
  or is retired with the time of the rotation.
\<close>

theorem rotation_loses_nothing:
  assumes "ring_reachable lib r" and "RotateAt lib dr now r = (r', e)"
  shows "isl (Signer r' alg) = isl (Signer r alg)
     \<and> (is_retired r alg k \<longrightarrow> is_retired r' alg k)
     \<and> (Signer r alg = Inr k \<longrightarrow> Signer r' alg = Inr k \<or> is_retired r' alg (k\<lparr>k_RetiredAt := now\<rparr>))"
proof -
  have ok: "ring_ok r" using reachable_inv [OF assms(1)] by simp
  then have ok': "ring_ok r'" using RotateAt_ok [OF assms(2)] by simp
  have en: "enabled_alg r' = enabled_alg r" by (rule RotateAt_enabled [OF assms(2)])
  have isl: "isl s \<longleftrightarrow> \<not> (\<exists>k. s = Inr k)" for s :: "gerr + 'a Key" by (cases s) auto
  have wf: "ring_wf r" using ok by (simp add: ring_ok_def)
  show ?thesis
    unfolding isl RotateAt_Signer_ok [OF ok] RotateAt_Signer_ok [OF ok'] en
    using RotateAt_published [OF assms(2) wf] by (auto simp: Signer_Inr en)
qed

lemma rotation_spec:
  assumes ok: "ring_ok r" and "RotateAt lib dr now r = (r', None)" and "Signer r alg = Inr old"
  shows "\<exists>k. generateKey lib dr alg = Inr k \<and> Signer r' alg = Inr k \<and>
     map (kr_heap r') (retired_refs r' alg) = map (kr_heap r) (retired_refs r alg) @ [Some (old\<lparr>k_RetiredAt := now\<rparr>)]"
proof -
  have wf: "ring_wf r" using ok by (simp add: ring_ok_def)
  have en: "enabled_alg r alg" and alg: "alg \<in> set allAlgorithms"
    using RotateAt_Signer_ok [OF ok] assms(3) by auto
  from assms(3) obtain x where x: "kr_active r alg = Some x" "kr_heap r x = Some old"
    by (auto simp: Signer_Inr is_active_def)
  have en': "enabled_alg r' alg" using en RotateAt_enabled [OF assms(2)] by simp
  note spec = rotate_loop_spec [OF assms(2) [unfolded RotateAt_def] wf distinct_allAlgorithms subset_refl]
  then obtain k y where k: "generateKey lib dr alg = Inr k" "kr_active r' alg = Some y" "kr_heap r' y = Some k"
    and refs: "retired_refs r' alg = retired_refs r alg @ [x]"
    using alg en x by (auto simp: active_ref_def)
  have "kr_heap r' x = Some (old\<lparr>k_RetiredAt := now\<rparr>)"
    using spec ring_refs_less(1) [OF wf x(1)] alg en x by auto
  moreover have "kr_heap r' z = kr_heap r z" if "z \<in> set (retired_refs r alg)" for z
    using spec ring_refs_less(2) [OF wf that] active_not_retired [OF wf _ , of _ z] that by auto
  ultimately show ?thesis
    using k refs en' by (auto simp: Signer_Inr is_active_def)
qed

text \<open>
  C11: after a rotation that worked, each enabled algorithm signs with a newly generated key, the
  key it signed with before is the last of its retired ones, stamped with the time of the
  rotation, and the keys retired before it are still there in order.
\<close>

theorem rotation_replaces_keys:
  assumes "ring_reachable lib r" and "RotateAt lib dr now r = (r', None)" and "Signer r alg = Inr old"
  shows "\<exists>k. generateKey lib dr alg = Inr k \<and> Signer r' alg = Inr k \<and>
     map (kr_heap r') (retired_refs r' alg) = map (kr_heap r) (retired_refs r alg) @ [Some (old\<lparr>k_RetiredAt := now\<rparr>)]"
  using reachable_inv [OF assms(1)] assms(2,3) by (blast intro: rotation_spec)

text \<open>
  C12: a rotation that fails stops at the first enabled algorithm, in the order RS256, ES256,
  EdDSA, whose key could not be generated: the enabled ones before it sign with their new keys,
  and it and those after it sign with the keys they had.
\<close>

theorem rotation_partial_failure:
  assumes "ring_reachable lib r" and "RotateAt lib dr now r = (r', Some e)"
  shows "\<exists>pre alg post. allAlgorithms = pre @ alg # post \<and> enabled_alg r alg \<and> generateKey lib dr alg = Inl e
     \<and> (\<forall>a\<in>set pre. enabled_alg r a \<longrightarrow> Signer r' a = generateKey lib dr a)
     \<and> (\<forall>a\<in>set (alg # post). Signer r' a = Signer r a)"
proof -
  have wf: "ring_wf r" using reachable_inv [OF assms(1)] by (simp add: ring_ok_def)
  obtain pre alg post where split: "allAlgorithms = pre @ alg # post" and fail: "enabled_alg r alg" "generateKey lib dr alg = Inl e"
    and loop: "rotate_loop lib dr now pre r = (r', None)"
    using rotate_loop_failed assms(2) unfolding RotateAt_def by blast
  have dist: "distinct pre" "set pre \<inter> set (alg # post) = {}" "set pre \<subseteq> set allAlgorithms"
    using distinct_allAlgorithms unfolding split by auto
  note spec = rotate_loop_spec [OF loop wf dist(1,3)]
  have en: "enabled_alg r' = enabled_alg r" by (rule RotateAt_enabled [OF assms(2)])
  have "Signer r' a = generateKey lib dr a" if "a \<in> set pre" "enabled_alg r a" for a
    using spec that en by (auto simp: Signer_def)
  moreover have "Signer r' a = Signer r a" if a: "a \<in> set (alg # post)" for a
  proof (cases "kr_active r a")
    case None
    then show ?thesis using spec a dist(2) en by (auto simp: Signer_def)
  next
    case (Some x)
    have "a \<notin> set pre" using a dist(2) by blast
    then have act: "kr_active r' a = Some x" using conjunct1 [OF spec] Some by simp
    have "kr_active r b \<noteq> Some x" if "b \<in> set pre" for b
    proof
      assume "kr_active r b = Some x"
      from active_inj [OF wf Some this] have "a = b" .
      with that a dist(2) show False by blast
    qed
    then have "kr_heap r' x = kr_heap r x" using spec ring_refs_less(1) [OF wf Some] by simp
    then show ?thesis using act Some en by (simp add: Signer_def)
  qed
  ultimately show ?thesis using split fail by blast
qed

lemma demo_ring_reachable: "ring_reachable demo_jwx demo_ring"
  by (rule ring_reachable.new [OF demo_ring_New])

definition demo_rotated :: "demo_jwk KeyRing" where
  "demo_rotated = fst (RotateAt demo_jwx (demo_draw 35 1010) (time_Unix 1010) demo_ring)"

definition demo_failing :: crypto_draw where
  "demo_failing = (demo_draw 35 1010)\<lparr>draw_ed25519 := Inl (errors_New ''no entropy'')\<rparr>"

lemma demo_enabled: "enabled_alg demo_ring alg \<longleftrightarrow> alg = AlgRS256 \<or> alg = AlgEdDSA"
  using keyring_New_ok(4) [OF demo_ring_New] by (auto simp: enabled_alg_def enabled_map_Some)

lemma demo_ring_Signer: "\<exists>k. Signer demo_ring AlgRS256 = Inr k"
  using RotateAt_Signer_ok [of demo_ring AlgRS256] reachable_inv [OF demo_ring_reachable] demo_enabled
  by (auto simp: allAlgorithms_def)

lemma demo_RotateAt: "RotateAt demo_jwx (demo_draw 35 1010) (time_Unix 1010) demo_ring = (demo_rotated, None)"
proof -
  have "snd (RotateAt demo_jwx (demo_draw 35 1010) (time_Unix 1010) demo_ring) = None"
    by (simp add: RotateAt_def demo_enabled demo_gen_eval)
  then show ?thesis by (simp add: demo_rotated_def prod_eq_iff)
qed

theorem rotation_loses_nothing_witness:
  "isl (Signer demo_rotated AlgRS256) = isl (Signer demo_ring AlgRS256)"
  using rotation_loses_nothing [OF demo_ring_reachable demo_RotateAt] by simp

theorem rotation_replaces_keys_witness:
  "\<exists>k. generateKey demo_jwx (demo_draw 35 1010) AlgRS256 = Inr k \<and> Signer demo_rotated AlgRS256 = Inr k"
  using rotation_replaces_keys [OF demo_ring_reachable demo_RotateAt] demo_ring_Signer by blast

theorem rotation_partial_failure_witness:
  "\<exists>r' e. RotateAt demo_jwx demo_failing (time_Unix 1010) demo_ring = (r', Some e) \<and>
     (\<exists>alg. enabled_alg demo_ring alg \<and> generateKey demo_jwx demo_failing alg = Inl e)"
proof -
  have "snd (RotateAt demo_jwx demo_failing (time_Unix 1010) demo_ring) \<noteq> None"
    by (simp add: RotateAt_def demo_failing_def demo_enabled demo_gen_eval)
  then obtain r' e where "RotateAt demo_jwx demo_failing (time_Unix 1010) demo_ring = (r', Some e)"
    by (metis option.exhaust surjective_pairing)
  from this rotation_partial_failure [OF demo_ring_reachable this] show ?thesis by blast
qed

section \<open>Pruning\<close>

text \<open>No secret component is left in a zeroized key, unless it is an ECDSA key.\<close>

fun wiped :: "private_key \<Rightarrow> bool" where
  "wiped (RSAPriv k) =
     (rsa_D k = 0 \<and> rsa_Dp k = 0 \<and> rsa_Dq k = 0 \<and> rsa_Qinv k = 0 \<and> (\<forall>p\<in>set (rsa_Primes k). p = 0))"
| "wiped (ECDSAPriv k) = False"
| "wiped (Ed25519Priv bs) = (\<forall>b\<in>set bs. b = 0)"

lemma wiped_zeroize: "(\<nexists>k. p = ECDSAPriv k) \<Longrightarrow> wiped (zeroizePrivate p)"
  by (cases p) auto

text \<open>
  C10: pruning drops exactly the retired keys whose retirement is at least the grace period ago and
  keeps the others in order; the private parts of a dropped RSA or Ed25519 key are all zero
  afterwards, and no key that is still published is changed.
\<close>

theorem prune_exact:
  assumes "ring_reachable lib r" and "covers (kr_retired r) ord"
  shows "retired_refs (PruneAt now ord r) alg =
       filter (\<lambda>x. \<exists>k. kr_heap r x = Some k \<and> time_Sub now (k_RetiredAt k) < kr_grace r) (retired_refs r alg)
     \<and> kr_active (PruneAt now ord r) = kr_active r
     \<and> (\<forall>x\<in>set (ring_refs (PruneAt now ord r) alg). kr_heap (PruneAt now ord r) x = kr_heap r x)
     \<and> (\<forall>x\<in>set (retired_refs r alg) - set (retired_refs (PruneAt now ord r) alg).
          \<exists>k. kr_heap r x = Some k \<and> kr_heap (PruneAt now ord r) x = Some (k\<lparr>k_Private := zeroizePrivate (k_Private k)\<rparr>)
            \<and> (alg \<noteq> AlgES256 \<longrightarrow> wiped (zeroizePrivate (k_Private k))))"
proof -
  have wf: "ring_wf r" and int: "ring_intact lib r"
    using reachable_inv [OF assms(1)] by (simp_all add: ring_ok_def)
  have ord: "alg \<in> set ord \<or> retired_refs r alg = []"
    using assms(2) by (auto simp: covers_def retired_refs_def split: option.split)
  have keep: "keep now r = (\<lambda>x. \<exists>k. kr_heap r x = Some k \<and> time_Sub now (k_RetiredAt k) < kr_grace r)"
    by (auto simp: keep_def within_grace_def fun_eq_iff split: option.split)
  have refs: "retired_refs (pruned now ord r) alg = filter (keep now r) (retired_refs r alg)"
    using ord by (auto simp: retired_refs_pruned)
  have pub: "kr_heap (pruned now ord r) x = kr_heap r x" if "x \<in> set (ring_refs (pruned now ord r) alg)" for x
    using that heap_pruned_active [OF wf] heap_pruned_retired [OF wf]
    by (auto simp: ring_refs_def active_ref_def split: option.splits)
  have gone: "\<exists>k. kr_heap r x = Some k \<and> kr_heap (pruned now ord r) x = Some (k\<lparr>k_Private := zeroizePrivate (k_Private k)\<rparr>)
            \<and> (alg \<noteq> AlgES256 \<longrightarrow> wiped (zeroizePrivate (k_Private k)))"
    if x: "x \<in> set (retired_refs r alg) - set (retired_refs (pruned now ord r) alg)" for x
  proof -
    from x have old: "x \<in> set (retired_refs r alg)" and "\<not> keep now r x" and "alg \<in> set ord"
      using refs ord by auto
    then have heap: "kr_heap (pruned now ord r) x = map_option zeroize_key (kr_heap r x)"
      by (auto simp: heap_pruned)
    from ring_intactD(2) [OF int old] obtain dr k t
      where k: "generateKey lib dr alg = Inr k" "kr_heap r x = Some (k\<lparr>k_RetiredAt := t\<rparr>)" by blast
    have "\<nexists>e. k_Private k = ECDSAPriv e" if "alg \<noteq> AlgES256"
      using k(1) that by (auto simp: generateKey_def draw_private_def map_sum_def split: if_splits sum.splits)
    then show ?thesis using heap k(2) wiped_zeroize by (auto simp: zeroize_key_def)
  qed
  show ?thesis unfolding PruneAt_eq using refs pub gone by (simp add: keep)
qed

lemma demo_ring_maps: "kr_active demo_ring = [AlgRS256 \<mapsto> 0, AlgEdDSA \<mapsto> 1]" "kr_retired demo_ring = Map.empty"
  by (simp_all add: demo_ring_def demo_ring_eval)

lemma demo_rotated_maps:
  "kr_active demo_rotated = [AlgRS256 \<mapsto> 2, AlgEdDSA \<mapsto> 3]"
  "kr_retired demo_rotated = [AlgRS256 \<mapsto> [0], AlgEdDSA \<mapsto> [1]]"
proof -
  have "kr_next demo_ring = 2" by (simp add: demo_ring_def demo_ring_eval)
  then show "kr_active demo_rotated = [AlgRS256 \<mapsto> 2, AlgEdDSA \<mapsto> 3]"
    "kr_retired demo_rotated = [AlgRS256 \<mapsto> [0], AlgEdDSA \<mapsto> [1]]"
    by (simp_all add: demo_rotated_def RotateAt_def demo_enabled demo_gen_eval)
       (simp_all add: rotate_step_def install_def retire_active_def demo_ring_maps alg_defs)
qed

lemma demo_covers: "covers (kr_retired demo_rotated) [AlgRS256, AlgEdDSA]" "covers (kr_active demo_rotated) [AlgEdDSA, AlgRS256]"
  by (auto simp: covers_def demo_rotated_maps alg_defs)

lemma demo_rotated_reachable: "ring_reachable demo_jwx demo_rotated"
  using ring_reachable.step [OF demo_ring_reachable ring_step.rotate [OF demo_RotateAt]] .

theorem prune_exact_witness:
  "kr_active (PruneAt (time_Unix 1070) [AlgRS256, AlgEdDSA] demo_rotated) = kr_active demo_rotated"
  using prune_exact [OF demo_rotated_reachable demo_covers(1)] by simp

section \<open>Queries\<close>

lemma map_filter_refs:
  "\<forall>x\<in>set xs. kr_heap r x \<noteq> None \<Longrightarrow> List.map_filter (kr_heap r) xs = map (the \<circ> kr_heap r) xs"
  by (induction xs) (auto simp: List.map_filter_simps)

lemma range_map_covers:
  assumes "covers m ord"
  shows "range_map m ord = map (the \<circ> m) ord"
proof -
  have "filter (\<lambda>x. m x \<noteq> None) ord = ord" using assms by (auto simp: covers_def filter_id_conv)
  then show ?thesis by (simp add: range_map_def List.map_filter_def)
qed

lemma distinct_concat_map:
  "distinct xs \<Longrightarrow> (\<And>x. distinct (f x)) \<Longrightarrow>
   (\<And>x y. x \<in> set xs \<Longrightarrow> y \<in> set xs \<Longrightarrow> x \<noteq> y \<Longrightarrow> set (f x) \<inter> set (f y) = {}) \<Longrightarrow> distinct (concat (map f xs))"
proof (induction xs)
  case (Cons x xs)
  have "set (f x) \<inter> set (f y) = {}" if "y \<in> set xs" for y
    using Cons.prems(3) [of x y] Cons.prems(1) that by auto
  then show ?case using Cons by auto
qed simp

text \<open>The published addresses in the order of a visit: each one once.\<close>

definition visited :: "algorithm list \<Rightarrow> algorithm list \<Rightarrow> 'j KeyRing \<Rightarrow> keyref list" where
  "visited ao ro r = map (the \<circ> kr_active r) ao @ concat (map (retired_refs r) ro)"

lemma visited_ranges:
  assumes "covers (kr_active r) ao" and "covers (kr_retired r) ro"
  shows "range_map (kr_active r) ao @ concat (range_map (kr_retired r) ro) = visited ao ro r"
proof -
  have "map (the \<circ> kr_retired r) ro = map (retired_refs r) ro"
    using assms(2) by (auto simp: covers_def retired_refs_def)
  then show ?thesis using assms by (simp only: visited_def range_map_covers)
qed

lemma in_active_ref: "x \<in> set (active_ref r a) \<longleftrightarrow> kr_active r a = Some x"
  by (cases "kr_active r a") (auto simp: active_ref_def)

lemma in_visited:
  assumes "covers (kr_active r) ao" and "covers (kr_retired r) ro"
  shows "x \<in> set (visited ao ro r) \<longleftrightarrow> (\<exists>a. x \<in> set (ring_refs r a))"
proof -
  have "x \<in> the ` kr_active r ` set ao \<longleftrightarrow> (\<exists>a. kr_active r a = Some x)"
    using assms(1) by (force simp: covers_def dom_def image_iff)
  moreover have "(\<exists>a\<in>set ro. x \<in> set (retired_refs r a)) \<longleftrightarrow> (\<exists>a. x \<in> set (retired_refs r a))"
    using assms(2) by (fastforce simp: covers_def in_retired_refs)
  ultimately show ?thesis
    by (auto simp: visited_def ring_refs_def in_active_ref image_image)
qed

lemma distinct_visited:
  assumes wf: "ring_wf r" and ao: "covers (kr_active r) ao" and ro: "covers (kr_retired r) ro"
  shows "distinct (visited ao ro r)"
proof -
  have "distinct (map (the \<circ> kr_active r) ao)"
    unfolding distinct_map inj_on_def
  proof (intro conjI ballI impI)
    show "distinct ao" using ao by (simp add: covers_def)
    fix a b
    assume "a \<in> set ao" "b \<in> set ao" and eq: "(the \<circ> kr_active r) a = (the \<circ> kr_active r) b"
    then obtain x where "kr_active r a = Some x" "kr_active r b = Some x"
      using ao by (auto simp: covers_def dom_def)
    then show "a = b" by (rule active_inj [OF wf])
  qed
  moreover have "distinct (concat (map (retired_refs r) ro))"
    using ro ring_wfD(3) [OF wf] retired_inj [OF wf] by (intro distinct_concat_map) (auto simp: covers_def)
  moreover have "x \<notin> set (retired_refs r b)" if "a \<in> set ao" "x = the (kr_active r a)" for a b x
    using that ao active_not_retired [OF wf, of a x b] by (auto simp: covers_def dom_def)
  ultimately show ?thesis by (auto simp: visited_def)
qed

lemma ring_refs_heap:
  assumes "ring_wf r" and "x \<in> set (ring_refs r a)"
  shows "\<exists>k. kr_heap r x = Some k"
proof -
  have "holds_key r a x"
    using assms(2) ring_wfD(2,4) [OF assms(1)] by (auto simp: ring_refs_def in_active_ref)
  then show ?thesis by (auto simp: holds_key_def split: option.splits)
qed

lemma keys_visited:
  assumes "ring_wf r" and "covers (kr_active r) ao" and "covers (kr_retired r) ro"
  shows "active_keys ao r @ retired_keys ro r = map (the \<circ> kr_heap r) (visited ao ro r)"
proof -
  have "active_keys ao r @ retired_keys ro r = List.map_filter (kr_heap r) (visited ao ro r)"
    by (simp only: active_keys_def retired_keys_def visited_ranges [OF assms(2,3), symmetric])
       (simp add: List.map_filter_def)
  also have "\<dots> = map (the \<circ> kr_heap r) (visited ao ro r)"
    using in_visited [OF assms(2,3)] ring_refs_heap [OF assms(1)] by (intro map_filter_refs) blast
  finally show ?thesis .
qed

lemma set_keys_visited:
  assumes "ring_wf r" and "covers (kr_active r) ao" and "covers (kr_retired r) ro"
  shows "set (active_keys ao r @ retired_keys ro r) = published r"
  using set_active_keys [OF assms(2)] set_retired_keys [OF assms(3)] by (auto simp: published_def)

lemma distinct_kids_visited:
  assumes "ring_wf r" and "covers (kr_active r) ao" and "covers (kr_retired r) ro" and "kids_distinct lib r"
  shows "distinct (map (Kid lib) (active_keys ao r @ retired_keys ro r))"
proof -
  have "inj_on (Kid lib \<circ> (the \<circ> kr_heap r)) (set (visited ao ro r))"
  proof (rule inj_onI)
    fix x y
    assume xy: "x \<in> set (visited ao ro r)" "y \<in> set (visited ao ro r)"
      and eq: "(Kid lib \<circ> (the \<circ> kr_heap r)) x = (Kid lib \<circ> (the \<circ> kr_heap r)) y"
    from xy obtain a b where ab: "x \<in> set (ring_refs r a)" "y \<in> set (ring_refs r b)"
      using in_visited [OF assms(2,3)] by blast
    from ring_refs_heap [OF assms(1) ab(1)] ring_refs_heap [OF assms(1) ab(2)]
    obtain k l where "kr_heap r x = Some k" "kr_heap r y = Some l" by blast
    then show "x = y" using kids_distinctD [OF assms(4) ab] eq by simp
  qed
  then show ?thesis
    using distinct_visited [OF assms(1-3)] unfolding keys_visited [OF assms(1-3)] by (simp add: distinct_map)
qed

lemma add_keys_append:
  assumes "jwk_laws lib" and "distinct (s @ map k_PubJWK ks)"
  shows "add_keys lib ks s = Inr (s @ map k_PubJWK ks)"
  using assms(2) by (induction ks arbitrary: s) (simp_all add: jwk_lawsD(3) [OF assms(1)])

lemma published_KeyID:
  assumes "jwk_laws lib" and "ring_intact lib r" and "k \<in> published r"
  shows "jwk_KeyID lib (k_PubJWK k) = Some (Kid lib k)"
proof -
  have gen: "jwk_KeyID lib (k_PubJWK l) = Some (Kid lib l)" if "generateKey lib dr a = Inr l" for dr a l
    using generateKey_KeyID [OF assms(1) that] by (metis Kid_def option.simps(5))
  from assms(3) consider a where "is_active r a k" | a where "is_retired r a k" by (auto simp: published_def)
  then show ?thesis
  proof cases
    case 1
    then show ?thesis using ring_intactD(1) [OF assms(2)] gen by (fastforce simp: is_active_def)
  next
    case 2
    then obtain dr l t where "generateKey lib dr a = Inr l" "k = l\<lparr>k_RetiredAt := t\<rparr>"
      using ring_intactD(2) [OF assms(2)] by (fastforce simp: is_retired_def)
    then show ?thesis using gen by (simp add: Kid_def)
  qed
qed

text \<open>
  \<open>Lookup\<close> finds a key id exactly when a published key has it, answers with that key's public
  key and with the status of the list it is in, and does not depend on the order in which Go
  ranges over the maps.
\<close>

theorem Lookup_exact:
  assumes "ring_reachable lib r" and "kids_distinct lib r" and "covers (kr_active r) ao" and "covers (kr_retired r) ro"
  shows "Lookup lib ao ro r kid = Inr (p, s) \<longleftrightarrow>
     (\<exists>alg k. Kid lib k = kid \<and> k_Public k = p \<and>
        (s = KeyStatusActive \<and> is_active r alg k \<or> s = KeyStatusRetired \<and> is_retired r alg k))"
  using Lookup_iff [OF assms(3,4,2)] reachable_inv [OF assms(1)] by (simp add: ring_ok_def)

text \<open>The id of a key list, in sorted order.\<close>

lemma sorted_keys:
  assumes "ring_wf r" and "covers (kr_active r) ao" and "covers (kr_retired r) ro" and "kids_distinct lib r"
  shows "sorted_wrt (<) (map (Kid lib) (sortedKeysUnlocked lib ao ro r)) \<and>
     set (sortedKeysUnlocked lib ao ro r) = published r"
proof -
  have "distinct (map (Kid lib) (sortedKeysUnlocked lib ao ro r))"
    using distinct_kids_visited [OF assms]
    unfolding sortedKeysUnlocked_def distinct_map by (simp only: distinct_sort set_sort)
  then show ?thesis
    using set_keys_visited [OF assms(1-3)]
    by (simp add: sortedKeysUnlocked_def strict_sorted_iff del: set_append)
qed

lemma JWKS_eq:
  assumes "jwk_laws lib" and "ring_ok r \<and> ring_intact lib r" and "kids_distinct lib r"
    and "covers (kr_active r) ao" and "covers (kr_retired r) ro"
  shows "JWKS lib ao ro r = Inr (map k_PubJWK (sortedKeysUnlocked lib ao ro r))"
proof -
  let ?ks = "sortedKeysUnlocked lib ao ro r"
  have wf: "ring_wf r" using assms(2) by (simp add: ring_ok_def)
  have sk: "sorted_wrt (<) (map (Kid lib) ?ks)" "set ?ks = published r"
    using sorted_keys [OF wf assms(4,5,3)] by simp_all
  have "map (\<lambda>j. the (jwk_KeyID lib j)) (map k_PubJWK ?ks) = map (Kid lib) ?ks"
    using published_KeyID [OF assms(1) conjunct2 [OF assms(2)]] sk(2) by simp
  then have "distinct (map (\<lambda>j. the (jwk_KeyID lib j)) (map k_PubJWK ?ks))"
    using sk(1) strict_sorted_iff by metis
  then have "distinct (map k_PubJWK ?ks)" unfolding distinct_map by blast
  then show ?thesis using add_keys_append [OF assms(1), of "[]" ?ks] by (simp add: JWKS_def)
qed

lemma JWKByKID_find:
  assumes "ring_reachable lib r" and "jwk_laws lib" and "kids_distinct lib r"
    and "covers (kr_active r) ao" and "covers (kr_retired r) ro"
  shows "JWKByKID lib ao ro r kid =
     (case find (\<lambda>k. Kid lib k = kid) (sortedKeysUnlocked lib ao ro r) of
        None \<Rightarrow> Inl (not_found kid) | Some k \<Rightarrow> Inr (k_PubJWK k))"
proof -
  note inv = reachable_inv [OF assms(1)]
  have sk: "set (sortedKeysUnlocked lib ao ro r) = published r"
    using sorted_keys [OF _ assms(4,5,3)] inv by (simp add: ring_ok_def)
  have id: "jwk_KeyID lib (k_PubJWK k) = Some (Kid lib k)" if "k \<in> published r" for k
    using published_KeyID [OF assms(2) conjunct2 [OF inv] that] .
  have "find (\<lambda>j. jwk_KeyID lib j = Some kid) (map k_PubJWK ks) = map_option k_PubJWK (find (\<lambda>k. Kid lib k = kid) ks)"
    if "set ks \<subseteq> published r" for ks using that id by (induction ks) auto
  then show ?thesis
    by (simp add: JWKByKID_def JWKS_eq [OF assms(2) inv assms(3-5)] jwk_lawsD(4) [OF assms(2)] sk split: option.split)
qed

text \<open>The two answers for one key id.\<close>

lemma JWKByKID_cases:
  assumes "ring_reachable lib r" and "jwk_laws lib" and "kids_distinct lib r"
    and "covers (kr_active r) ao" and "covers (kr_retired r) ro"
  shows "k \<in> published r \<Longrightarrow> JWKByKID lib ao ro r (Kid lib k) = Inr (k_PubJWK k)"
    and "\<forall>k\<in>published r. Kid lib k \<noteq> kid \<Longrightarrow> JWKByKID lib ao ro r kid = Inl (not_found kid)"
proof -
  have sk: "set (sortedKeysUnlocked lib ao ro r) = published r"
    using sorted_keys [OF _ assms(4,5,3)] reachable_inv [OF assms(1)] by (simp add: ring_ok_def)
  show "k \<in> published r \<Longrightarrow> JWKByKID lib ao ro r (Kid lib k) = Inr (k_PubJWK k)"
    using find_Kid [OF assms(3), of k "sortedKeysUnlocked lib ao ro r"] by (simp add: JWKByKID_find [OF assms] sk)
  assume "\<forall>k\<in>published r. Kid lib k \<noteq> kid"
  then have "find (\<lambda>l. Kid lib l = kid) (sortedKeysUnlocked lib ao ro r) = None" by (auto simp: find_None_iff sk)
  then show "JWKByKID lib ao ro r kid = Inl (not_found kid)" by (simp add: JWKByKID_find [OF assms])
qed

text \<open>
  C7: the published key set holds each published key once, in increasing order of key ids, and
  the three ways to ask for one key agree with it: for the id of a published key they return
  that key's JWK, its public key, and its public key with its status, and for any other id all
  of them return the not-found error.
\<close>

theorem queries_agree:
  assumes "ring_reachable lib r" and "jwk_laws lib" and "kids_distinct lib r"
    and "covers (kr_active r) ao" and "covers (kr_retired r) ro"
  shows "(\<exists>ks. JWKS lib ao ro r = Inr (map k_PubJWK ks) \<and> set ks = published r \<and> sorted_wrt (<) (map (Kid lib) ks))
     \<and> (\<forall>k\<in>published r. JWKByKID lib ao ro r (Kid lib k) = Inr (k_PubJWK k)
            \<and> PublicKeyByKID lib ao ro r (Kid lib k) = Inr (k_Public k)
            \<and> (\<exists>s. Lookup lib ao ro r (Kid lib k) = Inr (k_Public k, s)))
     \<and> ((\<forall>k\<in>published r. Kid lib k \<noteq> kid) \<longrightarrow>
          JWKByKID lib ao ro r kid = Inl (not_found kid) \<and> PublicKeyByKID lib ao ro r kid = Inl (not_found kid)
            \<and> Lookup lib ao ro r kid = Inl (not_found kid))"
proof -
  let ?ks = "sortedKeysUnlocked lib ao ro r"
  note inv = reachable_inv [OF assms(1)]
  have wf: "ring_wf r" using inv by (simp add: ring_ok_def)
  note jwks = JWKS_eq [OF assms(2) inv assms(3-5)]
  have sk: "sorted_wrt (<) (map (Kid lib) ?ks)" "set ?ks = published r"
    using sorted_keys [OF wf assms(4,5,3)] by simp_all
  have found: "JWKByKID lib ao ro r (Kid lib k) = Inr (k_PubJWK k)
            \<and> PublicKeyByKID lib ao ro r (Kid lib k) = Inr (k_Public k)
            \<and> (\<exists>s. Lookup lib ao ro r (Kid lib k) = Inr (k_Public k, s))" if "k \<in> published r" for k
  proof -
    have "find (\<lambda>l. Kid lib l = Kid lib k) ?ks = Some k" using find_Kid [OF assms(3)] sk(2) that by simp
    then show ?thesis
      using that JWKByKID_cases(1) [OF assms that] Lookup_active [OF assms(4,3)] Lookup_retired [OF assms(4,5,3) wf]
      by (fastforce simp: PublicKeyByKID_def published_def)
  qed
  have none: "JWKByKID lib ao ro r kid = Inl (not_found kid) \<and> PublicKeyByKID lib ao ro r kid = Inl (not_found kid)
            \<and> Lookup lib ao ro r kid = Inl (not_found kid)" if "\<forall>k\<in>published r. Kid lib k \<noteq> kid"
  proof -
    have "find (\<lambda>l. Kid lib l = kid) ?ks = None" using that sk(2) by (auto simp: find_None_iff)
    then show ?thesis
      using that JWKByKID_cases(2) [OF assms that] Lookup_none [OF assms(4,5), of lib kid]
      by (auto simp: PublicKeyByKID_def published_def)
  qed
  show ?thesis using jwks sk found none by blast
qed

section \<open>The life of a retired key\<close>

lemma time_Sub_less:
  assumes "time_ok t" and "time_ok u" and "in_int64 g"
  shows "0 < g \<Longrightarrow> time_ns t - time_ns u < g \<Longrightarrow> time_Sub t u < g"
    and "g \<le> time_ns t - time_ns u \<Longrightarrow> g \<le> time_Sub t u"
  using assms(3) by (auto simp: time_Sub_clamp [OF assms(1,2)] clamp64_def in_int64_def)

lemma is_retired_pruned:
  assumes "ring_wf r" and "is_retired r alg k" and "time_Sub now (k_RetiredAt k) < kr_grace r"
  shows "is_retired (pruned now ord r) alg k"
proof -
  from assms(2) obtain x where x: "x \<in> set (retired_refs r alg)" "kr_heap r x = Some k" by (auto simp: is_retired_def)
  then have "keep now r x" using assms(3) by (simp add: keep_def within_grace_def)
  then show ?thesis using x by (auto simp: is_retired_def retired_refs_pruned heap_pruned intro!: bexI [of _ x])
qed

lemma RotateAt_frame:
  assumes "RotateAt lib dr now r = (r', e)" and "ring_ok r"
  shows "ring_ok r' \<and> kr_grace r' = kr_grace r"
  using RotateAt_ok [OF assms] rotate_loop_ok [OF assms(1) [unfolded RotateAt_def]] assms(2)
  by (simp add: ring_ok_def)

lemma rotation_tick_frame:
  assumes "rotation_tick lib dr now ord r = (r', l)" and "ring_ok r"
  shows "ring_ok r' \<and> kr_grace r' = kr_grace r"
  using assms RotateAt_frame [of lib dr now r] ring_ok_pruned
  by (auto simp: rotation_tick_def PruneAt_eq Let_def split: prod.splits option.splits)

lemma rotation_tick_retired:
  assumes "rotation_tick lib dr now ord r = (r', l)" and "ring_ok r" and "is_retired r alg k"
    and "time_Sub now (k_RetiredAt k) < kr_grace r"
  shows "is_retired r' alg k"
proof -
  obtain r1 e where rot: "RotateAt lib dr now r = (r1, e)" by fastforce
  have wf: "ring_wf r" using assms(2) by (simp add: ring_ok_def)
  have "is_retired r1 alg k" using RotateAt_published(1) [OF rot wf assms(3)] .
  moreover have "ring_wf r1" "kr_grace r1 = kr_grace r" using RotateAt_frame [OF rot assms(2)] by (simp_all add: ring_ok_def)
  ultimately show ?thesis
    using assms(1,4) rot is_retired_pruned [of r1 alg k now ord]
    by (auto simp: rotation_tick_def PruneAt_eq Let_def split: option.splits)
qed

lemma rotation_run_retired:
  assumes "ring_ok r" and "is_retired r alg k" and "\<forall>(dr, now, ord)\<in>set ticks. time_Sub now (k_RetiredAt k) < kr_grace r"
  shows "is_retired (fst (rotation_run lib ticks r)) alg k"
  using assms
proof (induction ticks arbitrary: r)
  case (Cons t ticks)
  obtain dr now ord where t: "t = (dr, now, ord)" by (cases t)
  obtain r1 l where tick: "rotation_tick lib dr now ord r = (r1, l)" by fastforce
  have "is_retired (fst (rotation_run lib ticks r1)) alg k"
    using Cons t rotation_tick_frame [OF tick Cons.prems(1)] rotation_tick_retired [OF tick Cons.prems(1,2)]
    by (intro Cons.IH) auto
  then show ?case by (simp add: t tick split_beta Let_def)
qed simp

lemma rotation_run_frame:
  "ring_ok r \<Longrightarrow> ring_ok (fst (rotation_run lib ticks r)) \<and> kr_grace (fst (rotation_run lib ticks r)) = kr_grace r"
proof (induction ticks arbitrary: r)
  case (Cons t ticks)
  obtain dr now ord where t: "t = (dr, now, ord)" by (cases t)
  obtain r1 l where tick: "rotation_tick lib dr now ord r = (r1, l)" by fastforce
  show ?case using Cons.IH [of r1] rotation_tick_frame [OF tick Cons.prems] by (simp add: t tick split_beta Let_def)
qed simp

text \<open>A key that signs when a tick replaces it, and what later ticks do to it.\<close>

lemma replaced_key_retired:
  assumes "ring_reachable lib r" and "Signer r alg = Inr k" and "rotation_tick lib dr now ord r = (r1, KeysRotated kids)"
    and "0 < kr_grace r" and "in_int64 (kr_grace r)" and "time_ok now"
    and "\<forall>(dr', now', ord')\<in>set ticks. time_ok now' \<and> time_ns now' - time_ns now < kr_grace r"
  shows "is_retired (fst (rotation_run lib ticks r1)) alg (k\<lparr>k_RetiredAt := now\<rparr>)"
proof -
  have ok: "ring_ok r" using reachable_inv [OF assms(1)] by simp
  obtain r0 where rot: "RotateAt lib dr now r = (r0, None)" and r1: "r1 = pruned now ord r0"
    using assms(3) by (auto simp: rotation_tick_def PruneAt_eq Let_def split: prod.splits option.splits)
  have frame: "ring_ok r0" "kr_grace r0 = kr_grace r" using RotateAt_frame [OF rot ok] by simp_all
  have "is_retired r0 alg (k\<lparr>k_RetiredAt := now\<rparr>)"
  proof -
    obtain k' where k': "generateKey lib dr alg = Inr k'"
      "map (kr_heap r0) (retired_refs r0 alg) = map (kr_heap r) (retired_refs r alg) @ [Some (k\<lparr>k_RetiredAt := now\<rparr>)]"
      using rotation_spec [OF ok rot assms(2)] by blast
    have "Some (k\<lparr>k_RetiredAt := now\<rparr>) \<in> set (map (kr_heap r0) (retired_refs r0 alg))"
      unfolding k'(2) by simp
    then show ?thesis by (auto simp: is_retired_def)
  qed
  moreover have "time_Sub now now < kr_grace r"
    using time_Sub_less(1) [OF assms(6,6,5,4)] assms(4) by simp
  ultimately have "is_retired r1 alg (k\<lparr>k_RetiredAt := now\<rparr>)"
    using frame is_retired_pruned [of r0 alg "k\<lparr>k_RetiredAt := now\<rparr>" now ord] by (simp add: r1 ring_ok_def)
  moreover have "ring_ok r1" "kr_grace r1 = kr_grace r" using ring_ok_pruned frame by (simp_all add: r1)
  ultimately show ?thesis
    using assms(4-7) time_Sub_less(1) [OF _ assms(6,5,4)] by (intro rotation_run_retired) auto
qed

text \<open>Any lookup finds such a key as retired.\<close>

lemma replaced_key_lookup:
  assumes "ring_reachable lib r" and "Signer r alg = Inr k" and "rotation_tick lib dr now ord r = (r1, KeysRotated kids)"
    and "0 < kr_grace r" and "in_int64 (kr_grace r)" and "time_ok now"
    and "\<forall>(dr', now', ord')\<in>set ticks. time_ok now' \<and> time_ns now' - time_ns now < kr_grace r"
    and "r2 = fst (rotation_run lib ticks r1)" and "covers (kr_active r2) ao" "covers (kr_retired r2) ro" "kids_distinct lib r2"
  shows "Lookup lib ao ro r2 (Kid lib k) = Inr (k_Public k, KeyStatusRetired)"
proof -
  have "ring_ok r1" using rotation_tick_frame [OF assms(3)] reachable_inv [OF assms(1)] by simp
  then have "ring_wf r2" using rotation_run_frame [of r1 lib ticks] by (simp add: assms(8) ring_ok_def)
  moreover have "is_retired r2 alg (k\<lparr>k_RetiredAt := now\<rparr>)" unfolding assms(8) by (rule replaced_key_retired [OF assms(1-7)])
  ultimately show ?thesis using Lookup_retired [OF assms(9-11)] by (force simp: Kid_def)
qed

text \<open>
  C8: a key that signs when the rotation worker ticks stays published: if the tick replaces it,
  then through any number of later ticks, successful or not, that come less than the grace
  period after that tick it is in the ring as a retired key, and a lookup by its id, in any order
  of the maps, returns its public key with the status retired.
\<close>

theorem retired_key_stays_published:
  assumes "ring_reachable lib r" and "Signer r alg = Inr k" and "rotation_tick lib dr now ord r = (r1, KeysRotated kids)"
    and "0 < kr_grace r" and "in_int64 (kr_grace r)" and "time_ok now"
    and "\<forall>(dr', now', ord')\<in>set ticks. time_ok now' \<and> time_ns now' - time_ns now < kr_grace r"
  shows "let r2 = fst (rotation_run lib ticks r1) in is_retired r2 alg (k\<lparr>k_RetiredAt := now\<rparr>)
     \<and> (\<forall>ao ro. covers (kr_active r2) ao \<longrightarrow> covers (kr_retired r2) ro \<longrightarrow> kids_distinct lib r2 \<longrightarrow>
          Lookup lib ao ro r2 (Kid lib k) = Inr (k_Public k, KeyStatusRetired))"
  using replaced_key_retired [OF assms] replaced_key_lookup [OF assms refl] by (simp add: Let_def)

text \<open>
  C9: a retired key is gone after the first tick of the rotation worker that rotates successfully
  and comes at least the grace period after its retirement: nothing published is that key any
  more, and its RSA or Ed25519 private parts are wiped.
\<close>

theorem expired_key_is_gone:
  assumes "ring_reachable lib r" and "x \<in> set (retired_refs r alg)" and "kr_heap r x = Some k"
    and "RotateAt lib dr now r = (r0, None)" and "covers (kr_retired r0) ord"
    and "in_int64 (kr_grace r)" and "time_ok now" and "time_ok (k_RetiredAt k)"
    and "kr_grace r \<le> time_ns now - time_ns (k_RetiredAt k)"
  shows "(\<forall>a. x \<notin> set (ring_refs (fst (rotation_tick lib dr now ord r)) a))
     \<and> kr_heap (fst (rotation_tick lib dr now ord r)) x = Some (k\<lparr>k_Private := zeroizePrivate (k_Private k)\<rparr>)"
proof -
  have ok: "ring_ok r" using reachable_inv [OF assms(1)] by simp
  then have wf: "ring_wf r" by (simp add: ring_ok_def)
  have frame: "ring_ok r0" "kr_grace r0 = kr_grace r" using RotateAt_frame [OF assms(4) ok] by simp_all
  then have wf0: "ring_wf r0" by (simp add: ring_ok_def)
  note spec = rotate_loop_spec [OF assms(4) [unfolded RotateAt_def] wf distinct_allAlgorithms subset_refl]
  have "kr_heap r0 x = Some k"
    using conjunct2 [OF conjunct2 [OF spec]] ring_refs_less(2) [OF wf assms(2)] active_not_retired [OF wf _ , of _ x alg] assms(2,3)
    by auto
  then have drop: "\<not> keep now r0 x"
    using time_Sub_less(2) [OF assms(7,8,6,9)] frame(2) by (simp add: keep_def within_grace_def)
  have old: "x \<in> set (retired_refs r0 alg)"
  proof (cases "enabled_alg r alg \<and> alg \<in> set allAlgorithms")
    case True
    then show ?thesis using conjunct1 [OF conjunct2 [OF spec]] assms(2) by fastforce
  next
    case False
    then have "retired_refs r0 alg = retired_refs r alg" using conjunct1 [OF spec] by blast
    then show ?thesis using assms(2) by simp
  qed
  then have ord: "alg \<in> set ord" using assms(5) by (auto simp: covers_def in_retired_refs)
  have tick: "fst (rotation_tick lib dr now ord r) = pruned now ord r0"
    using assms(4) by (simp add: rotation_tick_def PruneAt_eq Let_def)
  have "x \<notin> set (retired_refs (pruned now ord r0) a)" for a
  proof
    assume a: "x \<in> set (retired_refs (pruned now ord r0) a)"
    then have "x \<in> set (retired_refs r0 a)" using heap_pruned_retired [OF wf0] by blast
    from retired_inj [OF wf0 this old] have "a = alg" .
    with a ord drop show False by (simp add: retired_refs_pruned)
  qed
  moreover have "kr_active (pruned now ord r0) a \<noteq> Some x" for a
    using active_not_retired [OF wf0, of a x alg] old by auto
  moreover have "kr_heap (pruned now ord r0) x = Some (zeroize_key k)"
    using ord old drop \<open>kr_heap r0 x = Some k\<close> by (auto simp: heap_pruned)
  ultimately show ?thesis by (simp add: tick ring_refs_def in_active_ref zeroize_key_def)
qed

text \<open>
  The key id of every key that can sign is the unpadded base64url form of the thumbprint the
  library computes for its public JWK; the private and the public JWK both carry it, and the
  cached public key is that of the private key.
\<close>

theorem kid_is_thumbprint:
  assumes "ring_reachable lib r" and "jwk_laws lib" and "Signer r alg = Inr k"
  shows "\<exists>privJWK pubJWK th. jwk_Import lib (k_Private k) = Inr privJWK \<and> jwk_PublicKey lib privJWK = Inr pubJWK
     \<and> jwk_Thumbprint lib pubJWK = Inr th \<and> ActiveKid lib r alg = Inr (b64_encode th)
     \<and> jwk_KeyID lib (k_PubJWK k) = Some (b64_encode th) \<and> jwk_KeyID lib (k_PrivJWK k) = Some (b64_encode th)
     \<and> k_Public k = Public (k_Private k) \<and> k_Algorithm k = alg"
proof -
  have "is_active r alg k" using assms(3) by (simp add: Signer_Inr)
  then obtain x where x: "kr_active r alg = Some x" "kr_heap r x = Some k" unfolding is_active_def by blast
  from ring_intactD(1) [OF conjunct2 [OF reachable_inv [OF assms(1)]] x(1)] x(2)
  obtain dr where gen: "generateKey lib dr alg = Inr k" by auto
  from generateKey_KeyID [OF assms(2) gen] obtain privJWK pubJWK th where
    "jwk_Import lib (k_Private k) = Inr privJWK" "jwk_PublicKey lib privJWK = Inr pubJWK"
    "jwk_Thumbprint lib pubJWK = Inr th" "jwk_KeyID lib (k_PubJWK k) = Some (b64_encode th)"
    "jwk_KeyID lib (k_PrivJWK k) = Some (b64_encode th)" "k_Public k = Public (k_Private k)" .
  then show ?thesis using generateKey_Algorithm [OF gen] assms(3) by (simp add: ActiveKid_def Kid_def)
qed

section \<open>Evaluations\<close>

theorem kid_is_thumbprint_witness:
  "ActiveKid demo_jwx demo_ring AlgRS256 = Inr (b64_encode [1, 33, 1])"
proof -
  have "Signer demo_ring AlgRS256 = generateKey demo_jwx (demo_draw 33 1000) AlgRS256"
    by (simp add: demo_ring_def Signer_def demo_ring_eval)
  then obtain k where k: "Signer demo_ring AlgRS256 = Inr k" "k_Private k = RSAPriv (projr (draw_rsa (demo_draw 33 1000)))"
    by (simp add: demo_gen_eval)
  from kid_is_thumbprint [OF demo_ring_reachable demo_jwx_laws k(1)] show ?thesis
    by (auto simp: k(2) demo_jwx_def demo_draw_def)
qed

lemma demo_ring_refs:
  "x \<in> set (ring_refs demo_rotated a) \<longleftrightarrow> a = AlgRS256 \<and> x \<in> {0, 2} \<or> a = AlgEdDSA \<and> x \<in> {1, 3}"
  by (auto simp: ring_refs_def in_active_ref in_retired_refs demo_rotated_maps alg_defs split: if_splits)

lemma demo_rotated_kids:
  "map_option (Kid demo_jwx) (kr_heap demo_rotated 0) = Some (b64_encode [1, 33, 1])"
  "map_option (Kid demo_jwx) (kr_heap demo_rotated 1) = Some (b64_encode (3 # replicate 32 33))"
  "map_option (Kid demo_jwx) (kr_heap demo_rotated 2) = Some (b64_encode [1, 35, 1])"
  "map_option (Kid demo_jwx) (kr_heap demo_rotated 3) = Some (b64_encode (3 # replicate 32 35))"
  by (simp_all add: demo_rotated_def RotateAt_def demo_enabled demo_gen_eval)
     (simp_all add: rotate_step_def install_def retire_active_def demo_ring_def demo_ring_eval Kid_def)

lemma demo_kids_distinct: "kids_distinct demo_jwx demo_rotated"
proof -
  have eq: "b64_encode bs = b64_encode cs \<longleftrightarrow> bs = cs" for bs cs using b64_encode_inj by blast
  have "x = y" if "x \<in> {0, 1, 2, 3}" "y \<in> {0, 1, 2, 3}"
    and "map_option (Kid demo_jwx) (kr_heap demo_rotated x) = map_option (Kid demo_jwx) (kr_heap demo_rotated y)" for x y
    using that demo_rotated_kids by (auto simp: eq simp del: b64_encode.simps)
  moreover have "x \<in> {0, 1, 2, 3}" if "x \<in> set (ring_refs demo_rotated a)" for x a
    using that by (auto simp: demo_ring_refs)
  ultimately show ?thesis unfolding kids_distinct_def by (metis option.simps(9))
qed

theorem Lookup_exact_witness:
  "\<exists>p. Lookup demo_jwx [AlgEdDSA, AlgRS256] [AlgRS256, AlgEdDSA] demo_rotated (b64_encode [1, 33, 1]) =
     Inr (p, KeyStatusRetired)"
proof -
  obtain k where "kr_heap demo_rotated 0 = Some k" "Kid demo_jwx k = b64_encode [1, 33, 1]"
    using demo_rotated_kids(1) by auto
  then have "is_retired demo_rotated AlgRS256 k"
    by (auto simp: is_retired_def in_retired_refs demo_rotated_maps alg_defs)
  then show ?thesis
    using Lookup_exact [OF demo_rotated_reachable demo_kids_distinct demo_covers(2,1)]
      \<open>Kid demo_jwx k = b64_encode [1, 33, 1]\<close> by blast
qed

theorem queries_agree_witness:
  "\<exists>ks. JWKS demo_jwx [AlgEdDSA, AlgRS256] [AlgRS256, AlgEdDSA] demo_rotated = Inr (map k_PubJWK ks) \<and>
     set ks = published demo_rotated"
  using queries_agree [OF demo_rotated_reachable demo_jwx_laws demo_kids_distinct demo_covers(2,1)] by blast

lemma demo_times: "time_ok (time_Unix t)" "in_int64 60000000000"
  by (simp_all add: time_ok_Unix in_int64_def)

lemma demo_ns:
  "time_ns (time_Unix 1069) - time_ns (time_Unix 1010) = 59000000000"
  "time_ns (time_Unix 1070) - time_ns (time_Unix 1010) = 60000000000"
  by code_simp+

lemma demo_grace: "kr_grace demo_ring = 60000000000" "kr_grace demo_rotated = 60000000000"
  using keyring_New_ok(3) [OF demo_ring_New] RotateAt_frame [OF demo_RotateAt] reachable_inv [OF demo_ring_reachable]
  by simp_all

lemma demo_tick:
  "rotation_tick demo_jwx (demo_draw 35 1010) (time_Unix 1010) [AlgRS256, AlgEdDSA] demo_ring =
     (PruneAt (time_Unix 1010) [AlgRS256, AlgEdDSA] demo_rotated,
      KeysRotated (active_kids demo_jwx (PruneAt (time_Unix 1010) [AlgRS256, AlgEdDSA] demo_rotated)))"
  by (simp add: rotation_tick_def demo_RotateAt Let_def)

theorem retired_key_stays_published_witness:
  "\<exists>k. is_retired (fst (rotation_run demo_jwx [(demo_failing, time_Unix 1069, [])]
     (PruneAt (time_Unix 1010) [AlgRS256, AlgEdDSA] demo_rotated))) AlgRS256 k"
proof -
  obtain k where "Signer demo_ring AlgRS256 = Inr k" using demo_ring_Signer by blast
  from retired_key_stays_published [OF demo_ring_reachable this demo_tick, of "[(demo_failing, time_Unix 1069, [])]"]
  show ?thesis by (auto simp: Let_def demo_grace demo_times demo_ns simp del: rotation_run.simps)
qed

theorem expired_key_is_gone_witness:
  "0 \<notin> set (ring_refs (fst (rotation_tick demo_jwx (demo_draw 37 1070) (time_Unix 1070) [AlgRS256, AlgEdDSA] demo_rotated)) AlgRS256)"
proof -
  have en: "enabled_alg demo_rotated = enabled_alg demo_ring" by (rule RotateAt_enabled [OF demo_RotateAt])
  have "snd (RotateAt demo_jwx (demo_draw 37 1070) (time_Unix 1070) demo_rotated) = None"
    by (simp add: RotateAt_def en demo_enabled demo_gen_eval)
  then obtain r0 where r0: "RotateAt demo_jwx (demo_draw 37 1070) (time_Unix 1070) demo_rotated = (r0, None)"
    by (metis prod.collapse)
  have "dom (kr_retired r0) = {AlgRS256, AlgEdDSA}"
    using arg_cong [OF r0, of fst]
    by (simp add: RotateAt_def en demo_enabled demo_gen_eval)
       (auto simp: rotate_step_def install_def retire_active_def demo_rotated_maps alg_defs split: if_splits)
  then have cov: "covers (kr_retired r0) [AlgRS256, AlgEdDSA]" by (auto simp: covers_def alg_defs)
  obtain k where k: "kr_heap demo_rotated 0 = Some k" "k_RetiredAt k = time_Unix 1010"
    by (simp add: demo_rotated_def RotateAt_def demo_enabled demo_gen_eval)
       (simp add: rotate_step_def install_def retire_active_def demo_ring_def demo_ring_eval)
  have "0 \<in> set (retired_refs demo_rotated AlgRS256)"
    by (simp add: in_retired_refs demo_rotated_maps alg_defs)
  from expired_key_is_gone [OF demo_rotated_reachable this k(1) r0 cov]
  show ?thesis by (simp add: k(2) demo_grace demo_times demo_ns)
qed

text \<open>
  C6: in every state a ring reaches from its creation by rotations and prunings, whatever the
  generators return: every pointer leads to a key of its algorithm, no key is published twice,
  exactly the enabled algorithms have a signing key, and every published key is as it was
  generated, apart from the time of its retirement: none has been wiped.
\<close>

theorem ring_invariant: "ring_reachable lib r \<Longrightarrow> ring_ok r \<and> ring_intact lib r"
  by (rule reachable_inv)

theorem ring_invariant_witness: "ring_ok demo_rotated \<and> ring_intact demo_jwx demo_rotated"
  by (rule ring_invariant [OF demo_rotated_reachable])

end
