(* ===== verification/RingInterface.thy ===== *)
theory RingInterface
  imports KeyringProps
begin

text \<open>
  The interface \<open>keyring.Ring\<close> as its readers use it: the factory asks for a signing key, the
  verifier looks keys up, both read the enabled algorithms. The laws are what the readers rely
  on; the key ring provides them in every state it reaches.
\<close>

locale ring_reads =
  fixes inv :: "'r \<Rightarrow> bool"
    and signer :: "'r \<Rightarrow> algorithm \<Rightarrow> gerr + 'j Key"
    and lookup :: "'r \<Rightarrow> string \<Rightarrow> gerr + (public_key \<times> keystatus)"
    and enabled :: "'r \<Rightarrow> algorithm list"
    and kid :: "'j Key \<Rightarrow> string"
  assumes enabled_supported: "set (enabled r) \<subseteq> set allAlgorithms"
    and signer_alg: "inv r \<Longrightarrow> signer r alg = Inr k \<Longrightarrow> k_Algorithm k = alg"
    and signer_enabled: "inv r \<Longrightarrow> alg \<in> set (enabled r) \<Longrightarrow> \<exists>k. signer r alg = Inr k"
    and signer_refused: "inv r \<Longrightarrow> alg \<in> set allAlgorithms \<Longrightarrow> alg \<notin> set (enabled r) \<Longrightarrow>
      \<exists>e. signer r alg = Inl e \<and> errors_Is e Keyring.ErrUnsupportedAlg"
    and lookup_error: "inv r \<Longrightarrow> lookup r i = Inl e \<Longrightarrow> errors_Is e ErrKeyNotFound"
    and lookup_status: "inv r \<Longrightarrow> lookup r i = Inr (p, s) \<Longrightarrow> s = KeyStatusActive \<or> s = KeyStatusRetired"
    and lookup_signer: "inv r \<Longrightarrow> signer r alg = Inr k \<Longrightarrow> lookup r (kid k) = Inr (k_Public k, KeyStatusActive)"
begin

lemma signer_iff: "inv r \<Longrightarrow> alg \<in> set allAlgorithms \<Longrightarrow> (\<exists>k. signer r alg = Inr k) \<longleftrightarrow> alg \<in> set (enabled r)"
  using signer_enabled signer_refused by force

lemma signing_key_is_active:
  "inv r \<Longrightarrow> alg \<in> set (enabled r) \<Longrightarrow>
   \<exists>k. signer r alg = Inr k \<and> k_Algorithm k = alg \<and> lookup r (kid k) = Inr (k_Public k, KeyStatusActive)"
  using signer_enabled signer_alg lookup_signer by blast

end

text \<open>
  A ring together with the orders in which the runtime visits its two maps. The views the
  readers get are those of a reachable ring whose published keys have different ids.
\<close>

type_synonym 'j view = "'j KeyRing \<times> algorithm list \<times> algorithm list"

definition view_ok :: "'j jwx \<Rightarrow> 'j view \<Rightarrow> bool" where
  "view_ok lib v = (case v of (r, ao, ro) \<Rightarrow>
     ring_reachable lib r \<and> kids_distinct lib r \<and> covers (kr_active r) ao \<and> covers (kr_retired r) ro)"

definition view_Signer :: "'j view \<Rightarrow> algorithm \<Rightarrow> gerr + 'j Key" where
  "view_Signer v alg = Signer (fst v) alg"

definition view_Lookup :: "'j jwx \<Rightarrow> 'j view \<Rightarrow> string \<Rightarrow> gerr + (public_key \<times> keystatus)" where
  "view_Lookup lib v kid = (case v of (r, ao, ro) \<Rightarrow> Lookup lib ao ro r kid)"

definition view_EnabledAlgorithms :: "'j view \<Rightarrow> algorithm list" where
  "view_EnabledAlgorithms v = EnabledAlgorithms (fst v)"

lemma Lookup_Inl: "Lookup lib ao ro r kid = Inl e \<Longrightarrow> e = not_found kid"
  by (auto simp: Lookup_def split: option.splits)

lemma Lookup_Inr_status: "Lookup lib ao ro r kid = Inr (p, s) \<Longrightarrow> s = KeyStatusActive \<or> s = KeyStatusRetired"
  by (auto simp: Lookup_def split: option.splits)

lemma not_found_Is: "errors_Is (not_found kid) ErrKeyNotFound"
  by (simp add: not_found_def ErrKeyNotFound_def)

lemma view_ok_ring: "view_ok lib v \<Longrightarrow> ring_ok (fst v)"
  using reachable_inv by (auto simp: view_ok_def split: prod.splits)

interpretation kr: ring_reads "view_ok lib" view_Signer "view_Lookup lib" view_EnabledAlgorithms "Kid lib" for lib
proof
  fix v :: "'a view" and alg k i e p s
  show "set (view_EnabledAlgorithms v) \<subseteq> set allAlgorithms"
    by (auto simp: view_EnabledAlgorithms_def EnabledAlgorithms_def)
  assume ok: "view_ok lib v"
  have mem: "alg \<in> set (view_EnabledAlgorithms v) \<longleftrightarrow> enabled_alg (fst v) alg \<and> alg \<in> set allAlgorithms" for alg
    by (auto simp: view_EnabledAlgorithms_def EnabledAlgorithms_def)
  show "k_Algorithm k = alg" if "view_Signer v alg = Inr k"
    using that ok reachable_inv ring_intactD(1) generateKey_Algorithm
    by (fastforce simp: view_Signer_def Signer_Inr is_active_def view_ok_def split: prod.splits)
  show "\<exists>k. view_Signer v alg = Inr k" if "alg \<in> set (view_EnabledAlgorithms v)"
    using that RotateAt_Signer_ok [OF view_ok_ring [OF ok]] by (simp add: view_Signer_def mem)
  show "\<exists>e. view_Signer v alg = Inl e \<and> errors_Is e Keyring.ErrUnsupportedAlg"
    if "alg \<in> set allAlgorithms" "alg \<notin> set (view_EnabledAlgorithms v)"
    using that by (simp add: mem view_Signer_def Signer_def ErrUnsupportedAlg_def)
  show "errors_Is e ErrKeyNotFound" if "view_Lookup lib v i = Inl e"
    using that by (auto simp: view_Lookup_def not_found_Is dest: Lookup_Inl split: prod.splits)
  show "s = KeyStatusActive \<or> s = KeyStatusRetired" if "view_Lookup lib v i = Inr (p, s)"
    using that by (auto simp: view_Lookup_def dest: Lookup_Inr_status split: prod.splits)
  show "view_Lookup lib v (Kid lib k) = Inr (k_Public k, KeyStatusActive)" if "view_Signer v alg = Inr k"
    using that ok by (auto simp: view_Lookup_def view_Signer_def view_ok_def Signer_Inr intro: Lookup_active split: prod.splits)
qed

definition demo_view :: "demo_jwk view" where
  "demo_view = (demo_rotated, [AlgEdDSA, AlgRS256], [AlgRS256, AlgEdDSA])"

lemma demo_view_ok: "view_ok demo_jwx demo_view"
  using demo_rotated_reachable demo_kids_distinct demo_covers by (simp add: view_ok_def demo_view_def)

lemma demo_view_algs: "set (view_EnabledAlgorithms demo_view) = {AlgRS256, AlgEdDSA}"
  using RotateAt_enabled [OF demo_RotateAt]
  by (auto simp: view_EnabledAlgorithms_def demo_view_def EnabledAlgorithms_def demo_enabled allAlgorithms_def alg_defs)

end
