(* ===== verification/TokenFactory.thy ===== *)
theory TokenFactory
  imports RingInterface GoValue
begin

text \<open>
  The component \<open>internal/tokenfactory\<close>: minting tokens. The JWT library is a parameter, a
  record of the functions the code calls; the ring is reached through the method \<open>Signer\<close> of
  the interface \<open>keyring.Ring\<close>, an argument of \<open>Mint\<close>, as is the reading of the clock.
\<close>

section \<open>Data\<close>

definition ErrUnsupportedAlg :: gerr where
  "ErrUnsupportedAlg = sentinel ''tokenfactory.ErrUnsupportedAlg'' ''unsupported algorithm''"

definition ErrTTLTooLong :: gerr where
  "ErrTTLTooLong = sentinel ''tokenfactory.ErrTTLTooLong'' ''requested lifetime exceeds maximum allowed''"

definition ErrInvalidRequest :: gerr where
  "ErrInvalidRequest = sentinel ''tokenfactory.ErrInvalidRequest'' ''invalid token request''"

lemmas factory_errs = ErrUnsupportedAlg_def ErrTTLTooLong_def ErrInvalidRequest_def

record Request =
  req_Claims :: gomap
  req_Alg :: string
  req_Headers :: gomap

record Response =
  AccessToken :: string
  TokenType :: string
  ExpiresIn :: int

text \<open>The field \<open>ring\<close> is the argument \<open>ring\<close> of \<open>Mint\<close>.\<close>

record Factory =
  f_issuer :: string
  f_defaultTTL :: int
  f_maxTTL :: int

definition NewFactory :: "string \<Rightarrow> int \<Rightarrow> int \<Rightarrow> Factory" where
  "NewFactory issuer defaultTTL maxTTL = \<lparr>f_issuer = issuer, f_defaultTTL = defaultTTL, f_maxTTL = maxTTL\<rparr>"

definition MaxTTL :: "Factory \<Rightarrow> int" where
  "MaxTTL f = f_maxTTL f"

text \<open>The JWT library: tokens \<open>'t\<close>, protected headers \<open>'h\<close>, keys \<open>'j\<close>.\<close>

record ('t, 'h, 'j) jwt_lib =
  jwt_New :: 't
  tok_Set :: "'t \<Rightarrow> string \<Rightarrow> goval \<Rightarrow> gerr + 't"
  tok_Get :: "'t \<Rightarrow> string \<Rightarrow> goval option"
  jws_NewHeaders :: 'h
  hdr_Set :: "'h \<Rightarrow> string \<Rightarrow> goval \<Rightarrow> gerr + 'h"
  jwt_Sign :: "'t \<Rightarrow> string \<Rightarrow> 'j \<Rightarrow> 'h option \<Rightarrow> gerr + string"

definition tok_Has :: "('t, 'h, 'j) jwt_lib \<Rightarrow> 't \<Rightarrow> string \<Rightarrow> bool" where
  "tok_Has lib t n = (tok_Get lib t n \<noteq> None)"

text \<open>
  What the language and the runtime decide: the conversion of a float out of range, and the
  order in which the map of algorithms is listed in an error text.
\<close>

record runtime =
  rt_f2i :: "gofloat \<Rightarrow> int"
  rt_supported :: "string list"

section \<open>Times in claims\<close>

definition ParseTimeValue :: "runtime \<Rightarrow> goval \<Rightarrow> gotime \<Rightarrow> gerr + gotime" where
  "ParseTimeValue rt value now =
     (case value of
        VFloat v \<Rightarrow> Inr (time_Unix (int64_of_float (rt_f2i rt) v))
      | VInt v \<Rightarrow> Inr (time_Unix v)
      | VInt64 v \<Rightarrow> Inr (time_Unix v)
      | VStr v \<Rightarrow>
          (let s = trim_space (trim_prefix (trim_space v) ''in '')
           in case parse_duration s of
                Some d \<Rightarrow> Inr (time_Add now d)
              | None \<Rightarrow>
                  (case parse_rfc3339 v of
                     Some t \<Rightarrow> Inr t
                   | None \<Rightarrow>
                       (case parse_int ''ParseInt'' (trim_space v) of
                          Inr n \<Rightarrow> Inr (time_Unix n)
                        | Inl e \<Rightarrow>
                            Inl (errorf [Lit ''cannot parse '', Quo v, Lit '' as duration, RFC3339, or epoch seconds'']))))
      | _ \<Rightarrow> Inl (errorf [Lit ''unsupported time value type '', Lit (type_name value)]))"

section \<open>Minting\<close>

definition invalid_field :: "string \<Rightarrow> string \<Rightarrow> gerr \<Rightarrow> gerr" where
  "invalid_field what name e =
     wrapf [] ErrInvalidRequest ([Lit ('': '' @ what @ '' ''), Quo name, Lit '': ''] @ err_text e)"

text \<open>The loop over the claims: the token, and the expiry if a claim gave one.\<close>

fun mint_claims ::
    "runtime \<Rightarrow> ('t, 'h, 'j) jwt_lib \<Rightarrow> gotime \<Rightarrow> gomap \<Rightarrow> 't \<Rightarrow> gotime option \<Rightarrow> gerr + ('t \<times> gotime option)" where
  "mint_claims rt lib now [] tok expiry = Inr (tok, expiry)"
| "mint_claims rt lib now ((name, value) # claims) tok expiry =
     (if name = ''exp'' then
        (case ParseTimeValue rt value now of
           Inl e \<Rightarrow> Inl (invalid_field ''claim'' name e)
         | Inr t \<Rightarrow> mint_claims rt lib now claims tok (Some t))
      else if name = ''iat'' \<or> name = ''nbf'' then
        (case ParseTimeValue rt value now of
           Inl e \<Rightarrow> Inl (invalid_field ''claim'' name e)
         | Inr t \<Rightarrow>
             (case tok_Set lib tok name (VTime t) of
                Inl e \<Rightarrow> Inl (invalid_field ''claim'' name e)
              | Inr tok' \<Rightarrow> mint_claims rt lib now claims tok' expiry))
      else
        (case tok_Set lib tok name value of
           Inl e \<Rightarrow> Inl (invalid_field ''claim'' name e)
         | Inr tok' \<Rightarrow> mint_claims rt lib now claims tok' expiry))"

text \<open>\<open>_ = tok.Set(...)\<close>: an error is dropped.\<close>

definition set_quiet :: "('t, 'h, 'j) jwt_lib \<Rightarrow> string \<Rightarrow> goval \<Rightarrow> 't \<Rightarrow> 't" where
  "set_quiet lib name value tok = (case tok_Set lib tok name value of Inl e \<Rightarrow> tok | Inr tok' \<Rightarrow> tok')"

definition mint_defaults :: "('t, 'h, 'j) jwt_lib \<Rightarrow> string \<Rightarrow> gotime \<Rightarrow> 't \<Rightarrow> 't" where
  "mint_defaults lib issuer now tok =
     (let tok1 = (if \<not> tok_Has lib tok ''iss'' \<and> issuer \<noteq> [] then set_quiet lib ''iss'' (VStr issuer) tok else tok);
          tok2 = (if \<not> tok_Has lib tok1 ''iat'' then set_quiet lib ''iat'' (VTime now) tok1 else tok1)
      in if \<not> tok_Has lib tok2 ''nbf'' then set_quiet lib ''nbf'' (VTime now) tok2 else tok2)"

fun mint_headers :: "('t, 'h, 'j) jwt_lib \<Rightarrow> gomap \<Rightarrow> 'h \<Rightarrow> gerr + 'h" where
  "mint_headers lib [] h = Inr h"
| "mint_headers lib ((name, value) # hs) h =
     (case hdr_Set lib h name value of
        Inl e \<Rightarrow> Inl (invalid_field ''header'' name e)
      | Inr h' \<Rightarrow> mint_headers lib hs h')"

text \<open>The second half of \<open>Mint\<close>: the key, the headers, the signature.\<close>

definition mint_sign ::
    "('t, 'h, 'j) jwt_lib \<Rightarrow> (algorithm \<Rightarrow> gerr + 'j Key) \<Rightarrow> algorithm \<Rightarrow> string \<Rightarrow> gomap \<Rightarrow> int \<Rightarrow> 't \<Rightarrow> gerr + Response" where
  "mint_sign lib ring alg jwaAlg headers lifetime tok =
     (case ring alg of
        Inl e \<Rightarrow> if errors_Is e Keyring.ErrUnsupportedAlg then Inl ErrUnsupportedAlg else Inl e
      | Inr signer \<Rightarrow>
          (case (if headers = [] then Inr None else map_sum id Some (mint_headers lib headers (jws_NewHeaders lib))) of
             Inl e \<Rightarrow> Inl e
           | Inr hdrs \<Rightarrow>
               (case jwt_Sign lib tok jwaAlg (k_PrivJWK signer) hdrs of
                  Inl e \<Rightarrow> Inl (wrapf [Lit ''sign token: ''] e [])
                | Inr jws \<Rightarrow>
                    Inr \<lparr>AccessToken = jws, TokenType = ''Bearer'', ExpiresIn = round_seconds lifetime\<rparr>)))"

definition empty_request :: Request where
  "empty_request = \<lparr>req_Claims = [], req_Alg = [], req_Headers = []\<rparr>"

definition request_alg :: "Request \<Rightarrow> algorithm" where
  "request_alg req = (if req_Alg req \<noteq> [] then req_Alg req else AlgRS256)"

definition Mint ::
    "runtime \<Rightarrow> ('t, 'h, 'j) jwt_lib \<Rightarrow> (algorithm \<Rightarrow> gerr + 'j Key) \<Rightarrow> Factory \<Rightarrow> gotime \<Rightarrow> Request option \<Rightarrow> gerr + Response" where
  "Mint rt lib ring f clock req0 =
     (let req = (case req0 of None \<Rightarrow> empty_request | Some r \<Rightarrow> r);
          alg = request_alg req
      in case map_of JWAAlgorithms alg of
           None \<Rightarrow> Inl (wrapf [] ErrUnsupportedAlg
               [Lit '': '', Quo (req_Alg req), Lit ('' (supported: ['' @ join '' '' (rt_supported rt) @ ''])'')])
         | Some jwaAlg \<Rightarrow>
             (let now = truncate_second clock
              in case mint_claims rt lib now (req_Claims req) (jwt_New lib) None of
                   Inl e \<Rightarrow> Inl e
                 | Inr (tok, expSet) \<Rightarrow>
                     (let tok1 = mint_defaults lib (f_issuer f) now tok;
                          expiry = (case expSet of None \<Rightarrow> time_Add now (f_defaultTTL f) | Some t \<Rightarrow> t)
                      in case tok_Set lib tok1 ''exp'' (VTime expiry) of
                           Inl e \<Rightarrow> Inl e
                         | Inr tok2 \<Rightarrow>
                             (let lifetime = time_Sub expiry now
                              in if f_maxTTL f > 0 \<and> lifetime > f_maxTTL f then Inl ErrTTLTooLong
                                 else mint_sign lib ring alg jwaAlg (req_Headers req) lifetime tok2))))"

section \<open>The library\<close>

text \<open>
  What minting relies on: a claim that was set is there and the others are as before; the three
  time claims take any instant and the issuer any string, and both are read back unchanged.
\<close>

definition jwt_laws :: "('t, 'h, 'j) jwt_lib \<Rightarrow> bool" where
  "jwt_laws lib =
     ((\<forall>n. tok_Get lib (jwt_New lib) n = None) \<and>
      (\<forall>t n v t'. tok_Set lib t n v = Inr t' \<longrightarrow> tok_Get lib t' n \<noteq> None \<and> (\<forall>m. m \<noteq> n \<longrightarrow> tok_Get lib t' m = tok_Get lib t m)) \<and>
      (\<forall>t n x. n \<in> {''exp'', ''iat'', ''nbf''} \<longrightarrow> (\<exists>t'. tok_Set lib t n (VTime x) = Inr t' \<and> tok_Get lib t' n = Some (VTime x))) \<and>
      (\<forall>t s. \<exists>t'. tok_Set lib t ''iss'' (VStr s) = Inr t' \<and> tok_Get lib t' ''iss'' = Some (VStr s)))"

lemma jwt_lawsD:
  assumes "jwt_laws lib"
  shows "tok_Get lib (jwt_New lib) n = None"
    and "tok_Set lib t n v = Inr t' \<Longrightarrow> tok_Get lib t' n \<noteq> None"
    and "tok_Set lib t n v = Inr t' \<Longrightarrow> m \<noteq> n \<Longrightarrow> tok_Get lib t' m = tok_Get lib t m"
    and "n \<in> {''exp'', ''iat'', ''nbf''} \<Longrightarrow> \<exists>t'. tok_Set lib t n (VTime x) = Inr t' \<and> tok_Get lib t' n = Some (VTime x)"
    and "\<exists>t'. tok_Set lib t ''iss'' (VStr s) = Inr t' \<and> tok_Get lib t' ''iss'' = Some (VStr s)"
proof -
  note l = assms [unfolded jwt_laws_def]
  note l2 = conjunct2 [OF l]
  note l3 = conjunct2 [OF l2]
  show "tok_Get lib (jwt_New lib) n = None" by (rule spec [OF conjunct1 [OF l]])
  show "tok_Get lib t' n \<noteq> None" if "tok_Set lib t n v = Inr t'"
    by (rule conjunct1 [OF conjunct1 [OF l2, rule_format, OF that]])
  show "tok_Get lib t' m = tok_Get lib t m" if "tok_Set lib t n v = Inr t'" "m \<noteq> n"
    by (rule conjunct2 [OF conjunct1 [OF l2, rule_format, OF that(1)], rule_format, OF that(2)])
  show "\<exists>t'. tok_Set lib t n (VTime x) = Inr t' \<and> tok_Get lib t' n = Some (VTime x)" if "n \<in> {''exp'', ''iat'', ''nbf''}"
    by (rule conjunct1 [OF l3, rule_format, OF that])
  show "\<exists>t'. tok_Set lib t ''iss'' (VStr s) = Inr t' \<and> tok_Get lib t' ''iss'' = Some (VStr s)"
    by (rule conjunct2 [OF l3, rule_format])
qed

lemma set_quiet_other:
  assumes "jwt_laws lib" and "m \<noteq> n"
  shows "tok_Get lib (set_quiet lib n v t) m = tok_Get lib t m"
  using jwt_lawsD(3) [OF assms(1) _ assms(2)] by (simp add: set_quiet_def split: sum.split)

lemma set_quiet_time:
  assumes "jwt_laws lib" and "n \<in> {''exp'', ''iat'', ''nbf''}"
  shows "tok_Get lib (set_quiet lib n (VTime x) t) n = Some (VTime x)"
  using jwt_lawsD(4) [OF assms, of t x] by (auto simp: set_quiet_def)

lemma set_quiet_iss:
  assumes "jwt_laws lib"
  shows "tok_Get lib (set_quiet lib ''iss'' (VStr s) t) ''iss'' = Some (VStr s)"
  using jwt_lawsD(5) [OF assms, of t s] by (auto simp: set_quiet_def)

lemmas set_quiet_Get = set_quiet_other set_quiet_time set_quiet_iss

lemma mint_defaults_Get:
  assumes "jwt_laws lib"
  shows "tok_Get lib (mint_defaults lib issuer now tok) n =
     (case tok_Get lib tok n of
        Some v \<Rightarrow> Some v
      | None \<Rightarrow> if n = ''iat'' \<or> n = ''nbf'' then Some (VTime now)
                else if n = ''iss'' \<and> issuer \<noteq> [] then Some (VStr issuer) else None)"
  by (auto simp: mint_defaults_def Let_def tok_Has_def set_quiet_Get [OF assms] split: option.splits)

text \<open>The time claims after the loop.\<close>

definition time_claim :: "runtime \<Rightarrow> gotime \<Rightarrow> goval \<Rightarrow> gotime" where
  "time_claim rt now v = projr (ParseTimeValue rt v now)"

lemma mint_claims_Cons:
  assumes "mint_claims rt lib now ((n, v) # claims) tok e0 = Inr (tok', e1)"
  obtains (exp) t where "n = ''exp''" "ParseTimeValue rt v now = Inr t" "mint_claims rt lib now claims tok (Some t) = Inr (tok', e1)"
  | (time) t tok1 where "n = ''iat'' \<or> n = ''nbf''" "ParseTimeValue rt v now = Inr t" "tok_Set lib tok n (VTime t) = Inr tok1"
      "mint_claims rt lib now claims tok1 e0 = Inr (tok', e1)"
  | (other) tok1 where "n \<notin> {''exp'', ''iat'', ''nbf''}" "tok_Set lib tok n v = Inr tok1"
      "mint_claims rt lib now claims tok1 e0 = Inr (tok', e1)"
  using assms by (auto split: if_splits sum.splits)

lemma mint_claims_frame:
  assumes "jwt_laws lib" and "mint_claims rt lib now claims tok e0 = Inr (tok', e1)"
    and "m \<noteq> ''exp''" and "map_of claims m = None"
  shows "tok_Get lib tok' m = tok_Get lib tok m"
  using assms(2,4)
proof (induction claims arbitrary: tok e0)
  case (Cons c claims)
  obtain n v where c: "c = (n, v)" by (cases c)
  have m: "m \<noteq> n" "map_of claims m = None" using Cons.prems(2) by (auto simp: c split: if_splits)
  from Cons.prems(1)[unfolded c] show ?case
  proof (cases rule: mint_claims_Cons)
    case (exp t)
    then show ?thesis using Cons.IH m by blast
  next
    case (time t tok1)
    then show ?thesis using Cons.IH [OF _ m(2)] jwt_lawsD(3) [OF assms(1) _ m(1)] by metis
  next
    case (other tok1)
    then show ?thesis using Cons.IH [OF _ m(2)] jwt_lawsD(3) [OF assms(1) _ m(1)] by metis
  qed
qed simp

lemma mint_claims_exp:
  assumes "mint_claims rt lib now claims tok e0 = Inr (tok', e1)" and "distinct (map fst claims)"
  shows "e1 = (case map_of claims ''exp'' of None \<Rightarrow> e0 | Some v \<Rightarrow> Some (time_claim rt now v))"
  using assms
proof (induction claims arbitrary: tok e0)
  case (Cons c claims)
  obtain n v where c: "c = (n, v)" by (cases c)
  from Cons.prems(1)[unfolded c] show ?case
  proof (cases rule: mint_claims_Cons)
    case (exp t)
    then have "map_of claims ''exp'' = None" using Cons.prems(2) by (auto simp: c map_of_eq_None_iff)
    then show ?thesis using Cons.IH [OF exp(3)] Cons.prems(2) exp by (simp add: c time_claim_def)
  next
    case (time t tok1)
    then show ?thesis using Cons.IH Cons.prems(2) by (auto simp: c)
  next
    case (other tok1)
    then show ?thesis using Cons.IH Cons.prems(2) by (auto simp: c)
  qed
qed simp

lemma mint_claims_time:
  assumes laws: "jwt_laws lib" and "mint_claims rt lib now claims tok e0 = Inr (tok', e1)" and "distinct (map fst claims)"
    and n: "m = ''iat'' \<or> m = ''nbf''" and "map_of claims m = Some w"
  shows "tok_Get lib tok' m = Some (VTime (time_claim rt now w))"
  using assms(2,3,5)
proof (induction claims arbitrary: tok e0)
  case (Cons c claims)
  obtain n v where c: "c = (n, v)" by (cases c)
  have dist: "distinct (map fst claims)" using Cons.prems(2) by simp
  show ?case
  proof (cases "n = m")
    case True
    then have later: "map_of claims m = None" "v = w"
      using Cons.prems(2,3) by (auto simp: c map_of_eq_None_iff)
    from Cons.prems(1) True n obtain t tok1 where t: "ParseTimeValue rt v now = Inr t" "tok_Set lib tok m (VTime t) = Inr tok1"
      "mint_claims rt lib now claims tok1 e0 = Inr (tok', e1)"
      by (auto simp: c split: sum.splits)
    have "tok_Get lib tok1 m = Some (VTime t)" using jwt_lawsD(4) [OF laws, of m tok t] n t(2) by auto
    moreover have "tok_Get lib tok' m = tok_Get lib tok1 m"
      using mint_claims_frame [OF laws t(3) _ later(1)] n by auto
    ultimately show ?thesis using t(1) later(2) by (simp add: time_claim_def)
  next
    case False
    then have w: "map_of claims m = Some w" using Cons.prems(3) by (simp add: c)
    from Cons.prems(1)[unfolded c] show ?thesis
      by (cases rule: mint_claims_Cons) (use Cons.IH [OF _ dist w] in blast)+
  qed
qed simp

lemma mint_claims_kept:
  assumes laws: "jwt_laws lib" and "mint_claims rt lib now claims tok e0 = Inr (tok', e1)"
    and "m \<noteq> ''exp''" and "tok_Get lib tok m \<noteq> None \<or> map_of claims m \<noteq> None"
  shows "tok_Get lib tok' m \<noteq> None"
  using assms(2,4)
proof (induction claims arbitrary: tok e0)
  case (Cons c claims)
  obtain n v where c: "c = (n, v)" by (cases c)
  have step: "tok_Get lib tok1 m \<noteq> None \<or> map_of claims m \<noteq> None" if "tok_Set lib tok n x = Inr tok1" for x tok1
    using Cons.prems(2) jwt_lawsD(2,3) [OF laws that] by (cases "m = n") (auto simp: c)
  from Cons.prems(1)[unfolded c] show ?case
  proof (cases rule: mint_claims_Cons)
    case (exp t)
    then show ?thesis using Cons.IH [OF exp(3)] Cons.prems(2) assms(3) by (simp add: c)
  next
    case (time t tok1)
    then show ?thesis using Cons.IH [OF time(4)] step by blast
  next
    case (other tok1)
    then show ?thesis using Cons.IH [OF other(3)] step by blast
  qed
qed simp

section \<open>What a minted token holds\<close>

lemma JWAAlgorithms_of: "map_of JWAAlgorithms alg = (if alg \<in> set allAlgorithms then Some alg else None)"
  by (simp add: JWAAlgorithms_def allAlgorithms_def alg_defs)

text \<open>The expiry a request asks for, or the default of the factory.\<close>

definition requested_exp :: "runtime \<Rightarrow> Factory \<Rightarrow> gotime \<Rightarrow> gomap \<Rightarrow> gotime" where
  "requested_exp rt f now claims =
     (case map_of claims ''exp'' of None \<Rightarrow> time_Add now (f_defaultTTL f) | Some v \<Rightarrow> time_claim rt now v)"

lemma Mint_cases:
  assumes laws: "jwt_laws lib" and dist: "distinct (map fst (req_Claims req))" and alg: "request_alg req \<in> set allAlgorithms"
  shows "Mint rt lib ring f clock (Some req) =
     (let now = truncate_second clock
      in case mint_claims rt lib now (req_Claims req) (jwt_New lib) None of
           Inl e \<Rightarrow> Inl e
         | Inr (tok, _) \<Rightarrow>
             (let expiry = requested_exp rt f now (req_Claims req)
              in if f_maxTTL f > 0 \<and> time_Sub expiry now > f_maxTTL f then Inl ErrTTLTooLong
                 else mint_sign lib ring (request_alg req) (request_alg req) (req_Headers req) (time_Sub expiry now)
                        (projr (tok_Set lib (mint_defaults lib (f_issuer f) now tok) ''exp'' (VTime expiry)))))"
proof (cases "mint_claims rt lib (truncate_second clock) (req_Claims req) (jwt_New lib) None")
  case (Inl e)
  then show ?thesis using alg by (simp add: Mint_def Let_def JWAAlgorithms_of)
next
  case (Inr te)
  obtain tok e1 where te: "te = (tok, e1)" by (cases te)
  have e1: "(case e1 of None \<Rightarrow> time_Add (truncate_second clock) (f_defaultTTL f) | Some t \<Rightarrow> t) =
      requested_exp rt f (truncate_second clock) (req_Claims req)"
    using mint_claims_exp [OF Inr [unfolded te] dist] by (simp add: requested_exp_def split: option.split)
  obtain t2 where "tok_Set lib (mint_defaults lib (f_issuer f) (truncate_second clock) tok) ''exp''
      (VTime (requested_exp rt f (truncate_second clock) (req_Claims req))) = Inr t2"
    using jwt_lawsD(4) [OF laws, of "''exp''"] by blast
  then show ?thesis using alg Inr by (simp add: Mint_def Let_def JWAAlgorithms_of te e1)
qed

lemma mint_sign_Inr:
  assumes "mint_sign lib ring alg jwaAlg headers lifetime tok = Inr resp"
  obtains k hdrs where "ring alg = Inr k" "jwt_Sign lib tok jwaAlg (k_PrivJWK k) hdrs = Inr (AccessToken resp)"
    "TokenType resp = ''Bearer''" "ExpiresIn resp = round_seconds lifetime" "headers = [] \<Longrightarrow> hdrs = None"
  using assms by (auto simp: mint_sign_def split: sum.splits if_splits)

lemma Mint_Inr_alg: "Mint rt lib ring f clock (Some req) = Inr resp \<Longrightarrow> request_alg req \<in> set allAlgorithms"
  by (auto simp: Mint_def Let_def JWAAlgorithms_of split: if_splits)

lemma Mint_success:
  assumes laws: "jwt_laws lib" and mint: "Mint rt lib ring f clock (Some req) = Inr resp"
    and dist: "distinct (map fst (req_Claims req))" and now: "now = truncate_second clock"
  obtains k tok hdrs tok0 e1 where "ring (request_alg req) = Inr k"
    "jwt_Sign lib tok (request_alg req) (k_PrivJWK k) hdrs = Inr (AccessToken resp)"
    "TokenType resp = ''Bearer''"
    "ExpiresIn resp = round_seconds (time_Sub (requested_exp rt f now (req_Claims req)) now)"
    "f_maxTTL f > 0 \<longrightarrow> time_Sub (requested_exp rt f now (req_Claims req)) now \<le> f_maxTTL f"
    "mint_claims rt lib now (req_Claims req) (jwt_New lib) None = Inr (tok0, e1)"
    "tok_Set lib (mint_defaults lib (f_issuer f) now tok0) ''exp'' (VTime (requested_exp rt f now (req_Claims req))) = Inr tok"
proof -
  let ?exp = "requested_exp rt f now (req_Claims req)"
  note eq = Mint_cases [OF laws dist Mint_Inr_alg [OF mint], of rt ring f clock, folded now]
  from mint obtain tok0 e1 where claims: "mint_claims rt lib now (req_Claims req) (jwt_New lib) None = Inr (tok0, e1)"
    unfolding eq by (auto simp: Let_def split: sum.splits)
  obtain tok where tok: "tok_Set lib (mint_defaults lib (f_issuer f) now tok0) ''exp'' (VTime ?exp) = Inr tok"
    using jwt_lawsD(4) [OF laws, of "''exp''"] by blast
  have cap: "f_maxTTL f > 0 \<longrightarrow> time_Sub ?exp now \<le> f_maxTTL f"
    and sgn: "mint_sign lib ring (request_alg req) (request_alg req) (req_Headers req) (time_Sub ?exp now) tok = Inr resp"
    using mint unfolding eq by (auto simp: Let_def claims tok split: if_splits)
  from sgn show ?thesis
    by (rule mint_sign_Inr) (use that claims tok cap in blast)
qed

end
