(* ===== verification/Verify.thy ===== *)
theory Verify
  imports RingInterface GoValue
begin

text \<open>
  The component \<open>internal/verify\<close>: the classifier of tokens. The library \<open>golang-jwt\<close> is a
  parameter, a record of the functions the code calls with the options it gives them; a key
  source is the record of its two methods.
\<close>

section \<open>Reasons and data\<close>

type_synonym reason = string

definition ReasonMalformed :: reason where "ReasonMalformed = ''malformed''"
definition ReasonAlg :: reason where "ReasonAlg = ''alg''"
definition ReasonKid :: reason where "ReasonKid = ''kid''"
definition ReasonSignature :: reason where "ReasonSignature = ''signature''"
definition ReasonExpired :: reason where "ReasonExpired = ''expired''"
definition ReasonNotYetValid :: reason where "ReasonNotYetValid = ''not_yet_valid''"
definition ReasonIssuer :: reason where "ReasonIssuer = ''issuer''"
definition ReasonAudience :: reason where "ReasonAudience = ''audience''"

lemmas reason_defs = ReasonMalformed_def ReasonAlg_def ReasonKid_def ReasonSignature_def ReasonExpired_def
  ReasonNotYetValid_def ReasonIssuer_def ReasonAudience_def

definition Reasons :: "reason list" where
  "Reasons = [ReasonMalformed, ReasonAlg, ReasonKid, ReasonSignature, ReasonExpired, ReasonNotYetValid,
     ReasonIssuer, ReasonAudience]"

definition KeyStatusUnknown :: keystatus where "KeyStatusUnknown = ''unknown''"

record KeySource =
  ks_Lookup :: "string \<Rightarrow> gerr + (public_key \<times> keystatus)"
  ks_Algorithms :: "string list"

record Input =
  in_Token :: string
  in_Keys :: "KeySource option"
  in_ExpectedIssuer :: string
  in_AllowedAlgs :: "string list"
  in_Audience :: "string list"
  in_Leeway :: int
  in_Now :: gotime

text \<open>A map that is nil is the empty map; an error text is kept as its pieces.\<close>

record Verdict =
  v_Valid :: bool
  v_Reason :: reason
  v_Error :: "part list"
  v_Header :: gomap
  v_Claims :: gomap
  v_UnverifiedClaims :: gomap
  v_Kid :: string
  v_KidStatus :: keystatus
  v_Alg :: string

definition empty_verdict :: Verdict where
  "empty_verdict = \<lparr>v_Valid = False, v_Reason = [], v_Error = [], v_Header = [], v_Claims = [], v_UnverifiedClaims = [],
     v_Kid = [], v_KidStatus = [], v_Alg = []\<rparr>"

text \<open>\<open>RingKeySource\<close> over a ring that may be nil.\<close>

definition RingKeySource :: "'j jwx \<Rightarrow> 'j view option \<Rightarrow> KeySource" where
  "RingKeySource lib ring =
     \<lparr>ks_Lookup = (\<lambda>kid. case ring of None \<Rightarrow> Inl (errors_New ''verify: nil keyring'') | Some v \<Rightarrow> view_Lookup lib v kid),
      ks_Algorithms = (case ring of None \<Rightarrow> [] | Some v \<Rightarrow> view_EnabledAlgorithms v)\<rparr>"

section \<open>The library\<close>

text \<open>
  \<open>ParseUnverified\<close> returns the header of the token if it returns a token, the claims it filled
  in, and an error. \<open>ParseWithClaims\<close> is given the accepted method names and the key, and only
  its error is used. \<open>Validate\<close> is given the leeway and the time.
\<close>

record jwt5 =
  j5_ParseUnverified :: "string \<Rightarrow> gomap option \<times> gomap \<times> gerr option"
  j5_ParseWithClaims :: "string list \<Rightarrow> string \<Rightarrow> public_key \<Rightarrow> gerr option"
  j5_Validate :: "int \<Rightarrow> gotime \<Rightarrow> gomap \<Rightarrow> gerr option"
  j5_GetExpirationTime :: "gomap \<Rightarrow> gerr + gotime option"
  j5_GetNotBefore :: "gomap \<Rightarrow> gerr + gotime option"
  j5_GetIssuedAt :: "gomap \<Rightarrow> gerr + gotime option"
  j5_GetAudience :: "gomap \<Rightarrow> gerr + string list"
  j5_GetIssuer :: "gomap \<Rightarrow> gerr + string"
  j5_GetSubject :: "gomap \<Rightarrow> gerr + string"

text \<open>The library's sentinels, by their names.\<close>

abbreviation jwt5_error :: "string \<Rightarrow> gerr" where
  "jwt5_error n \<equiv> sentinel (''jwt5.'' @ n) n"

section \<open>Verdicts\<close>

definition stringHeader :: "gomap \<Rightarrow> string \<Rightarrow> string \<times> bool" where
  "stringHeader header name = (case map_of header name of Some (VStr s) \<Rightarrow> (s, True) | _ \<Rightarrow> ([], False))"

definition baseVerdict :: "gomap \<Rightarrow> gomap \<Rightarrow> string \<Rightarrow> string \<Rightarrow> Verdict" where
  "baseVerdict header claims alg kid =
     empty_verdict\<lparr>v_Header := header, v_UnverifiedClaims := claims, v_Alg := alg, v_Kid := kid\<rparr>"

definition authenticatedVerdict :: "gomap \<Rightarrow> gomap \<Rightarrow> string \<Rightarrow> string \<Rightarrow> keystatus \<Rightarrow> Verdict" where
  "authenticatedVerdict header claims alg kid status =
     empty_verdict\<lparr>v_Header := header, v_Claims := claims, v_Alg := alg, v_Kid := kid, v_KidStatus := status\<rparr>"

definition invalid :: "reason \<Rightarrow> part list \<Rightarrow> Verdict \<Rightarrow> Verdict" where
  "invalid reason message verdict = verdict\<lparr>v_Valid := False, v_Reason := reason, v_Error := message\<rparr>"

definition signatureReason :: "gerr \<Rightarrow> reason option" where
  "signatureReason err =
     (if errors_Is err (jwt5_error ''ErrTokenSignatureInvalid'') \<or> errors_Is err (jwt5_error ''ErrInvalidKey'')
         \<or> errors_Is err (jwt5_error ''ErrInvalidKeyType'') \<or> errors_Is err (jwt5_error ''ErrTokenUnverifiable'')
      then Some ReasonSignature else None)"

fun anyAudienceMatches :: "string list \<Rightarrow> string list \<Rightarrow> bool" where
  "anyAudienceMatches [] actual = False"
| "anyAudienceMatches (want # expected) actual = (List.member actual want \<or> anyAudienceMatches expected actual)"

definition validateClaimShapes :: "jwt5 \<Rightarrow> gomap \<Rightarrow> gerr option" where
  "validateClaimShapes j5 claims =
     (case j5_GetExpirationTime j5 claims of Inl e \<Rightarrow> Some e | Inr _ \<Rightarrow>
      (case j5_GetNotBefore j5 claims of Inl e \<Rightarrow> Some e | Inr _ \<Rightarrow>
       (case j5_GetIssuedAt j5 claims of Inl e \<Rightarrow> Some e | Inr _ \<Rightarrow>
        (case j5_GetAudience j5 claims of Inl e \<Rightarrow> Some e | Inr _ \<Rightarrow>
         (case j5_GetIssuer j5 claims of Inl e \<Rightarrow> Some e | Inr _ \<Rightarrow>
          (case j5_GetSubject j5 claims of Inl e \<Rightarrow> Some e | Inr _ \<Rightarrow> None))))))"

section \<open>The classifier\<close>

text \<open>The checks after the signature: times, issuer, audience.\<close>

definition verify_claims :: "jwt5 \<Rightarrow> gotime \<Rightarrow> int \<Rightarrow> Input \<Rightarrow> gomap \<Rightarrow> Verdict \<Rightarrow> gerr + Verdict" where
  "verify_claims j5 now leeway inp claims base =
     (case j5_Validate j5 leeway now claims of
        Some err \<Rightarrow>
          if errors_Is err (jwt5_error ''ErrTokenExpired'')
          then Inr (invalid ReasonExpired [Lit ''token is expired''] base)
          else if errors_Is err (jwt5_error ''ErrTokenNotValidYet'')
          then Inr (invalid ReasonNotYetValid [Lit ''token is not valid yet''] base)
          else if errors_Is err (jwt5_error ''ErrTokenUsedBeforeIssued'')
          then Inr (invalid ReasonNotYetValid [Lit ''token was used before it was issued''] base)
          else Inl (wrapf [Lit ''verify: time claims: ''] err [])
      | None \<Rightarrow>
          (let issuer = (case j5_GetIssuer j5 claims of Inl _ \<Rightarrow> [] | Inr s \<Rightarrow> s)
           in if in_ExpectedIssuer inp \<noteq> [] \<and> issuer \<noteq> in_ExpectedIssuer inp
              then Inr (invalid ReasonIssuer
                     (if issuer \<noteq> [] then [Lit ''token issuer '', Quo issuer, Lit '' does not match '', Quo (in_ExpectedIssuer inp)]
                      else [Lit ''token has no issuer'']) base)
              else if in_Audience inp \<noteq> []
              then (case j5_GetAudience j5 claims of
                      Inl err \<Rightarrow> Inl (wrapf [Lit ''verify: audience claim: ''] err [])
                    | Inr aud \<Rightarrow>
                        if \<not> anyAudienceMatches (in_Audience inp) aud
                        then Inr (invalid ReasonAudience [Lit ''token audience does not match''] base)
                        else Inr (base\<lparr>v_Valid := True\<rparr>))
              else Inr (base\<lparr>v_Valid := True\<rparr>)))"

text \<open>From the key check on: the algorithm is known to be accepted.\<close>

definition verify_key :: "jwt5 \<Rightarrow> gotime \<Rightarrow> int \<Rightarrow> Input \<Rightarrow> gomap \<Rightarrow> gomap \<Rightarrow> string \<Rightarrow> gerr + Verdict" where
  "verify_key j5 now leeway inp header claims alg =
     (let (kid, kidPresent) = stringHeader header ''kid''
      in if \<not> kidPresent \<or> kid = [] then Inr (invalid ReasonKid [Lit ''token header has no kid''] (baseVerdict header claims alg []))
         else case in_Keys inp of
           None \<Rightarrow> Inl (errors_New ''verify: no key source'')
         | Some keys \<Rightarrow>
             (let base = baseVerdict header claims alg kid
              in case ks_Lookup keys kid of
                   Inl lookupErr \<Rightarrow>
                     if errors_Is lookupErr ErrKeyNotFound
                     then Inr (invalid ReasonKid [Lit ''no key found for kid '', Quo kid] (base\<lparr>v_KidStatus := KeyStatusUnknown\<rparr>))
                     else Inl (wrapf [Lit ''verify: lookup kid '', Quo kid, Lit '': ''] lookupErr [])
                 | Inr (key, status) \<Rightarrow>
                     (case j5_ParseWithClaims j5 [alg] (trim_space (in_Token inp)) key of
                        Some err \<Rightarrow>
                          (case signatureReason err of
                             Some reason \<Rightarrow>
                               Inr (invalid reason [Lit ''token signature does not verify''] (base\<lparr>v_KidStatus := status\<rparr>))
                           | None \<Rightarrow> Inl (wrapf [Lit ''verify: signature pass: ''] err []))
                      | None \<Rightarrow>
                          verify_claims j5 now leeway inp claims (authenticatedVerdict header claims alg kid status))))"

text \<open>The algorithm check of a token that parsed.\<close>

definition verify_parsed :: "jwt5 \<Rightarrow> gotime \<Rightarrow> int \<Rightarrow> Input \<Rightarrow> gomap \<Rightarrow> gomap \<Rightarrow> gerr + Verdict" where
  "verify_parsed j5 now leeway inp header claims =
     (case validateClaimShapes j5 claims of
        Some err \<Rightarrow> Inr (invalid ReasonMalformed (err_text err) empty_verdict)
      | None \<Rightarrow>
          (let (alg, ok) = stringHeader header ''alg''
           in if \<not> ok \<or> alg = []
              then Inr (invalid ReasonAlg [Lit ''token header has no usable alg''] (baseVerdict header claims [] []))
              else if in_AllowedAlgs inp = [] \<and> in_Keys inp = None
              then Inl (errors_New ''verify: no key source'')
              else let allowed = (if in_AllowedAlgs inp = [] then ks_Algorithms (the (in_Keys inp)) else in_AllowedAlgs inp)
                   in if \<not> List.member allowed alg
                      then Inr (invalid ReasonAlg [Lit ''algorithm '', Quo alg, Lit '' is not accepted''] (baseVerdict header claims alg []))
                      else verify_key j5 now leeway inp header claims alg))"

definition Verify :: "jwt5 \<Rightarrow> gotime \<Rightarrow> Input \<Rightarrow> gerr + Verdict" where
  "Verify j5 clock inp =
     (let now = (if time_IsZero (in_Now inp) then clock else in_Now inp);
          leeway = (if in_Leeway inp < 0 then 0 else in_Leeway inp)
      in case j5_ParseUnverified j5 (trim_space (in_Token inp)) of
           (tok, claims, Some err) \<Rightarrow>
             (case tok of
                Some header \<Rightarrow>
                  if errors_Is err (jwt5_error ''ErrTokenUnverifiable'')
                  then (let alg = fst (stringHeader header ''alg''); kid = fst (stringHeader header ''kid'')
                        in Inr (invalid ReasonAlg
                             (if alg \<noteq> [] then [Lit ''algorithm '', Quo alg, Lit '' is not accepted''] else [Lit ''token header has no usable alg''])
                             (baseVerdict header claims alg kid)))
                  else Inr (invalid ReasonMalformed (err_text err) empty_verdict)
              | None \<Rightarrow> Inr (invalid ReasonMalformed (err_text err) empty_verdict))
         | (tok, claims, None) \<Rightarrow> verify_parsed j5 now leeway inp (case tok of None \<Rightarrow> [] | Some header \<Rightarrow> header) claims)"

end
