(* ===== verification/Server.thy ===== *)
theory Server
  imports TokenFactory Verify Http
begin

text \<open>
  The component \<open>internal/server\<close>: configuration, the table of visitors with its rate limiters,
  the middleware, and the HTTP handlers. The response writer is its header map, which the
  middleware fills before the handler runs. What a handler reads from the ring, the clock and the
  random generator comes in with the call; a handler that reads the ring a second time gets a
  second view, since a rotation may have happened in between.
\<close>

section \<open>Configuration\<close>

type_synonym headers = "(string \<times> string) list"

definition defaultRateLimitRPS :: gofloat where "defaultRateLimitRPS = Fin 100"
definition defaultRateLimitBurst :: int where "defaultRateLimitBurst = 200"

text \<open>
  The immutable part of the server; a logger is known by its name. The table of visitors is
  the separate state \<open>visitors\<close>.
\<close>

record Server =
  s_Factory :: Factory
  s_Issuer :: string
  s_Version :: string
  s_rateLimitRPS :: gofloat
  s_rateLimitBurst :: int
  s_audience :: string
  s_scopes :: "string list"
  s_discoveryExtra :: gomap
  s_logger :: "string option"

record 'l visitors =
  vi_limiter :: "string \<rightharpoonup> 'l"
  vi_lastSeen :: "string \<rightharpoonup> gotime"

datatype server_option =
    WithLogger "string option"
  | WithAudience string
  | WithScopes "string list"
  | WithDiscoveryExtra "gomap option"

fun apply_option :: "server_option \<Rightarrow> Server \<Rightarrow> Server" where
  "apply_option (WithLogger l) s = (case l of None \<Rightarrow> s | Some _ \<Rightarrow> s\<lparr>s_logger := l\<rparr>)"
| "apply_option (WithAudience a) s = s\<lparr>s_audience := a\<rparr>"
| "apply_option (WithScopes xs) s = s\<lparr>s_scopes := xs\<rparr>"
| "apply_option (WithDiscoveryExtra e) s = s\<lparr>s_discoveryExtra := (case e of None \<Rightarrow> [] | Some m \<Rightarrow> m)\<rparr>"

definition float_nonpos :: "gofloat \<Rightarrow> bool" where
  "float_nonpos f = (case f of Fin q \<Rightarrow> q \<le> 0 | NegInf \<Rightarrow> True | _ \<Rightarrow> False)"

text \<open>An option that is nil is skipped.\<close>

definition server_New ::
    "Factory \<Rightarrow> string \<Rightarrow> string \<Rightarrow> gofloat \<Rightarrow> int \<Rightarrow> server_option option list \<Rightarrow> Server \<times> 'l visitors" where
  "server_New factory issuer version rps burst opts =
     (let s = \<lparr>s_Factory = factory, s_Issuer = issuer, s_Version = version,
               s_rateLimitRPS = (if float_nonpos rps then defaultRateLimitRPS else rps),
               s_rateLimitBurst = (if burst \<le> 0 then defaultRateLimitBurst else burst),
               s_audience = [], s_scopes = [], s_discoveryExtra = [], s_logger = None\<rparr>
      in (fold (\<lambda>op s. case op of None \<Rightarrow> s | Some opt \<Rightarrow> apply_option opt s) opts s,
          \<lparr>vi_limiter = Map.empty, vi_lastSeen = Map.empty\<rparr>))"

section \<open>Visitors\<close>

text \<open>The rate limiters of \<open>golang.org/x/time/rate\<close>: a new one, and one request at an instant.\<close>

record 'l limiters =
  lim_New :: "gofloat \<Rightarrow> int \<Rightarrow> 'l"
  lim_Allow :: "gotime \<Rightarrow> 'l \<Rightarrow> bool \<times> 'l"

definition getVisitorLimiter :: "'l limiters \<Rightarrow> Server \<Rightarrow> gotime \<Rightarrow> string \<Rightarrow> 'l visitors \<Rightarrow> 'l \<times> 'l visitors" where
  "getVisitorLimiter lims s now ip vs =
     (let (l, vs1) = (case vi_limiter vs ip of
            Some l \<Rightarrow> (l, vs)
          | None \<Rightarrow> (let l = lim_New lims (s_rateLimitRPS s) (s_rateLimitBurst s)
                     in (l, vs\<lparr>vi_limiter := (vi_limiter vs)(ip \<mapsto> l)\<rparr>)))
      in (l, vs1\<lparr>vi_lastSeen := (vi_lastSeen vs1)(ip \<mapsto> now)\<rparr>))"

text \<open>
  One tick of \<open>cleanupVisitors\<close>: the range visits the table in some order, and each visit reads
  the clock.
\<close>

fun cleanup_loop :: "(string \<times> gotime) list \<Rightarrow> 'l visitors \<Rightarrow> 'l visitors" where
  "cleanup_loop [] vs = vs"
| "cleanup_loop ((ip, now) # visits) vs =
     (case vi_lastSeen vs ip of
        None \<Rightarrow> cleanup_loop visits vs
      | Some seen \<Rightarrow>
          if time_Sub now seen > 10 * Minute
          then cleanup_loop visits (vs\<lparr>vi_limiter := (vi_limiter vs)(ip := None), vi_lastSeen := (vi_lastSeen vs)(ip := None)\<rparr>)
          else cleanup_loop visits vs)"

definition client_ip :: "http_request \<Rightarrow> string" where
  "client_ip r =
     (let forwarded = header_Get r ''X-Forwarded-For'';
          ip = (if forwarded \<noteq> [] then hd (split_on CHR '','' forwarded) else r_RemoteAddr r)
      in trim_space ip)"

section \<open>Writing responses, logging\<close>

definition writeJSON :: "headers \<Rightarrow> int \<Rightarrow> goval \<Rightarrow> http_response" where
  "writeJSON w status payload =
     \<lparr>h_Status = status, h_Header = map_put ''Content-Type'' ''application/json'' w, h_Body = BJson payload\<rparr>"

definition writeError :: "headers \<Rightarrow> int \<Rightarrow> string \<Rightarrow> http_response" where
  "writeError w status msg = writeJSON w status (VMap [(''error'', VStr msg)])"

definition writeOAuthError :: "headers \<Rightarrow> int \<Rightarrow> string \<Rightarrow> string \<Rightarrow> http_response" where
  "writeOAuthError w status code description =
     writeJSON w status (VMap [(''error'', VStr code), (''error_description'', VStr description)])"

definition setNoStore :: "headers \<Rightarrow> headers" where
  "setNoStore w = map_put ''Pragma'' ''no-cache'' (map_put ''Cache-Control'' ''no-store'' w)"

record audit_event =
  ae_logger :: string
  ae_args :: gomap

text \<open>\<open>id\<close> is what \<open>getRequestID\<close> finds in the context.\<close>

definition logTokenEvent :: "Server \<Rightarrow> http_request \<Rightarrow> string \<Rightarrow> string \<Rightarrow> gomap \<Rightarrow> audit_event" where
  "logTokenEvent s r reqid event attrs =
     \<lparr>ae_logger = (case s_logger s of None \<Rightarrow> ''default'' | Some l \<Rightarrow> l),
      ae_args = [(''event'', VStr event), (''request_id'', VStr reqid), (''client_ip'', VStr (client_ip r)),
                 (''method'', VStr (r_Method r)), (''path'', VStr (r_Path r))] @ attrs\<rparr>"

definition getRequestID :: "http_request \<Rightarrow> string option \<Rightarrow> string" where
  "getRequestID r ctx = (case ctx of Some v \<Rightarrow> v | None \<Rightarrow> header_Get r ''X-Request-ID'')"

text \<open>What \<open>rand.Read\<close> returned, and the formatted time for the case that it failed.\<close>

definition generateRequestID :: "gerr + byte list \<Rightarrow> string \<Rightarrow> string" where
  "generateRequestID rnd stamp = (case rnd of Inl _ \<Rightarrow> stamp | Inr bs \<Rightarrow> hex_encode bs)"

section \<open>What a call brings in\<close>

record ('t, 'h, 'j) libs =
  lb_jwx :: "'j jwx"
  lb_jwt :: "('t, 'h, 'j) jwt_lib"
  lb_j5 :: jwt5
  lb_rt :: runtime
  lb_quote :: "string \<Rightarrow> string"
  lb_MarshalSet :: "'j list \<Rightarrow> gerr + string"
  lb_MarshalKey :: "'j \<Rightarrow> gerr + string"

record 'j call =
  c_view :: "'j view"
  c_later :: "'j view"
  c_clock :: gotime
  c_jti :: "gerr + byte list"
  c_id :: string

definition view_ActiveKid :: "'j jwx \<Rightarrow> 'j view \<Rightarrow> algorithm \<Rightarrow> gerr + string" where
  "view_ActiveKid lib v alg = ActiveKid lib (fst v) alg"

definition view_JWKS :: "'j jwx \<Rightarrow> 'j view \<Rightarrow> gerr + 'j list" where
  "view_JWKS lib v = (case v of (r, ao, ro) \<Rightarrow> JWKS lib ao ro r)"

definition view_JWKByKID :: "'j jwx \<Rightarrow> 'j view \<Rightarrow> string \<Rightarrow> gerr + 'j" where
  "view_JWKByKID lib v kid = (case v of (r, ao, ro) \<Rightarrow> JWKByKID lib ao ro r kid)"

section \<open>Reading endpoints\<close>

definition handleVersion :: "Server \<Rightarrow> headers \<Rightarrow> http_response" where
  "handleVersion s w = writeJSON w 200 (VMap [(''version'', VStr (s_Version s))])"

definition endpoints :: "string list" where
  "endpoints =
     [''GET /healthz'', ''GET /version'', ''GET /.well-known/jwks.json'', ''GET /.well-known/jwks.json/{kid}'',
      ''GET /.well-known/openid-configuration'', ''GET /.well-known/oauth-authorization-server'', ''POST /token'',
      ''POST /oauth/token'', ''POST /introspect'', ''POST /v2/oauth/token'', ''POST /verify'']"

definition handleIndex :: "Server \<Rightarrow> headers \<Rightarrow> http_response" where
  "handleIndex s w =
     writeJSON w 200 (VMap [(''service'', VStr ''jwtoken-tester''), (''version'', VStr (s_Version s)),
       (''warning'', VStr ''integration-test token issuer; ephemeral in-memory keys''), (''endpoints'', VStrs endpoints)])"

definition active_kid_entries :: "'j jwx \<Rightarrow> 'j view \<Rightarrow> algorithm list \<Rightarrow> gomap" where
  "active_kid_entries lib v algs =
     List.map_filter (\<lambda>alg. case view_ActiveKid lib v alg of Inl _ \<Rightarrow> None | Inr kid \<Rightarrow> Some (alg, VStr kid)) algs"

definition handleHealth :: "('t, 'h, 'j) libs \<Rightarrow> Server \<Rightarrow> 'j call \<Rightarrow> headers \<Rightarrow> http_response" where
  "handleHealth lb s c w =
     (let doc0 = [(''status'', VStr ''ok''), (''version'', VStr (s_Version s)),
            (''warning'', VStr ''test issuer: keys are ephemeral and in-memory; do not use in production'')];
          algorithms = view_EnabledAlgorithms (c_view c);
          doc1 = (if algorithms \<noteq> [] then map_put ''algorithms'' (VStrs algorithms) doc0 else doc0);
          kids = active_kid_entries (lb_jwx lb) (c_later c) algorithms;
          doc2 = (if kids \<noteq> [] then map_put ''active_kids'' (VMap kids) doc1 else doc1)
      in writeJSON w 200 (VMap doc2))"

definition writeRaw :: "headers \<Rightarrow> string \<Rightarrow> http_response" where
  "writeRaw w data = \<lparr>h_Status = 200, h_Header = map_put ''Content-Type'' ''application/json'' w, h_Body = BRaw data\<rparr>"

definition handleJWKS :: "('t, 'h, 'j) libs \<Rightarrow> 'j call \<Rightarrow> headers \<Rightarrow> http_response" where
  "handleJWKS lb c w =
     (case view_JWKS (lb_jwx lb) (c_view c) of
        Inl e \<Rightarrow> writeError w 500 (err_Error (lb_quote lb) e)
      | Inr jwks \<Rightarrow>
          (case lb_MarshalSet lb jwks of
             Inl e \<Rightarrow> writeError w 500 (err_Error (lb_quote lb) e)
           | Inr data \<Rightarrow> writeRaw w data))"

definition jwksPath :: string where "jwksPath = ''/.well-known/jwks.json/''"

definition handleJWKByKID :: "('t, 'h, 'j) libs \<Rightarrow> 'j call \<Rightarrow> http_request \<Rightarrow> headers \<Rightarrow> http_response" where
  "handleJWKByKID lb c r w =
     (let kid = trim_prefix (r_Path r) jwksPath
      in if kid = [] then writeError w 400 ''kid is required''
         else case view_JWKByKID (lb_jwx lb) (c_view c) kid of
           Inl e \<Rightarrow>
             (let msg = err_Error (lb_quote lb) e
              in if contains msg ''not found'' then writeError w 404 msg else writeError w 500 msg)
         | Inr key \<Rightarrow>
             (case lb_MarshalKey lb key of
                Inl e \<Rightarrow> writeError w 500 (err_Error (lb_quote lb) e)
              | Inr data \<Rightarrow> writeRaw w data))"

text \<open>Assignments to a document, in order.\<close>

definition put_all :: "gomap \<Rightarrow> gomap \<Rightarrow> gomap" where
  "put_all kvs doc = fold (\<lambda>(k, v) d. map_put k v d) kvs doc"

definition discoveryDocument :: "Server \<Rightarrow> algorithm list \<Rightarrow> gomap" where
  "discoveryDocument s algorithms =
     (let base = trim_suffix (s_Issuer s) ''/'';
          doc0 = put_all (s_discoveryExtra s) [];
          doc1 = put_all
            [(''subject_types_supported'', VStrs [''public'']),
             (''id_token_signing_alg_values_supported'', VStrs algorithms),
             (''response_types_supported'', VStrs [''token'']),
             (''grant_types_supported'', VStrs [''client_credentials'']),
             (''token_endpoint_auth_methods_supported'', VStrs [''client_secret_basic'', ''client_secret_post'', ''none'']),
             (''claims_supported'', VStrs [''iss'', ''sub'', ''aud'', ''exp'', ''nbf'', ''iat'', ''jti'', ''scope'', ''client_id''])] doc0;
          doc2 = (if s_scopes s \<noteq> [] then map_put ''scopes_supported'' (VStrs (s_scopes s)) doc1 else doc1)
      in put_all
           [(''issuer'', VStr (s_Issuer s)),
            (''jwks_uri'', VStr (base @ ''/.well-known/jwks.json'')),
            (''token_endpoint'', VStr (base @ ''/oauth/token'')),
            (''introspection_endpoint'', VStr (base @ ''/introspect''))] doc2)"

definition handleDiscovery :: "Server \<Rightarrow> 'j call \<Rightarrow> headers \<Rightarrow> http_response" where
  "handleDiscovery s c w = writeJSON w 200 (VMap (discoveryDocument s (view_EnabledAlgorithms (c_view c))))"

definition handleAuthorizationServerMetadata :: "Server \<Rightarrow> 'j call \<Rightarrow> headers \<Rightarrow> http_response" where
  "handleAuthorizationServerMetadata s c w = writeJSON w 200 (VMap (discoveryDocument s (view_EnabledAlgorithms (c_view c))))"

end
