(* ===== verification/Config.thy ===== *)
theory Config
  imports GoFlag Server
begin

text \<open>
  The command \<open>jwtoken-tester\<close>, first half (\<open>cmd/jwtoken-tester/main.go\<close>): settings from the
  environment and from flags, starting the server, printing one token, the health probe.
\<close>

section \<open>The environment\<close>

definition envStr :: "os_env \<Rightarrow> string \<Rightarrow> string \<Rightarrow> string" where
  "envStr en key def = (let v = os_Getenv en key in if v \<noteq> [] then v else def)"

definition envDur :: "os_env \<Rightarrow> string \<Rightarrow> int \<Rightarrow> int" where
  "envDur en key def =
     (let v = os_Getenv en key
      in if v = [] then def else case parse_duration v of None \<Rightarrow> def | Some d \<Rightarrow> d)"

definition envFloat :: "os_env \<Rightarrow> string \<Rightarrow> gofloat \<Rightarrow> gofloat" where
  "envFloat en key def =
     (let v = os_Getenv en key
      in if v = [] then def else case ParseFloat en v of Inl _ \<Rightarrow> def | Inr f \<Rightarrow> f)"

definition envInt :: "os_env \<Rightarrow> string \<Rightarrow> int \<Rightarrow> int" where
  "envInt en key def =
     (let v = os_Getenv en key
      in if v = [] then def else case parse_int ''Atoi'' v of Inl _ \<Rightarrow> def | Inr i \<Rightarrow> i)"

text \<open>Comma-separated names, trimmed, without empty ones.\<close>

definition parseAlgorithms :: "string \<Rightarrow> algorithm list" where
  "parseAlgorithms s = filter (\<lambda>alg. alg \<noteq> []) (map trim_space (split_on CHR '','' s))"

definition parseScopes :: "string \<Rightarrow> string list" where
  "parseScopes raw = filter (\<lambda>scope. scope \<noteq> []) (map trim_space (split_on CHR '','' raw))"

section \<open>Settings of the server\<close>

record serveConfig =
  sc_Listen :: string
  sc_Issuer :: string
  sc_DefaultTTL :: int
  sc_MaxTTL :: int
  sc_RotationPeriod :: int
  sc_GracePeriod :: int
  sc_Algorithms :: string
  sc_RateLimitRPS :: gofloat
  sc_RateLimitBurst :: int
  sc_Audience :: string
  sc_Scopes :: string
  sc_DiscoveryExtraJSON :: string

definition defaultServeConfig :: "os_env \<Rightarrow> serveConfig" where
  "defaultServeConfig en =
     \<lparr>sc_Listen = envStr en ''LISTEN'' ''127.0.0.1:8080'',
      sc_Issuer = envStr en ''ISSUER'' ''http://127.0.0.1:8080'',
      sc_DefaultTTL = envDur en ''DEFAULT_TTL'' Hour,
      sc_MaxTTL = envDur en ''MAX_TTL'' (24 * Hour),
      sc_RotationPeriod = envDur en ''ROTATION_INTERVAL'' (30 * Minute),
      sc_GracePeriod = envDur en ''GRACE_PERIOD'' (25 * Hour),
      sc_Algorithms = envStr en ''ALGORITHMS'' ''RS256,ES256,EdDSA'',
      sc_RateLimitRPS = envFloat en ''RATE_LIMIT_RPS'' (Fin 100),
      sc_RateLimitBurst = envInt en ''RATE_LIMIT_BURST'' 200,
      sc_Audience = envStr en ''AUDIENCE'' [],
      sc_Scopes = envStr en ''SCOPES'' [],
      sc_DiscoveryExtraJSON = envStr en ''DISCOVERY_EXTRA_JSON'' []\<rparr>"

definition registerServeFlags :: "os_env \<Rightarrow> serveConfig flag list" where
  "registerServeFlags en =
     [StringVar ''listen'' (\<lambda>v c. c\<lparr>sc_Listen := v\<rparr>),
      StringVar ''issuer'' (\<lambda>v c. c\<lparr>sc_Issuer := v\<rparr>),
      DurationVar ''default-ttl'' (\<lambda>v c. c\<lparr>sc_DefaultTTL := v\<rparr>),
      DurationVar ''max-ttl'' (\<lambda>v c. c\<lparr>sc_MaxTTL := v\<rparr>),
      DurationVar ''rotation-interval'' (\<lambda>v c. c\<lparr>sc_RotationPeriod := v\<rparr>),
      DurationVar ''grace-period'' (\<lambda>v c. c\<lparr>sc_GracePeriod := v\<rparr>),
      StringVar ''algorithms'' (\<lambda>v c. c\<lparr>sc_Algorithms := v\<rparr>),
      Float64Var en ''rate-limit-rps'' (\<lambda>v c. c\<lparr>sc_RateLimitRPS := v\<rparr>),
      IntVar ''rate-limit-burst'' (\<lambda>v c. c\<lparr>sc_RateLimitBurst := v\<rparr>),
      StringVar ''audience'' (\<lambda>v c. c\<lparr>sc_Audience := v\<rparr>),
      StringVar ''scopes'' (\<lambda>v c. c\<lparr>sc_Scopes := v\<rparr>),
      StringVar ''discovery-extra-json'' (\<lambda>v c. c\<lparr>sc_DiscoveryExtraJSON := v\<rparr>)]"

text \<open>\<open>json.Unmarshal\<close> into a nil map: \<open>None\<close> is the map that stays nil.\<close>

definition unmarshal_map :: "gerr + json \<Rightarrow> gerr + gomap option" where
  "unmarshal_map j =
     (case j of
        Inl e \<Rightarrow> Inl e
      | Inr JNull \<Rightarrow> Inr None
      | Inr (JObj ms) \<Rightarrow> Inr (Some (any_members ms []))
      | Inr v \<Rightarrow> Inl (top_type_error v ''map[string]interface {}''))"

definition parseDiscoveryExtra :: "os_env \<Rightarrow> string \<Rightarrow> gerr + gomap option" where
  "parseDiscoveryExtra en raw =
     (if trim_space raw = [] then Inr None
      else case unmarshal_map (json_parse en raw) of
        Inl e \<Rightarrow> Inl (wrapf [Lit ''DISCOVERY_EXTRA_JSON must be a JSON object: ''] e [])
      | Inr None \<Rightarrow> Inl (errors_New ''DISCOVERY_EXTRA_JSON must be a JSON object, not null'')
      | Inr (Some extra) \<Rightarrow> Inr (Some extra))"

definition loadServeConfig :: "os_env \<Rightarrow> string list \<Rightarrow> gerr + serveConfig" where
  "loadServeConfig en args =
     (case flag_parse (registerServeFlags en) args (defaultServeConfig en) of
        (_, Inl e) \<Rightarrow> Inl e
      | (cfg, Inr _) \<Rightarrow>
          (case parseDiscoveryExtra en (sc_DiscoveryExtraJSON cfg) of Inl e \<Rightarrow> Inl e | Inr _ \<Rightarrow> Inr cfg))"

section \<open>The version\<close>

record build_info =
  bi_MainVersion :: string
  bi_Settings :: "(string \<times> string) list"

text \<open>The last setting of a name counts.\<close>

definition setting :: "string \<Rightarrow> build_info \<Rightarrow> string" where
  "setting key info = (case map_of (rev (bi_Settings info)) key of None \<Rightarrow> [] | Some v \<Rightarrow> v)"

definition vcsRevision :: "build_info \<Rightarrow> string" where
  "vcsRevision info =
     (let revision = setting ''vcs.revision'' info; modified = (setting ''vcs.modified'' info = ''true'')
      in if revision = [] then []
         else (if length revision > 7 then take 7 revision else revision) @ (if modified then ''-dirty'' else []))"

definition build_version :: "build_info option \<Rightarrow> string" where
  "build_version bi =
     (case bi of
        None \<Rightarrow> ''0.0.0-unknown''
      | Some info \<Rightarrow>
          (let v = trim_prefix (bi_MainVersion info) ''v''
           in if v \<noteq> [] \<and> v \<noteq> ''(devel)'' then v
              else if vcsRevision info \<noteq> [] then ''0.0.0-'' @ vcsRevision info else ''0.0.0-unknown''))"

definition resolveVersion :: "os_env \<Rightarrow> string \<Rightarrow> build_info option \<Rightarrow> string" where
  "resolveVersion en Version bi =
     (let v = trim_space Version
      in if v \<noteq> [] \<and> v \<noteq> ''dev'' then v
         else case os_ReadFile en ''VERSION'' of
           Inr bytes \<Rightarrow> if trim_space bytes \<noteq> [] then trim_space bytes else build_version bi
         | Inl _ \<Rightarrow> build_version bi)"

section \<open>Addresses\<close>

definition has_char :: "string \<Rightarrow> char \<Rightarrow> bool" where
  "has_char s ch = List.member s ch"

text \<open>\<open>net.SplitHostPort\<close>; the text of its errors is not used.\<close>

definition SplitHostPort :: "string \<Rightarrow> (string \<times> string) option" where
  "SplitHostPort s =
     (if \<not> has_char s CHR '':'' then None
      else
        (let port = rev (takeWhile (\<lambda>ch. ch \<noteq> CHR '':'') (rev s));
             front_part = take (length s - Suc (length port)) s
         in if hd s = CHR ''['' then
              (let host = takeWhile (\<lambda>ch. ch \<noteq> CHR '']'') (tl s)
               in if \<not> has_char s CHR '']'' \<or> length host + 2 \<noteq> length front_part
                     \<or> has_char (drop 1 s) CHR ''['' \<or> has_char (drop (length host + 2) s) CHR '']'' then None
                  else Some (host, port))
            else if has_char front_part CHR '':'' \<or> has_char s CHR ''['' \<or> has_char s CHR '']'' then None
            else Some (front_part, port)))"

definition JoinHostPort :: "string \<Rightarrow> string \<Rightarrow> string" where
  "JoinHostPort host port = (if has_char host CHR '':'' then ''['' @ host @ '']:'' @ port else host @ '':'' @ port)"

definition healthcheckURL :: "string \<Rightarrow> string" where
  "healthcheckURL listen =
     (case SplitHostPort listen of
        None \<Rightarrow> ''http://127.0.0.1:8080/healthz''
      | Some (host, port) \<Rightarrow>
          ''http://'' @ JoinHostPort (if List.member [[], ''0.0.0.0'', ''::''] host then ''127.0.0.1'' else host) port @ ''/healthz'')"

text \<open>The host the warning names, if there is one.\<close>

definition warnIfRemoteBind :: "string \<Rightarrow> string option" where
  "warnIfRemoteBind addr =
     (let host = (case SplitHostPort addr of None \<Rightarrow> addr | Some (h, _) \<Rightarrow> h)
      in if List.member [[], ''localhost'', ''127.0.0.1'', ''::1''] host then None else Some host)"

section \<open>The commands\<close>

text \<open>
  \<open>runServe\<close> up to the point where it listens: the ring, the factory in the server, the visitors
  and the address, or the error it logs before it exits with 1.
\<close>

definition runServe_setup ::
    "'j jwx \<Rightarrow> crypto_draw \<Rightarrow> os_env \<Rightarrow> string \<Rightarrow> build_info option \<Rightarrow> string list \<Rightarrow>
     gerr + (serveConfig \<times> 'j KeyRing \<times> Server \<times> 'l visitors)" where
  "runServe_setup lib dr en Version bi args =
     (case loadServeConfig en args of
        Inl e \<Rightarrow> Inl e
      | Inr cfg \<Rightarrow>
          (case keyring_New lib dr (sc_GracePeriod cfg) (parseAlgorithms (sc_Algorithms cfg)) of
             Inl e \<Rightarrow> Inl e
           | Inr ring \<Rightarrow>
               (case parseDiscoveryExtra en (sc_DiscoveryExtraJSON cfg) of
                  Inl e \<Rightarrow> Inl e
                | Inr discoveryExtra \<Rightarrow>
                    (let factory = NewFactory (sc_Issuer cfg) (sc_DefaultTTL cfg) (sc_MaxTTL cfg);
                         (srv, vs) = server_New factory (sc_Issuer cfg) (resolveVersion en Version bi) (sc_RateLimitRPS cfg)
                           (sc_RateLimitBurst cfg)
                           [Some (WithLogger (Some ''stdout'')), Some (WithAudience (sc_Audience cfg)),
                            Some (WithScopes (parseScopes (sc_Scopes cfg))), Some (WithDiscoveryExtra discoveryExtra)]
                     in Inr (cfg, ring, srv, vs)))))"

record printTokenConfig =
  pt_Issuer :: string
  pt_DefaultTTL :: int
  pt_MaxTTL :: int
  pt_Algorithms :: string
  pt_Claims :: string
  pt_Alg :: string
  pt_Headers :: string

definition printTokenDefaults :: "os_env \<Rightarrow> printTokenConfig" where
  "printTokenDefaults en =
     \<lparr>pt_Issuer = envStr en ''ISSUER'' ''http://127.0.0.1:8080'', pt_DefaultTTL = envDur en ''DEFAULT_TTL'' Hour,
      pt_MaxTTL = envDur en ''MAX_TTL'' (24 * Hour), pt_Algorithms = envStr en ''ALGORITHMS'' ''RS256,ES256,EdDSA'',
      pt_Claims = [], pt_Alg = ''RS256'', pt_Headers = []\<rparr>"

definition printTokenFlags :: "printTokenConfig flag list" where
  "printTokenFlags =
     [StringVar ''issuer'' (\<lambda>v c. c\<lparr>pt_Issuer := v\<rparr>), DurationVar ''default-ttl'' (\<lambda>v c. c\<lparr>pt_DefaultTTL := v\<rparr>),
      DurationVar ''max-ttl'' (\<lambda>v c. c\<lparr>pt_MaxTTL := v\<rparr>), StringVar ''algorithms'' (\<lambda>v c. c\<lparr>pt_Algorithms := v\<rparr>),
      StringVar ''claims'' (\<lambda>v c. c\<lparr>pt_Claims := v\<rparr>), StringVar ''alg'' (\<lambda>v c. c\<lparr>pt_Alg := v\<rparr>),
      StringVar ''headers'' (\<lambda>v c. c\<lparr>pt_Headers := v\<rparr>)]"

text \<open>A flag that holds a JSON object, or nothing.\<close>

definition object_flag :: "os_env \<Rightarrow> string \<Rightarrow> gerr + gomap" where
  "object_flag en raw =
     (if raw = [] then Inr []
      else map_sum id (\<lambda>m. case m of None \<Rightarrow> [] | Some kvs \<Rightarrow> kvs) (unmarshal_map (json_parse en raw)))"

text \<open>The exit code and what is printed: the token, or the error that is logged.\<close>

definition runPrintToken ::
    "'j jwx \<Rightarrow> ('t, 'h, 'j) jwt_lib \<Rightarrow> runtime \<Rightarrow> crypto_draw \<Rightarrow> gotime \<Rightarrow> os_env \<Rightarrow> string list \<Rightarrow> int \<times> (gerr + string)" where
  "runPrintToken lib jwt rt dr clock en args =
     (case flag_parse printTokenFlags args (printTokenDefaults en) of
        (_, Inl e) \<Rightarrow> (if errors_Is e ErrHelp then 0 else 2, Inl e)
      | (cfg, Inr _) \<Rightarrow>
          (let enabledAlgs = parseAlgorithms (pt_Algorithms cfg) in
           if enabledAlgs = [] then (1, Inl (errors_New ''no algorithms enabled''))
           else case keyring_New lib dr (pt_MaxTTL cfg) enabledAlgs of
             Inl e \<Rightarrow> (1, Inl e)
           | Inr ring \<Rightarrow>
               (case object_flag en (pt_Claims cfg) of
                  Inl e \<Rightarrow> (1, Inl e)
                | Inr claims \<Rightarrow>
                    (case object_flag en (pt_Headers cfg) of
                       Inl e \<Rightarrow> (1, Inl e)
                     | Inr headers \<Rightarrow>
                         (case Mint rt jwt (Signer ring) (NewFactory (pt_Issuer cfg) (pt_DefaultTTL cfg) (pt_MaxTTL cfg)) clock
                                 (Some \<lparr>req_Claims = claims, req_Alg = pt_Alg cfg, req_Headers = headers\<rparr>) of
                            Inl e \<Rightarrow> (1, Inl e)
                          | Inr resp \<Rightarrow> (0, Inr (AccessToken resp)))))))"

record healthConfig =
  hc_url :: string
  hc_timeout :: int

definition healthFlags :: "healthConfig flag list" where
  "healthFlags = [StringVar ''url'' (\<lambda>v c. c\<lparr>hc_url := v\<rparr>), DurationVar ''timeout'' (\<lambda>v c. c\<lparr>hc_timeout := v\<rparr>)]"

text \<open>\<open>get\<close> is the HTTP client: the status of the answer, or an error, for a timeout and a URL.\<close>

definition runHealthcheck :: "os_env \<Rightarrow> (int \<Rightarrow> string \<Rightarrow> gerr + int) \<Rightarrow> string list \<Rightarrow> int" where
  "runHealthcheck en get args =
     (case flag_parse healthFlags args \<lparr>hc_url = [], hc_timeout = 3 * Second\<rparr> of
        (_, Inl e) \<Rightarrow> (if errors_Is e ErrHelp then 0 else 2)
      | (cfg, Inr _) \<Rightarrow>
          (let target = (if hc_url cfg = [] then healthcheckURL (envStr en ''LISTEN'' ''127.0.0.1:8080'') else hc_url cfg)
           in case get (hc_timeout cfg) target of
                Inl _ \<Rightarrow> 1
              | Inr status \<Rightarrow> if status \<noteq> 200 then 1 else 0))"

end
