(* ===== verification/ServerHandlers.thy ===== *)
theory ServerHandlers
  imports Server
begin

text \<open>
  The endpoints that mint and check tokens, the routing, and the middleware that every request
  goes through. A handler returns its response and the audit events it logs; \<open>None\<close> is a panic.
\<close>

section \<open>Choices shared by the token endpoints\<close>

text \<open>The error classes of minting, as the three switches of the handlers use them.\<close>

definition client_error :: "gerr \<Rightarrow> bool" where
  "client_error e = (errors_Is e ErrInvalidRequest \<or> errors_Is e TokenFactory.ErrUnsupportedAlg \<or> errors_Is e ErrTTLTooLong)"

definition mint_status :: "gerr \<Rightarrow> int" where
  "mint_status e = (if client_error e then 400 else if errors_Is e ErrNoActiveKey then 503 else 500)"

definition not_enabled :: "string \<Rightarrow> gerr" where
  "not_enabled alg = errorf [Lit ''algorithm '', Quo alg, Lit '' is not enabled'']"

definition selectAlgorithm :: "algorithm list \<Rightarrow> string \<Rightarrow> gerr + algorithm" where
  "selectAlgorithm enabled raw =
     (let alg = trim_space raw
      in if alg \<noteq> [] then (if \<not> List.member enabled alg then Inl (not_enabled alg) else Inr alg)
         else if List.member enabled AlgRS256 then Inr AlgRS256
         else case enabled of a # _ \<Rightarrow> Inr a | [] \<Rightarrow> Inr AlgRS256)"

text \<open>The duration and whether one was given.\<close>

definition selectTTL :: "Factory \<Rightarrow> string \<Rightarrow> gerr + (int \<times> bool)" where
  "selectTTL f raw0 =
     (let raw = trim_space raw0
      in if raw = [] then Inr (0, False)
         else case parse_duration raw of
           None \<Rightarrow> Inl (errors_New ''ttl must be a non-negative Go duration'')
         | Some ttl \<Rightarrow>
             if ttl < 0 then Inl (errors_New ''ttl must be a non-negative Go duration'')
             else if MaxTTL f > 0 \<and> ttl > MaxTTL f
             then Inl (errorf [Lit (''ttl exceeds maximum allowed lifetime '' @ duration_String (MaxTTL f))])
             else Inr (ttl, True))"

definition oauthErrorCode :: "gerr \<Rightarrow> string" where
  "oauthErrorCode e =
     (if errors_Is e ErrNoActiveKey then ''temporarily_unavailable''
      else if client_error e then ''invalid_request'' else ''server_error'')"

definition normalizeScope :: "string \<Rightarrow> string" where
  "normalizeScope raw = join '' '' (GoText.fields raw)"

definition generateJTI :: "gerr + byte list \<Rightarrow> gerr + string" where
  "generateJTI rnd =
     (case rnd of
        Inl e \<Rightarrow> Inl e
      | Inr bs0 \<Rightarrow>
          (let bs1 = bs0[6 := or (and (bs0 ! 6) 15) 64];
               bs2 = bs1[8 := or (and (bs1 ! 8) 63) 128];
               e = hex_encode bs2
           in Inr (take 8 e @ ''-'' @ take 4 (drop 8 e) @ ''-'' @ take 4 (drop 12 e) @ ''-'' @
                   take 4 (drop 16 e) @ ''-'' @ drop 20 e)))"

definition response_fields :: "Response \<Rightarrow> gomap" where
  "response_fields resp =
     [(''access_token'', VStr (AccessToken resp)), (''token_type'', VStr (TokenType resp)),
      (''expires_in'', VInt64 (ExpiresIn resp))]"

section \<open>POST /token\<close>

fun decode_request :: "(string \<times> json) list \<Rightarrow> Request \<Rightarrow> gerr option \<Rightarrow> Request \<times> gerr option" where
  "decode_request [] req err = (req, err)"
| "decode_request ((k, v) # ms) req err =
     (case field_of [''claims'', ''alg'', ''headers''] k of
        None \<Rightarrow> decode_request ms req err
      | Some n \<Rightarrow>
          if n = ''claims'' then
            (let (m, e) = decode_map ''Request.claims'' v (req_Claims req)
             in decode_request ms (req\<lparr>req_Claims := m\<rparr>) (first_err err e))
          else if n = ''alg'' then
            (let (a, e) = decode_string ''Request.alg'' v (req_Alg req)
             in decode_request ms (req\<lparr>req_Alg := a\<rparr>) (first_err err e))
          else
            (let (m, e) = decode_map ''Request.headers'' v (req_Headers req)
             in decode_request ms (req\<lparr>req_Headers := m\<rparr>) (first_err err e)))"

definition decode_Request :: "json_body \<Rightarrow> gerr + Request" where
  "decode_Request body =
     (case body of
        BodyEOF \<Rightarrow> Inr empty_request
      | BodyError e \<Rightarrow> Inl e
      | BodyValue JNull \<Rightarrow> Inr empty_request
      | BodyValue (JObj ms) \<Rightarrow>
          (case decode_request ms empty_request None of (req, None) \<Rightarrow> Inr req | (req, Some e) \<Rightarrow> Inl e)
      | BodyValue v \<Rightarrow> Inl (top_type_error v ''tokenfactory.Request''))"

definition server_mint :: "('t, 'h, 'j) libs \<Rightarrow> Server \<Rightarrow> 'j call \<Rightarrow> Request \<Rightarrow> gerr + Response" where
  "server_mint lb s c req =
     Mint (lb_rt lb) (lb_jwt lb) (view_Signer (c_view c)) (s_Factory s) (c_clock c) (Some req)"

definition handleToken ::
    "('t, 'h, 'j) libs \<Rightarrow> Server \<Rightarrow> 'j call \<Rightarrow> http_request \<Rightarrow> headers \<Rightarrow> (http_response \<times> audit_event list) option" where
  "handleToken lb s c r w =
     (case decode_Request (r_Json r) of
        Inl e \<Rightarrow> Some (writeError w 400 (''invalid JSON body: '' @ err_Error (lb_quote lb) e), [])
      | Inr req \<Rightarrow>
          (case server_mint lb s c req of
             Inl e \<Rightarrow>
               Some (writeError w (mint_status e) (err_Error (lb_quote lb) e),
                 [logTokenEvent s r (c_id c) ''token_mint_failed''
                    [(''error'', VStr (err_Error (lb_quote lb) e)), (''requested_alg'', VStr (req_Alg req))]])
           | Inr resp \<Rightarrow>
               (case view_Signer (c_later c) (request_alg req) of
                  Inl _ \<Rightarrow> None
                | Inr signer \<Rightarrow>
                    Some (writeJSON w 200 (VMap (response_fields resp)),
                      [logTokenEvent s r (c_id c) ''token_minted''
                         [(''alg'', VStr (request_alg req)), (''kid'', VStr (Kid (lb_jwx lb) signer)),
                          (''expires_in'', VInt64 (ExpiresIn resp)),
                          (''has_custom_claims'', VBool (req_Claims req \<noteq> [])),
                          (''has_custom_headers'', VBool (req_Headers req \<noteq> []))]]))))"

section \<open>POST /verify\<close>

record verifyRequest =
  vr_Token :: string
  vr_Aud :: "string list"
  vr_Alg :: "string list option"
  vr_Leeway :: string

text \<open>The method \<open>UnmarshalJSON\<close> of \<open>audience\<close>.\<close>

definition audience_UnmarshalJSON :: "json \<Rightarrow> gerr + string list" where
  "audience_UnmarshalJSON data =
     (case data of
        JNull \<Rightarrow> Inr []
      | JStr single \<Rightarrow> Inr [single]
      | JArr vs \<Rightarrow>
          (case decode_strings [] vs of
             (many, None) \<Rightarrow> Inr many
           | (many, Some _) \<Rightarrow> Inl (errors_New ''aud must be a string or an array of strings''))
      | _ \<Rightarrow> Inl (errors_New ''aud must be a string or an array of strings''))"

text \<open>
  Decoding with \<open>DisallowUnknownFields\<close>: \<open>Inl\<close> is an error that ends the decoding at once, and it
  wins over one that was only remembered.
\<close>

fun decode_verify :: "(string \<times> json) list \<Rightarrow> verifyRequest \<Rightarrow> gerr option \<Rightarrow> gerr + verifyRequest" where
  "decode_verify [] req err = (case err of None \<Rightarrow> Inr req | Some e \<Rightarrow> Inl e)"
| "decode_verify ((k, v) # ms) req err =
     (case field_of [''token'', ''aud'', ''alg'', ''leeway''] k of
        None \<Rightarrow> decode_verify ms req (first_err err (Some (errorf [Lit ''json: unknown field '', Quo k])))
      | Some n \<Rightarrow>
          if n = ''token'' then
            (let (t, e) = decode_string ''verifyRequest.token'' v (vr_Token req)
             in decode_verify ms (req\<lparr>vr_Token := t\<rparr>) (first_err err e))
          else if n = ''aud'' then
            (case audience_UnmarshalJSON v of
               Inl e \<Rightarrow> Inl e
             | Inr a \<Rightarrow> decode_verify ms (req\<lparr>vr_Aud := a\<rparr>) err)
          else if n = ''alg'' then
            (case v of
               JNull \<Rightarrow> decode_verify ms (req\<lparr>vr_Alg := None\<rparr>) err
             | JArr vs \<Rightarrow>
                 (let (as, e) = decode_strings ''verifyRequest.alg'' vs
                  in decode_verify ms (req\<lparr>vr_Alg := Some as\<rparr>) (first_err err e))
             | _ \<Rightarrow> decode_verify ms req (first_err err (Some (type_error v ''verifyRequest.alg'' ''[]string''))))
          else
            (let (l, e) = decode_string ''verifyRequest.leeway'' v (vr_Leeway req)
             in decode_verify ms (req\<lparr>vr_Leeway := l\<rparr>) (first_err err e)))"

definition empty_verifyRequest :: verifyRequest where
  "empty_verifyRequest = \<lparr>vr_Token = [], vr_Aud = [], vr_Alg = None, vr_Leeway = []\<rparr>"

definition decode_verifyRequest :: "json_body \<Rightarrow> gerr + verifyRequest" where
  "decode_verifyRequest body =
     (case body of
        BodyEOF \<Rightarrow> Inl (errors_New ''EOF'')
      | BodyError e \<Rightarrow> Inl e
      | BodyValue JNull \<Rightarrow> Inr empty_verifyRequest
      | BodyValue (JObj ms) \<Rightarrow> decode_verify ms empty_verifyRequest None
      | BodyValue v \<Rightarrow> Inl (top_type_error v ''server.verifyRequest''))"

definition parse_leeway :: "string \<Rightarrow> int option" where
  "parse_leeway s =
     (if s = [] then Some 0
      else case parse_duration s of None \<Rightarrow> None | Some d \<Rightarrow> if d < 0 then None else Some d)"

definition server_verify :: "('t, 'h, 'j) libs \<Rightarrow> Server \<Rightarrow> 'j call \<Rightarrow> string \<Rightarrow> string list \<Rightarrow> string list \<Rightarrow> int \<Rightarrow> gerr + Verdict" where
  "server_verify lb s c token allowed aud leeway =
     Verify (lb_j5 lb) (c_clock c)
       \<lparr>in_Token = token, in_Keys = Some (RingKeySource (lb_jwx lb) (Some (c_view c))), in_ExpectedIssuer = s_Issuer s,
        in_AllowedAlgs = allowed, in_Audience = aud, in_Leeway = leeway, in_Now = c_clock c\<rparr>"

text \<open>The JSON of a verdict; empty fields other than \<open>valid\<close> are left out.\<close>

definition verdict_json :: "(string \<Rightarrow> string) \<Rightarrow> Verdict \<Rightarrow> gomap" where
  "verdict_json q v =
     (let str = (\<lambda>n s. if s = [] then [] else [(n, VStr s)]); obj = (\<lambda>n m. if m = [] then [] else [(n, VMap m)])
      in [(''valid'', VBool (v_Valid v))] @ str ''reason'' (v_Reason v) @
         str ''error'' (concat (map (render_part q) (v_Error v))) @ obj ''header'' (v_Header v) @
         obj ''claims'' (v_Claims v) @ obj ''unverified_claims'' (v_UnverifiedClaims v) @ str ''kid'' (v_Kid v) @
         str ''kid_status'' (v_KidStatus v) @ str ''alg'' (v_Alg v))"

definition verify_attrs :: "Verdict \<Rightarrow> gomap" where
  "verify_attrs v =
     [(''valid'', VBool (v_Valid v))] @ (if \<not> v_Valid v then [(''reason'', VStr (v_Reason v))] else []) @
     (if v_Kid v \<noteq> [] then [(''kid'', VStr (v_Kid v))] else []) @
     (if v_KidStatus v \<noteq> [] then [(''kid_status'', VStr (v_KidStatus v))] else []) @
     (if v_Alg v \<noteq> [] then [(''alg'', VStr (v_Alg v))] else [])"

definition handleVerify ::
    "('t, 'h, 'j) libs \<Rightarrow> Server \<Rightarrow> 'j call \<Rightarrow> http_request \<Rightarrow> headers \<Rightarrow> http_response \<times> audit_event list" where
  "handleVerify lb s c r w0 =
     (let w = map_put ''Cache-Control'' ''no-store'' w0
      in case decode_verifyRequest (r_Json r) of
           Inl e \<Rightarrow> (writeError w 400 (''invalid JSON body: '' @ err_Error (lb_quote lb) e), [])
         | Inr req \<Rightarrow>
             (let tokenValue = trim_space (vr_Token req)
              in if tokenValue = [] then (writeError w 400 ''token is required'', [])
                 else case parse_leeway (vr_Leeway req) of
                   None \<Rightarrow> (writeError w 400 ''leeway must be a non-negative Go duration'', [])
                 | Some leeway \<Rightarrow>
                     (let enabled = view_EnabledAlgorithms (c_view c);
                          algs = (case vr_Alg req of None \<Rightarrow> [] | Some as \<Rightarrow> as)
                      in if vr_Alg req = Some [] then (writeError w 400 ''alg must not be empty'', [])
                         else case find (\<lambda>alg. alg = [] \<or> \<not> List.member enabled alg) algs of
                           Some alg \<Rightarrow> (writeError w 400 (err_Error (lb_quote lb) (not_enabled alg)), [])
                         | None \<Rightarrow>
                             (case server_verify lb s c tokenValue algs (vr_Aud req) leeway of
                                Inl e \<Rightarrow>
                                  (writeError w 500 ''verification failed'',
                                   [logTokenEvent s r (c_id c) ''token_verified''
                                      [(''valid'', VBool False), (''error'', VStr ''verification failed'')]])
                              | Inr verdict \<Rightarrow>
                                  (writeJSON w 200 (VMap (verdict_json (lb_quote lb) verdict)),
                                   [logTokenEvent s r (c_id c) ''token_verified'' (verify_attrs verdict)])))))"

section \<open>POST /oauth/token\<close>

definition oauthFormContentType :: string where
  "oauthFormContentType = ''application/x-www-form-urlencoded''"

definition not_a_form :: string where
  "not_a_form = ''request body must be application/x-www-form-urlencoded''"

text \<open>The form the handlers read afterwards.\<close>

definition parseOAuthForm :: "http_request \<Rightarrow> gerr + (string \<times> string list) list" where
  "parseOAuthForm r =
     (case r_MediaType r of
        Inl _ \<Rightarrow> Inl (errors_New not_a_form)
      | Inr mediaType \<Rightarrow>
          if mediaType \<noteq> oauthFormContentType then Inl (errors_New not_a_form) else r_PostForm r)"

definition oauthClientID :: "http_request \<Rightarrow> (string \<times> string list) list \<Rightarrow> string" where
  "oauthClientID r form =
     (case r_BasicUser r of
        Some username \<Rightarrow>
          if trim_space username \<noteq> [] then trim_space username else trim_space (values_Get form ''client_id'')
      | None \<Rightarrow> trim_space (values_Get form ''client_id''))"

definition logOAuthMintFailure :: "Server \<Rightarrow> http_request \<Rightarrow> string \<Rightarrow> string \<Rightarrow> gomap \<Rightarrow> audit_event" where
  "logOAuthMintFailure s r reqid code attrs =
     logTokenEvent s r reqid ''oauth_token_mint_failed'' (map_put ''error'' (VStr code) attrs)"

definition put_if :: "bool \<Rightarrow> string \<Rightarrow> goval \<Rightarrow> gomap \<Rightarrow> gomap" where
  "put_if b n v m = (if b then map_put n v m else m)"

definition oauth_claims :: "Server \<Rightarrow> string \<Rightarrow> string \<Rightarrow> string \<Rightarrow> int \<times> bool \<Rightarrow> gomap" where
  "oauth_claims s clientID scope jti t =
     put_if (snd t) ''exp'' (VStr (duration_String (fst t)))
       (put_if (s_audience s \<noteq> []) ''aud'' (VStr (s_audience s))
         (put_if (scope \<noteq> []) ''scope'' (VStr scope)
           [(''sub'', VStr clientID), (''client_id'', VStr clientID), (''jti'', VStr jti)]))"

text \<open>The second half of the handler: minting for a request that passed the checks.\<close>

definition oauth_issue ::
    "('t, 'h, 'j) libs \<Rightarrow> Server \<Rightarrow> 'j call \<Rightarrow> http_request \<Rightarrow> headers \<Rightarrow> algorithm \<Rightarrow> string \<Rightarrow> gomap \<Rightarrow>
     http_response \<times> audit_event list" where
  "oauth_issue lb s c r w alg scope claims =
     (case server_mint lb s c \<lparr>req_Claims = claims, req_Alg = alg, req_Headers = []\<rparr> of
        Inl e \<Rightarrow>
          (if client_error e then writeOAuthError w 400 ''invalid_request'' (err_Error (lb_quote lb) e)
           else if errors_Is e ErrNoActiveKey
           then writeOAuthError w 503 ''temporarily_unavailable'' ''no active signing key''
           else writeOAuthError w 500 ''server_error'' ''token minting failed'',
           [logOAuthMintFailure s r (c_id c) (oauthErrorCode e) [(''alg'', VStr alg), (''scope'', VStr scope)]])
      | Inr resp \<Rightarrow>
          (writeJSON w 200 (VMap (put_if (scope \<noteq> []) ''scope'' (VStr scope) (response_fields resp))),
           [logTokenEvent s r (c_id c) ''oauth_token_minted''
              [(''alg'', VStr alg), (''scope'', VStr scope), (''expires_in'', VInt64 (ExpiresIn resp))]]))"

text \<open>One refusal of the handler: the logged code with its attributes, and the answer.\<close>

definition oauth_refuse ::
    "Server \<Rightarrow> 'j call \<Rightarrow> http_request \<Rightarrow> headers \<Rightarrow> int \<Rightarrow> string \<Rightarrow> gomap \<Rightarrow> string \<Rightarrow> http_response \<times> audit_event list" where
  "oauth_refuse s c r w status code attrs description =
     (writeOAuthError w status code description, [logOAuthMintFailure s r (c_id c) code attrs])"

definition handleOAuthClientCredentialsToken ::
    "('t, 'h, 'j) libs \<Rightarrow> Server \<Rightarrow> 'j call \<Rightarrow> http_request \<Rightarrow> headers \<Rightarrow> http_response \<times> audit_event list" where
  "handleOAuthClientCredentialsToken lb s c r w0 =
     (let w = setNoStore w0 in
      case parseOAuthForm r of
        Inl _ \<Rightarrow> oauth_refuse s c r w 400 ''invalid_request'' [] not_a_form
      | Inr form \<Rightarrow>
     (let grantType = trim_space (values_Get form ''grant_type'') in
      if grantType = [] then oauth_refuse s c r w 400 ''invalid_request'' [] ''grant_type is required''
      else if grantType \<noteq> ''client_credentials''
      then oauth_refuse s c r w 400 ''unsupported_grant_type'' [(''grant_type'', VStr grantType)]
             ''only client_credentials is supported''
      else
     (let clientID = oauthClientID r form in
      if clientID = [] then oauth_refuse s c r w 400 ''invalid_request'' [] ''client_id is required''
      else
     (let scope = normalizeScope (values_Get form ''scope'') in
      case selectAlgorithm (view_EnabledAlgorithms (c_view c)) (values_Get form ''alg'') of
        Inl e \<Rightarrow> oauth_refuse s c r w 400 ''invalid_request'' [(''alg'', VStr (values_Get form ''alg''))] (err_Error (lb_quote lb) e)
      | Inr alg \<Rightarrow>
     (case selectTTL (s_Factory s) (values_Get form ''ttl'') of
        Inl e \<Rightarrow> oauth_refuse s c r w 400 ''invalid_request'' [(''ttl'', VStr (values_Get form ''ttl''))] (err_Error (lb_quote lb) e)
      | Inr t \<Rightarrow>
     (case generateJTI (c_jti c) of
        Inl _ \<Rightarrow> oauth_refuse s c r w 500 ''server_error'' [] ''could not generate token ID''
      | Inr jti \<Rightarrow> oauth_issue lb s c r w alg scope (oauth_claims s clientID scope jti t)))))))"

section \<open>POST /introspect\<close>

definition introspection_response :: "gomap \<Rightarrow> gomap" where
  "introspection_response claims =
     map_put ''token_type'' (VStr ''Bearer'') (map_put ''active'' (VBool True) (put_all claims []))"

definition handleIntrospect ::
    "('t, 'h, 'j) libs \<Rightarrow> Server \<Rightarrow> 'j call \<Rightarrow> http_request \<Rightarrow> headers \<Rightarrow> http_response \<times> audit_event list" where
  "handleIntrospect lb s c r w0 =
     (let w = setNoStore w0 in
      case parseOAuthForm r of
        Inl _ \<Rightarrow> (writeOAuthError w 400 ''invalid_request'' not_a_form, [])
      | Inr form \<Rightarrow>
     (let tokenValue = trim_space (values_Get form ''token'');
          log = logTokenEvent s r (c_id c) ''token_introspected'' in
      if tokenValue = []
      then (writeOAuthError w 400 ''invalid_request'' ''token is required'',
            [log [(''active'', VBool False), (''reason'', VStr ''missing_token'')]])
      else
     (case server_verify lb s c tokenValue [] [] 0 of
        Inl e \<Rightarrow>
          (writeOAuthError w 500 ''server_error'' ''verification failed'',
           [log [(''active'', VBool False), (''reason'', VStr ''error'')]])
      | Inr verdict \<Rightarrow>
          (if \<not> v_Valid verdict
           then (writeJSON w 200 (VMap [(''active'', VBool False)]),
                 [log [(''active'', VBool False), (''reason'', VStr (v_Reason verdict))]])
           else (writeJSON w 200 (VMap (introspection_response (v_Claims verdict))),
                 [log [(''active'', VBool True)]])))))"

section \<open>POST /v2/oauth/token\<close>

text \<open>The range visits the query in the order \<open>r_Query\<close> lists it.\<close>

definition oauthCapabilities :: "http_request \<Rightarrow> string list" where
  "oauthCapabilities r =
     concat (map (\<lambda>(key, vals).
         if \<not> equal_fold (trim_space key) ''scope'' then []
         else filter (\<lambda>cap. cap \<noteq> []) (concat (map (\<lambda>value. map trim_space (split_on CHR '','' value)) vals)))
       (r_Query r))"

definition v2_claims :: "string \<Rightarrow> string list \<Rightarrow> string \<Rightarrow> int \<times> bool \<Rightarrow> gomap" where
  "v2_claims clientID capabilities jti t =
     put_if (snd t) ''exp'' (VStr (duration_String (fst t)))
       [(''sub'', VStr clientID), (''aud'', VStr ''client''), (''capabilities'', VStrs capabilities),
        (''idtyp'', VStr ''app''), (''allowedResources'', VMap [(''allowedPartners'', VStrs [''partner''])]),
        (''version'', VStr ''2.0''), (''jti'', VStr jti), (''client_id'', VStr clientID)]"

definition handleOAuthToken ::
    "('t, 'h, 'j) libs \<Rightarrow> Server \<Rightarrow> 'j call \<Rightarrow> http_request \<Rightarrow> headers \<Rightarrow> http_response \<times> audit_event list" where
  "handleOAuthToken lb s c r w =
     (let clientID = trim_space (header_Get r ''X-Client-Id'');
          capabilities = oauthCapabilities r in
      if clientID = [] then (writeError w 400 ''X-Client-Id is required'', [])
      else if capabilities = [] then (writeError w 400 ''Scope is required'', [])
      else
     (case selectAlgorithm (view_EnabledAlgorithms (c_view c)) (values_Get (r_Query r) ''alg'') of
        Inl e \<Rightarrow> (writeError w 400 (err_Error (lb_quote lb) e), [])
      | Inr alg \<Rightarrow>
     (case selectTTL (s_Factory s) (values_Get (r_Query r) ''ttl'') of
        Inl e \<Rightarrow> (writeError w 400 (err_Error (lb_quote lb) e), [])
      | Inr t \<Rightarrow>
     (case generateJTI (c_jti c) of
        Inl _ \<Rightarrow> (writeError w 500 ''could not generate token ID'', [])
      | Inr jti \<Rightarrow>
     (case server_mint lb s c \<lparr>req_Claims = v2_claims clientID capabilities jti t, req_Alg = alg, req_Headers = []\<rparr> of
        Inl e \<Rightarrow>
          (writeError w (mint_status e) (err_Error (lb_quote lb) e),
           [logTokenEvent s r (c_id c) ''token_mint_failed'' [(''error'', VStr (err_Error (lb_quote lb) e))]])
      | Inr resp \<Rightarrow>
          (let kid = (case view_Signer (c_later c) alg of Inl _ \<Rightarrow> [] | Inr signer \<Rightarrow> Kid (lb_jwx lb) signer)
           in (writeJSON w 200 (VMap (response_fields resp)),
               [logTokenEvent s r (c_id c) ''token_minted''
                  [(''alg'', VStr alg), (''kid'', VStr kid), (''expires_in'', VInt64 (ExpiresIn resp))]])))))))"

end
