(* ===== verification/Cli.thy ===== *)
theory Cli
  imports Config ServerHandlers
begin

text \<open>
  The command \<open>jwtoken-tester\<close>, second half (\<open>cmd/jwtoken-tester/cli.go\<close>): decoding a token
  without checking it, verifying one against a key set from a file, a URL or a discovered issuer,
  and the dispatch of the commands. The network and the JWK library are records of functions.
\<close>

definition maxKeySourceBytes :: nat where "maxKeySourceBytes = 1048576"
definition maxRedirects :: nat where "maxRedirects = 5"

section \<open>Decoding\<close>

definition bytes_text :: "byte list \<Rightarrow> string" where
  "bytes_text bs = map (\<lambda>b. char_of (unat b)) bs"

text \<open>The error of the base64 decoder, without the position.\<close>

definition illegal_base64 :: gerr where
  "illegal_base64 = errors_New ''illegal base64 data''"

text \<open>A map that stays nil (the JSON text \<open>null\<close>) is \<open>None\<close>; it is written as \<open>null\<close> again.\<close>

definition decodeJWSPart :: "os_env \<Rightarrow> string \<Rightarrow> string \<Rightarrow> gerr + gomap option" where
  "decodeJWSPart en part name =
     (case b64_decode part of
        None \<Rightarrow> Inl (wrapf [Lit (''decoding '' @ name @ '': '')] illegal_base64 [])
      | Some raw \<Rightarrow>
          (case unmarshal_map (json_parse en (bytes_text raw)) of
             Inl e \<Rightarrow> Inl (wrapf [Lit (''decoding '' @ name @ '' JSON: '')] e [])
           | Inr value \<Rightarrow> Inr value))"

definition decodeCompactJWS :: "os_env \<Rightarrow> string \<Rightarrow> gerr + (gomap option \<times> gomap option)" where
  "decodeCompactJWS en token =
     (case split_on CHR ''.'' (trim_space token) of
        [h, p, _] \<Rightarrow>
          (case decodeJWSPart en h ''header'' of
             Inl e \<Rightarrow> Inl e
           | Inr header \<Rightarrow>
               (case decodeJWSPart en p ''payload'' of
                  Inl e \<Rightarrow> Inl e
                | Inr claims \<Rightarrow> Inr (header, claims)))
      | _ \<Rightarrow> Inl (errorf [Lit ''value is not a three-segment compact JWS'']))"

definition tokenFromArgsOrStdin :: "string list \<Rightarrow> gerr + string \<Rightarrow> gerr + string" where
  "tokenFromArgsOrStdin args stdin =
     (case args of
        [] \<Rightarrow>
          (case stdin of
             Inl e \<Rightarrow> Inl (wrapf [Lit ''reading stdin: ''] e [])
           | Inr raw \<Rightarrow>
               if trim_space raw = [] then Inl (errors_New ''no token argument or piped input'') else Inr (trim_space raw))
      | [a] \<Rightarrow> if trim_space a = [] then Inl (errors_New ''token is empty'') else Inr (trim_space a)
      | _ \<Rightarrow> Inl (errors_New ''at most one token argument is accepted''))"

text \<open>
  Output of a command: the exit code, the value or text on standard output, and the message on
  standard error. \<open>werr\<close> is the error of writing JSON to standard output.
\<close>

datatype shown = Nothing | ShownJson goval | ShownText string

record outcome =
  o_code :: int
  o_out :: shown
  o_err :: "gerr option"

definition fails :: "int \<Rightarrow> gerr \<Rightarrow> outcome" where
  "fails code e = \<lparr>o_code = code, o_out = Nothing, o_err = Some e\<rparr>"

definition map_value :: "gomap option \<Rightarrow> goval" where
  "map_value m = (case m of None \<Rightarrow> VNil | Some kvs \<Rightarrow> VMap kvs)"

definition runDecodeCommand :: "os_env \<Rightarrow> gerr option \<Rightarrow> string list \<Rightarrow> gerr + string \<Rightarrow> outcome" where
  "runDecodeCommand en werr args stdin =
     (case flag_parse ([] :: unit flag list) args () of
        (_, Inl e) \<Rightarrow> fails 1 e
      | (_, Inr rest) \<Rightarrow>
          if length rest > 1 then fails 1 (errors_New ''decode: at most one token argument is accepted'')
          else case tokenFromArgsOrStdin rest stdin of
            Inl e \<Rightarrow> fails 1 (wrapf [Lit ''decode: ''] e [])
          | Inr token \<Rightarrow>
              (case decodeCompactJWS en token of
                 Inl e \<Rightarrow> fails 1 (wrapf [Lit ''decode: ''] e [])
               | Inr (header, claims) \<Rightarrow>
                   (case werr of
                      Some e \<Rightarrow> fails 1 (wrapf [Lit ''decode: writing output: ''] e [])
                    | None \<Rightarrow> \<lparr>o_code = 0, o_out = ShownJson (VMap [(''header'', map_value header), (''claims'', map_value claims)]), o_err = None\<rparr>)))"

section \<open>Key sources\<close>

text \<open>
  The error of building a request, if there is one; one HTTP exchange: a redirect to another URL,
  or an answer with its status, status line and what reading the body up to the limit gives; and
  the resolution of a reference against a base URL.
\<close>

datatype net_answer = NetRedirect string | NetAnswer int string "gerr + string"

record net =
  net_Request :: "string \<Rightarrow> gerr option"
  net_Get :: "string \<Rightarrow> gerr + net_answer"
  net_Resolve :: "string \<Rightarrow> string \<Rightarrow> gerr + string"

fun follow :: "(string \<Rightarrow> gerr + net_answer) \<Rightarrow> nat \<Rightarrow> string \<Rightarrow> gerr + (int \<times> string \<times> (gerr + string))" where
  "follow get left url =
     (case get url of
        Inl e \<Rightarrow> Inl e
      | Inr (NetAnswer code line body) \<Rightarrow> Inr (code, line, body)
      | Inr (NetRedirect loc) \<Rightarrow>
          (case left of
             0 \<Rightarrow> Inl (errorf [Lit ''stopped after 5 redirects''])
           | Suc left' \<Rightarrow> follow get left' loc))"

declare follow.simps [simp del]

definition too_big :: "string \<Rightarrow> gerr" where
  "too_big what = errorf [Lit (what @ '' exceeds 1048576 bytes'')]"

definition fetchBytes :: "net \<Rightarrow> string \<Rightarrow> gerr + string" where
  "fetchBytes nt rawURL =
     (case net_Request nt rawURL of
        Some e \<Rightarrow> Inl (wrapf [Lit (''building request for '' @ rawURL @ '': '')] e [])
      | None \<Rightarrow>
     (case follow (net_Get nt) maxRedirects rawURL of
        Inl e \<Rightarrow> Inl (wrapf [Lit (''fetching '' @ rawURL @ '': '')] e [])
      | Inr (code, line, body) \<Rightarrow>
          if code \<noteq> 200 then Inl (errorf [Lit (''fetching '' @ rawURL @ '': '' @ line)])
          else case body of
            Inl e \<Rightarrow> Inl (wrapf [Lit (''reading '' @ rawURL @ '': '')] e [])
          | Inr raw \<Rightarrow>
              if length raw > maxKeySourceBytes then Inl (too_big (''response from '' @ rawURL)) else Inr raw))"

definition loadKeySourceBytes :: "os_env \<Rightarrow> net \<Rightarrow> string \<Rightarrow> gerr + string" where
  "loadKeySourceBytes en nt value =
     (if has_prefix value ''http://'' \<or> has_prefix value ''https://'' then fetchBytes nt value
      else case os_ReadFile en value of
        Inl e \<Rightarrow> Inl (wrapf [Lit (''reading key source '' @ value @ '': '')] e [])
      | Inr raw \<Rightarrow> if length raw > maxKeySourceBytes then Inl (too_big (''key source '' @ value)) else Inr raw)"

text \<open>The functions of the JWK library that reading a key set needs; a key may be nil.\<close>

record 'j jwk_reader =
  jr_Parse :: "string \<Rightarrow> gerr + 'j option list"
  jr_AssignKeyID :: "'j \<Rightarrow> gerr + 'j"
  jr_KeyID :: "'j \<Rightarrow> string option"
  jr_PublicKey :: "'j \<Rightarrow> gerr + 'j"
  jr_Export :: "'j \<Rightarrow> gerr + public_key"
  jr_Algorithm :: "'j \<Rightarrow> string option"

definition keyAlgorithms :: "'j jwk_reader \<Rightarrow> 'j \<Rightarrow> public_key \<Rightarrow> string list" where
  "keyAlgorithms jr key pub =
     (case jr_Algorithm jr key of
        Some (a # as) \<Rightarrow> [a # as]
      | _ \<Rightarrow>
          (case pub of
             RSAPub _ _ \<Rightarrow> [''RS256'', ''RS384'', ''RS512'', ''PS256'', ''PS384'', ''PS512'']
           | ECDSAPub curve _ _ \<Rightarrow>
               (if curve = ''P-256'' then [''ES256''] else if curve = ''P-384'' then [''ES384'']
                else if curve = ''P-521'' then [''ES512''] else [''ES256'', ''ES384'', ''ES512''])
           | Ed25519Pub _ \<Rightarrow> [''EdDSA'']))"

record jwksKeySource =
  js_keys :: "(string \<times> public_key) list"
  js_algorithms :: "string list"

text \<open>One key of the set: its id, the key and its algorithms, unless it is skipped.\<close>

definition usable_key :: "'j jwk_reader \<Rightarrow> 'j option \<Rightarrow> (string \<times> public_key \<times> string list) option" where
  "usable_key jr k0 =
     (case k0 of
        None \<Rightarrow> None
      | Some k \<Rightarrow>
          (case jr_AssignKeyID jr k of
             Inl _ \<Rightarrow> None
           | Inr key \<Rightarrow>
               (case jr_KeyID jr key of
                  None \<Rightarrow> None
                | Some kid \<Rightarrow>
                    if kid = [] then None
                    else (case jr_PublicKey jr key of
                        Inl _ \<Rightarrow> None
                      | Inr pubJWK \<Rightarrow>
                          (case jr_Export jr pubJWK of
                             Inl _ \<Rightarrow> None
                           | Inr pub \<Rightarrow> Some (kid, pub, keyAlgorithms jr key pub))))))"

definition parseJWKS :: "'j jwk_reader \<Rightarrow> string \<Rightarrow> gerr + jwksKeySource" where
  "parseJWKS jr raw =
     (case jr_Parse jr raw of
        Inl e \<Rightarrow> Inl (wrapf [Lit ''parsing JWKS: ''] e [])
      | Inr jwks \<Rightarrow>
          (let used = List.map_filter (usable_key jr) jwks;
               keys = fold (\<lambda>(kid, pub, _) m. map_put kid pub m) used []
           in if keys = [] then Inl (errors_New ''JWKS contained no usable public keys'')
              else Inr \<lparr>js_keys = keys, js_algorithms = sort (remdups (concat (map (\<lambda>(_, _, algs). algs) used)))\<rparr>))"

definition jwks_Lookup :: "jwksKeySource \<Rightarrow> string \<Rightarrow> gerr + (public_key \<times> keystatus)" where
  "jwks_Lookup s kid =
     (case map_of (js_keys s) kid of
        None \<Rightarrow> Inl (wrapf [] ErrKeyNotFound [Lit '': kid '', Quo kid])
      | Some key \<Rightarrow> Inr (key, KeyStatusActive))"

definition jwks_source :: "jwksKeySource \<Rightarrow> KeySource" where
  "jwks_source s = \<lparr>ks_Lookup = jwks_Lookup s, ks_Algorithms = js_algorithms s\<rparr>"

text \<open>The discovery document: \<open>issuer\<close> and \<open>jwks_uri\<close>.\<close>

fun decode_discovery :: "(string \<times> json) list \<Rightarrow> string \<times> string \<Rightarrow> gerr option \<Rightarrow> gerr + (string \<times> string)" where
  "decode_discovery [] doc err = (case err of None \<Rightarrow> Inr doc | Some e \<Rightarrow> Inl e)"
| "decode_discovery ((k, v) # ms) doc err =
     (case field_of [''issuer'', ''jwks_uri''] k of
        None \<Rightarrow> decode_discovery ms doc err
      | Some n \<Rightarrow>
          if n = ''issuer'' then
            (let (s, e) = decode_string ''.issuer'' v (fst doc) in decode_discovery ms (s, snd doc) (first_err err e))
          else
            (let (s, e) = decode_string ''.jwks_uri'' v (snd doc) in decode_discovery ms (fst doc, s) (first_err err e)))"

definition unmarshal_discovery :: "gerr + json \<Rightarrow> gerr + (string \<times> string)" where
  "unmarshal_discovery j =
     (case j of
        Inl e \<Rightarrow> Inl e
      | Inr JNull \<Rightarrow> Inr ([], [])
      | Inr (JObj ms) \<Rightarrow> decode_discovery ms ([], []) None
      | Inr v \<Rightarrow> Inl (top_type_error v ''struct { Issuer string; JWKSURI string }''))"

definition discovery_url :: "string \<Rightarrow> string" where
  "discovery_url issuer = trim_right_char CHR ''/'' issuer @ ''/.well-known/openid-configuration''"

definition loadDiscoveryKeySource :: "os_env \<Rightarrow> net \<Rightarrow> 'j jwk_reader \<Rightarrow> string \<Rightarrow> gerr + (jwksKeySource \<times> string)" where
  "loadDiscoveryKeySource en nt jr issuer =
     (let discoveryURL = discovery_url issuer in
      case fetchBytes nt discoveryURL of
        Inl e \<Rightarrow> Inl e
      | Inr raw \<Rightarrow>
     (case unmarshal_discovery (json_parse en raw) of
        Inl e \<Rightarrow> Inl (wrapf [Lit (''parsing discovery document '' @ discoveryURL @ '': '')] e [])
      | Inr (doc_Issuer, doc_JWKSURI) \<Rightarrow>
          if trim_space doc_JWKSURI = [] then Inl (errorf [Lit (''discovery document '' @ discoveryURL @ '' has no jwks_uri'')])
          else
     (case net_Resolve nt discoveryURL doc_JWKSURI of
        Inl e \<Rightarrow> Inl (wrapf [Lit ''resolving jwks_uri '', Quo doc_JWKSURI, Lit '': ''] e [])
      | Inr jwksURL \<Rightarrow>
     (case fetchBytes nt jwksURL of
        Inl e \<Rightarrow> Inl e
      | Inr raw2 \<Rightarrow>
     (case parseJWKS jr raw2 of
        Inl e \<Rightarrow> Inl e
      | Inr keys \<Rightarrow> Inr (keys, if doc_Issuer = [] then issuer else doc_Issuer))))))"

definition loadKeySource :: "os_env \<Rightarrow> net \<Rightarrow> 'j jwk_reader \<Rightarrow> string \<Rightarrow> string \<Rightarrow> gerr + (jwksKeySource \<times> string)" where
  "loadKeySource en nt jr jwksValue issuerValue =
     (if issuerValue \<noteq> [] then loadDiscoveryKeySource en nt jr issuerValue
      else case loadKeySourceBytes en nt jwksValue of
        Inl e \<Rightarrow> Inl e
      | Inr raw \<Rightarrow> (case parseJWKS jr raw of Inl e \<Rightarrow> Inl e | Inr keys \<Rightarrow> Inr (keys, [])))"

section \<open>Verifying\<close>

record verifyConfig =
  vc_JWKS :: string
  vc_Issuer :: string
  vc_Audience :: string
  vc_Algs :: "string list"
  vc_Leeway :: int
  vc_JSON :: bool

definition verifyFlags :: "verifyConfig flag list" where
  "verifyFlags =
     [StringVar ''jwks'' (\<lambda>v c. c\<lparr>vc_JWKS := v\<rparr>), StringVar ''issuer'' (\<lambda>v c. c\<lparr>vc_Issuer := v\<rparr>),
      StringVar ''aud'' (\<lambda>v c. c\<lparr>vc_Audience := v\<rparr>), StringVar ''alg'' (\<lambda>v c. c\<lparr>vc_Algs := vc_Algs c @ [v]\<rparr>),
      DurationVar ''leeway'' (\<lambda>v c. c\<lparr>vc_Leeway := v\<rparr>), BoolVar ''json'' (\<lambda>v c. c\<lparr>vc_JSON := v\<rparr>)]"

text \<open>\<open>known\<close> says for which names the JWT library has a signing method.\<close>

fun normalize_loop :: "(string \<Rightarrow> bool) \<Rightarrow> string list \<Rightarrow> string list \<Rightarrow> gerr + string list" where
  "normalize_loop known [] out = Inr out"
| "normalize_loop known (value # vs) out =
     (let alg = trim_space value
      in if alg = [] then Inl (errors_New ''--alg requires a non-empty algorithm'')
         else if equal_fold alg ''none'' \<or> \<not> known alg then Inl (errorf [Lit ''unsupported algorithm '', Quo alg])
         else if List.member out alg then normalize_loop known vs out
         else normalize_loop known vs (out @ [alg]))"

definition normalizeAlgorithms :: "(string \<Rightarrow> bool) \<Rightarrow> string list \<Rightarrow> gerr + string list" where
  "normalizeAlgorithms known vals = normalize_loop known vals []"

definition printVerdict :: "(string \<Rightarrow> string) \<Rightarrow> Verdict \<Rightarrow> string" where
  "printVerdict q v =
     (if v_Valid v then
        (let details = (if v_Alg v \<noteq> [] then [''alg='' @ v_Alg v] else []) @ (if v_Kid v \<noteq> [] then [''kid='' @ v_Kid v] else [])
         in ''valid: token verified'' @ (if details \<noteq> [] then '' ('' @ join '' '' details @ '')'' else []) @ [CHR 0x0A])
      else
        (let err = concat (map (render_part q) (v_Error v))
         in ''invalid: '' @ v_Reason v @ (if err \<noteq> [] then '': '' @ err else []) @ [CHR 0x0A]))"

definition hint :: gerr where
  "hint = errors_New (''hint: the token'' @ CHR 0x27 # ''s kid was not found in the key source. Tokens minted by '' @
     CHR 0x60 # ''jwtoken-tester print-token'' @ CHR 0x60 #
     '' use a throwaway in-memory keyring and cannot verify against a running server; restarting '' @ CHR 0x60 # ''serve'' @
     CHR 0x60 # '' also discards its keys.'')"

text \<open>Printing the verdict and the exit code for it.\<close>

definition report_verdict :: "(string \<Rightarrow> string) \<Rightarrow> gerr option \<Rightarrow> bool \<Rightarrow> Verdict \<Rightarrow> outcome" where
  "report_verdict q werr json v =
     (case (if json then werr else None) of
        Some e \<Rightarrow> fails 2 (wrapf [Lit ''verify: writing output: ''] e [])
      | None \<Rightarrow>
          \<lparr>o_code = (if v_Valid v then 0 else 1),
           o_out = (if json then ShownJson (VMap (verdict_json q v)) else ShownText (printVerdict q v)),
           o_err = (if \<not> v_Valid v \<and> v_Reason v = ReasonKid \<and> v_KidStatus v = KeyStatusUnknown then Some hint else None)\<rparr>)"

record 'j cli_libs =
  cl_env :: os_env
  cl_net :: net
  cl_jwk :: "'j jwk_reader"
  cl_j5 :: jwt5
  cl_known :: "string \<Rightarrow> bool"
  cl_quote :: "string \<Rightarrow> string"
  cl_werr :: "gerr option"

definition runVerifyCommand :: "'j cli_libs \<Rightarrow> gotime \<Rightarrow> string list \<Rightarrow> gerr + string \<Rightarrow> outcome" where
  "runVerifyCommand cl clock args stdin =
     (case flag_parse verifyFlags args
             \<lparr>vc_JWKS = [], vc_Issuer = [], vc_Audience = [], vc_Algs = [], vc_Leeway = 0, vc_JSON = False\<rparr> of
        (_, Inl e) \<Rightarrow> fails 2 e
      | (cfg, Inr rest) \<Rightarrow>
     (if (vc_JWKS cfg = []) = (vc_Issuer cfg = []) then fails 2 (errors_New ''verify: exactly one of --jwks or --issuer is required'')
      else
     (case normalizeAlgorithms (cl_known cl) (vc_Algs cfg) of
        Inl e \<Rightarrow> fails 2 (wrapf [Lit ''verify: ''] e [])
      | Inr algs \<Rightarrow>
     (case tokenFromArgsOrStdin rest stdin of
        Inl e \<Rightarrow> fails 2 (wrapf [Lit ''verify: ''] e [])
      | Inr token \<Rightarrow>
     (case loadKeySource (cl_env cl) (cl_net cl) (cl_jwk cl) (vc_JWKS cfg) (vc_Issuer cfg) of
        Inl e \<Rightarrow> fails 2 (wrapf [Lit ''verify: ''] e [])
      | Inr (keys, expectedIssuer) \<Rightarrow>
     (case Verify (cl_j5 cl) clock
             \<lparr>in_Token = token, in_Keys = Some (jwks_source keys), in_ExpectedIssuer = expectedIssuer, in_AllowedAlgs = algs,
              in_Audience = (if vc_Audience cfg \<noteq> [] then [vc_Audience cfg] else []), in_Leeway = vc_Leeway cfg, in_Now = clock\<rparr> of
        Inl e \<Rightarrow> fails 2 (wrapf [Lit ''verify: ''] e [])
      | Inr verdict \<Rightarrow> report_verdict (cl_quote cl) (cl_werr cl) (vc_JSON cfg) verdict))))))"

end
