(* ===== verification/VerifyProps.thy ===== *)
theory VerifyProps
  imports Verify
begin

text \<open>
  The correctness of the classifier: it implements the specification "the first failing check in
  the order of \<open>Reasons\<close>", it exposes claims as verified only after the signature, and with a
  key ring as its source it always reaches a verdict.
\<close>

section \<open>What the library promises\<close>

definition exp_ok :: "jwt5 \<Rightarrow> int \<Rightarrow> gotime \<Rightarrow> gomap \<Rightarrow> bool" where
  "exp_ok j5 leeway now claims =
     (case j5_GetExpirationTime j5 claims of Inr (Some t) \<Rightarrow> time_Before now (time_Add t leeway) | _ \<Rightarrow> True)"

definition nbf_ok :: "jwt5 \<Rightarrow> int \<Rightarrow> gotime \<Rightarrow> gomap \<Rightarrow> bool" where
  "nbf_ok j5 leeway now claims =
     (case j5_GetNotBefore j5 claims of Inr (Some t) \<Rightarrow> \<not> time_Before now (time_Add t (- leeway)) | _ \<Rightarrow> True)"

definition iat_ok :: "jwt5 \<Rightarrow> int \<Rightarrow> gotime \<Rightarrow> gomap \<Rightarrow> bool" where
  "iat_ok j5 leeway now claims =
     (case j5_GetIssuedAt j5 claims of Inr (Some t) \<Rightarrow> \<not> time_Before now (time_Add t (- leeway)) | _ \<Rightarrow> True)"

text \<open>
  Validation fails exactly when a time check fails, and its error names each check that failed;
  for a token that parses, the second pass only fails with an error about the key or the
  signature.
\<close>

definition jwt5_laws :: "jwt5 \<Rightarrow> bool" where
  "jwt5_laws j5 =
     ((\<forall>leeway now claims. validateClaimShapes j5 claims = None \<longrightarrow>
         (case j5_Validate j5 leeway now claims of
            None \<Rightarrow> exp_ok j5 leeway now claims \<and> nbf_ok j5 leeway now claims \<and> iat_ok j5 leeway now claims
          | Some e \<Rightarrow>
              (errors_Is e (jwt5_error ''ErrTokenExpired'') \<longleftrightarrow> \<not> exp_ok j5 leeway now claims) \<and>
              (errors_Is e (jwt5_error ''ErrTokenNotValidYet'') \<longleftrightarrow> \<not> nbf_ok j5 leeway now claims) \<and>
              (errors_Is e (jwt5_error ''ErrTokenUsedBeforeIssued'') \<longleftrightarrow> \<not> iat_ok j5 leeway now claims) \<and>
              \<not> (exp_ok j5 leeway now claims \<and> nbf_ok j5 leeway now claims \<and> iat_ok j5 leeway now claims))) \<and>
      (\<forall>s tok claims methods key e. j5_ParseUnverified j5 s = (tok, claims, None) \<longrightarrow>
         j5_ParseWithClaims j5 methods s key = Some e \<longrightarrow> signatureReason e \<noteq> None))"

lemma jwt5_validate:
  assumes "jwt5_laws j5" and "validateClaimShapes j5 claims = None"
  shows "j5_Validate j5 leeway now claims = None \<Longrightarrow>
      exp_ok j5 leeway now claims \<and> nbf_ok j5 leeway now claims \<and> iat_ok j5 leeway now claims"
    and "j5_Validate j5 leeway now claims = Some e \<Longrightarrow>
      (errors_Is e (jwt5_error ''ErrTokenExpired'') \<longleftrightarrow> \<not> exp_ok j5 leeway now claims) \<and>
      (errors_Is e (jwt5_error ''ErrTokenNotValidYet'') \<longleftrightarrow> \<not> nbf_ok j5 leeway now claims) \<and>
      (errors_Is e (jwt5_error ''ErrTokenUsedBeforeIssued'') \<longleftrightarrow> \<not> iat_ok j5 leeway now claims) \<and>
      \<not> (exp_ok j5 leeway now claims \<and> nbf_ok j5 leeway now claims \<and> iat_ok j5 leeway now claims)"
proof -
  note l = conjunct1 [OF assms(1) [unfolded jwt5_laws_def], rule_format, OF assms(2), of leeway now]
  show "j5_Validate j5 leeway now claims = None \<Longrightarrow>
      exp_ok j5 leeway now claims \<and> nbf_ok j5 leeway now claims \<and> iat_ok j5 leeway now claims"
    and "j5_Validate j5 leeway now claims = Some e \<Longrightarrow>
      (errors_Is e (jwt5_error ''ErrTokenExpired'') \<longleftrightarrow> \<not> exp_ok j5 leeway now claims) \<and>
      (errors_Is e (jwt5_error ''ErrTokenNotValidYet'') \<longleftrightarrow> \<not> nbf_ok j5 leeway now claims) \<and>
      (errors_Is e (jwt5_error ''ErrTokenUsedBeforeIssued'') \<longleftrightarrow> \<not> iat_ok j5 leeway now claims) \<and>
      \<not> (exp_ok j5 leeway now claims \<and> nbf_ok j5 leeway now claims \<and> iat_ok j5 leeway now claims)"
    using l by simp_all
qed

lemma jwt5_signature:
  assumes "jwt5_laws j5" and "j5_ParseUnverified j5 s = (tok, claims, None)" and "j5_ParseWithClaims j5 methods s key = Some e"
  shows "signatureReason e = Some ReasonSignature"
proof -
  have "signatureReason e \<noteq> None"
    by (rule conjunct2 [OF assms(1) [unfolded jwt5_laws_def], rule_format, OF assms(2,3)])
  then show ?thesis by (auto simp: signatureReason_def split: if_splits)
qed

section \<open>The specification\<close>

text \<open>What each reason means, as a check of its own on the token and the expectations.\<close>

definition tok_header :: "jwt5 \<Rightarrow> Input \<Rightarrow> gomap" where
  "tok_header j5 inp = (case fst (j5_ParseUnverified j5 (trim_space (in_Token inp))) of None \<Rightarrow> [] | Some h \<Rightarrow> h)"

definition tok_claims :: "jwt5 \<Rightarrow> Input \<Rightarrow> gomap" where
  "tok_claims j5 inp = fst (snd (j5_ParseUnverified j5 (trim_space (in_Token inp))))"

definition tok_alg :: "jwt5 \<Rightarrow> Input \<Rightarrow> string" where
  "tok_alg j5 inp = fst (stringHeader (tok_header j5 inp) ''alg'')"

definition tok_kid :: "jwt5 \<Rightarrow> Input \<Rightarrow> string" where
  "tok_kid j5 inp = fst (stringHeader (tok_header j5 inp) ''kid'')"

definition unverifiable :: "jwt5 \<Rightarrow> Input \<Rightarrow> bool" where
  "unverifiable j5 inp =
     (case j5_ParseUnverified j5 (trim_space (in_Token inp)) of
        (Some h, claims, Some e) \<Rightarrow> errors_Is e (jwt5_error ''ErrTokenUnverifiable'') | _ \<Rightarrow> False)"

definition parse_failed :: "jwt5 \<Rightarrow> Input \<Rightarrow> bool" where
  "parse_failed j5 inp = (snd (snd (j5_ParseUnverified j5 (trim_space (in_Token inp)))) \<noteq> None)"

definition accepted_algs :: "Input \<Rightarrow> KeySource \<Rightarrow> string list" where
  "accepted_algs inp keys = (if in_AllowedAlgs inp = [] then ks_Algorithms keys else in_AllowedAlgs inp)"

definition leeway_of :: "Input \<Rightarrow> int" where
  "leeway_of inp = max 0 (in_Leeway inp)"

definition now_of :: "gotime \<Rightarrow> Input \<Rightarrow> gotime" where
  "now_of clock inp = (if time_IsZero (in_Now inp) then clock else in_Now inp)"

definition check_fails :: "jwt5 \<Rightarrow> gotime \<Rightarrow> KeySource \<Rightarrow> Input \<Rightarrow> reason \<Rightarrow> bool" where
  "check_fails j5 clock keys inp r =
     (let claims = tok_claims j5 inp; now = now_of clock inp; leeway = leeway_of inp
      in if r = ReasonMalformed
           then (parse_failed j5 inp \<and> \<not> unverifiable j5 inp) \<or> (\<not> parse_failed j5 inp \<and> validateClaimShapes j5 claims \<noteq> None)
         else if r = ReasonAlg
           then unverifiable j5 inp \<or> tok_alg j5 inp = [] \<or> tok_alg j5 inp \<notin> set (accepted_algs inp keys)
         else if r = ReasonKid then tok_kid j5 inp = [] \<or> isl (ks_Lookup keys (tok_kid j5 inp))
         else if r = ReasonSignature
           then j5_ParseWithClaims j5 [tok_alg j5 inp] (trim_space (in_Token inp)) (fst (projr (ks_Lookup keys (tok_kid j5 inp)))) \<noteq> None
         else if r = ReasonExpired then \<not> exp_ok j5 leeway now claims
         else if r = ReasonNotYetValid then \<not> (nbf_ok j5 leeway now claims \<and> iat_ok j5 leeway now claims)
         else if r = ReasonIssuer
           then in_ExpectedIssuer inp \<noteq> [] \<and> j5_GetIssuer j5 claims \<noteq> Inr (in_ExpectedIssuer inp)
         else if r = ReasonAudience
           then in_Audience inp \<noteq> [] \<and> (case j5_GetAudience j5 claims of Inl _ \<Rightarrow> True | Inr aud \<Rightarrow> set (in_Audience inp) \<inter> set aud = {})
         else False)"

text \<open>The verdict the specification gives: valid, or the first reason in order.\<close>

definition spec_reason :: "jwt5 \<Rightarrow> gotime \<Rightarrow> KeySource \<Rightarrow> Input \<Rightarrow> reason option" where
  "spec_reason j5 clock keys inp = find (check_fails j5 clock keys inp) Reasons"

definition verdict_is :: "reason option \<Rightarrow> gerr + Verdict \<Rightarrow> bool" where
  "verdict_is r res =
     (\<exists>v. res = Inr v \<and> (case r of None \<Rightarrow> v_Valid v \<and> v_Reason v = [] | Some reason \<Rightarrow> \<not> v_Valid v \<and> v_Reason v = reason))"

lemma reasons_distinct [simp]:
  "ReasonAlg \<noteq> ReasonMalformed" "ReasonKid \<noteq> ReasonMalformed" "ReasonKid \<noteq> ReasonAlg" "ReasonSignature \<noteq> ReasonMalformed"
  "ReasonSignature \<noteq> ReasonAlg" "ReasonSignature \<noteq> ReasonKid" "ReasonExpired \<noteq> ReasonMalformed" "ReasonExpired \<noteq> ReasonAlg"
  "ReasonExpired \<noteq> ReasonKid" "ReasonExpired \<noteq> ReasonSignature" "ReasonNotYetValid \<noteq> ReasonMalformed"
  "ReasonNotYetValid \<noteq> ReasonAlg" "ReasonNotYetValid \<noteq> ReasonKid" "ReasonNotYetValid \<noteq> ReasonSignature"
  "ReasonNotYetValid \<noteq> ReasonExpired" "ReasonIssuer \<noteq> ReasonMalformed" "ReasonIssuer \<noteq> ReasonAlg" "ReasonIssuer \<noteq> ReasonKid"
  "ReasonIssuer \<noteq> ReasonSignature" "ReasonIssuer \<noteq> ReasonExpired" "ReasonIssuer \<noteq> ReasonNotYetValid"
  "ReasonAudience \<noteq> ReasonMalformed" "ReasonAudience \<noteq> ReasonAlg" "ReasonAudience \<noteq> ReasonKid"
  "ReasonAudience \<noteq> ReasonSignature" "ReasonAudience \<noteq> ReasonExpired" "ReasonAudience \<noteq> ReasonNotYetValid"
  "ReasonAudience \<noteq> ReasonIssuer"
  by (simp_all add: reason_defs)

lemma verdict_invalid: "verdict_is (Some r) (Inr (invalid r m v))"
  by (simp add: verdict_is_def invalid_def)

lemma anyAudience_iff: "anyAudienceMatches expected actual \<longleftrightarrow> set expected \<inter> set actual \<noteq> {}"
  by (induction expected) auto

lemma shapes_None:
  assumes "validateClaimShapes j5 claims = None"
  shows "\<exists>s. j5_GetIssuer j5 claims = Inr s" and "\<exists>aud. j5_GetAudience j5 claims = Inr aud"
  using assms by (auto simp: validateClaimShapes_def split: sum.splits)

text \<open>The checks after the signature.\<close>

lemma verify_claims_spec:
  assumes "jwt5_laws j5" and "validateClaimShapes j5 claims = None" and "claims = tok_claims j5 inp"
    and "now = now_of clock inp" and "leeway = leeway_of inp" and "v_Reason base = []"
  shows "verdict_is (find (check_fails j5 clock keys inp) [ReasonExpired, ReasonNotYetValid, ReasonIssuer, ReasonAudience])
     (verify_claims j5 now leeway inp claims base)"
proof (cases "j5_Validate j5 leeway now claims")
  case (Some e)
  note v = jwt5_validate(2) [OF assms(1,2) Some]
  show ?thesis
    using v by (auto simp: verify_claims_def Some check_fails_def Let_def assms(3-5) [symmetric] verdict_invalid)
next
  case None
  note v = jwt5_validate(1) [OF assms(1,2) None]
  obtain iss where iss: "j5_GetIssuer j5 claims = Inr iss" using shapes_None(1) [OF assms(2)] by blast
  obtain aud where aud: "j5_GetAudience j5 claims = Inr aud" using shapes_None(2) [OF assms(2)] by blast
  have e: "\<not> check_fails j5 clock keys inp ReasonExpired" "\<not> check_fails j5 clock keys inp ReasonNotYetValid"
    using v by (simp_all add: check_fails_def Let_def assms(3-5) [symmetric])
  have i: "check_fails j5 clock keys inp ReasonIssuer \<longleftrightarrow> in_ExpectedIssuer inp \<noteq> [] \<and> iss \<noteq> in_ExpectedIssuer inp"
    "check_fails j5 clock keys inp ReasonAudience \<longleftrightarrow> in_Audience inp \<noteq> [] \<and> set (in_Audience inp) \<inter> set aud = {}"
    by (simp_all add: check_fails_def Let_def assms(3-5) [symmetric] iss aud)
  show ?thesis
    using assms(6) by (auto simp: verify_claims_def None e i iss aud Let_def anyAudience_iff verdict_invalid verdict_is_def invalid_def)
qed

lemma stringHeader_fst: "snd (stringHeader h n) = False \<Longrightarrow> fst (stringHeader h n) = []"
  by (auto simp: stringHeader_def split: option.splits goval.splits)

text \<open>The key and the signature.\<close>

lemma verify_key_spec:
  assumes laws: "jwt5_laws j5" and keys: "in_Keys inp = Some keys"
    and nf: "\<And>kid e. ks_Lookup keys kid = Inl e \<Longrightarrow> errors_Is e ErrKeyNotFound"
    and parse: "j5_ParseUnverified j5 (trim_space (in_Token inp)) = (tok, claims, None)"
    and shapes: "validateClaimShapes j5 claims = None"
    and time: "now = now_of clock inp" "leeway = leeway_of inp"
  shows "verdict_is (find (check_fails j5 clock keys inp)
       [ReasonKid, ReasonSignature, ReasonExpired, ReasonNotYetValid, ReasonIssuer, ReasonAudience])
     (verify_key j5 now leeway inp (tok_header j5 inp) claims (tok_alg j5 inp))"
proof -
  have claims: "claims = tok_claims j5 inp" by (simp add: tok_claims_def parse)
  obtain kid present where h: "stringHeader (tok_header j5 inp) ''kid'' = (kid, present)" by fastforce
  have kid: "tok_kid j5 inp = kid" by (simp add: tok_kid_def h)
  have fk: "check_fails j5 clock keys inp ReasonKid \<longleftrightarrow> kid = [] \<or> isl (ks_Lookup keys kid)"
    by (simp add: check_fails_def Let_def kid)
  show ?thesis
  proof (cases "kid = [] \<or> isl (ks_Lookup keys kid)")
    case True
    have "kid = [] \<or> kid \<noteq> [] \<and> present"
      using stringHeader_fst [of "tok_header j5 inp" "''kid''"] h by auto
    then show ?thesis
      using True nf [of kid] by (auto simp: fk verify_key_def h Let_def keys isl_def verdict_invalid)
  next
    case False
    then obtain key status where l: "ks_Lookup keys kid = Inr (key, status)" by (cases "ks_Lookup keys kid") auto
    have present: "present" using False stringHeader_fst [of "tok_header j5 inp" "''kid''"] h by auto
    have fs: "check_fails j5 clock keys inp ReasonSignature \<longleftrightarrow>
        j5_ParseWithClaims j5 [tok_alg j5 inp] (trim_space (in_Token inp)) key \<noteq> None"
      by (simp add: check_fails_def Let_def kid l)
    show ?thesis
    proof (cases "j5_ParseWithClaims j5 [tok_alg j5 inp] (trim_space (in_Token inp)) key")
      case (Some e)
      then show ?thesis
        using False present jwt5_signature [OF laws parse Some]
        by (simp add: fk fs verify_key_def h Let_def keys l verdict_invalid)
    next
      case None
      have "verdict_is (find (check_fails j5 clock keys inp) [ReasonExpired, ReasonNotYetValid, ReasonIssuer, ReasonAudience])
          (verify_claims j5 now leeway inp claims (authenticatedVerdict (tok_header j5 inp) claims (tok_alg j5 inp) kid status))"
        by (rule verify_claims_spec [OF laws shapes claims time]) (simp add: authenticatedVerdict_def empty_verdict_def)
      then show ?thesis
        using False present None by (simp add: fk fs verify_key_def h Let_def keys l)
    qed
  qed
qed

lemma Verify_spec:
  assumes laws: "jwt5_laws j5" and keys: "in_Keys inp = Some keys"
    and nf: "\<And>kid e. ks_Lookup keys kid = Inl e \<Longrightarrow> errors_Is e ErrKeyNotFound"
  shows "verdict_is (spec_reason j5 clock keys inp) (Verify j5 clock inp)"
proof -
  obtain tok claims err where parse: "j5_ParseUnverified j5 (trim_space (in_Token inp)) = (tok, claims, err)"
    using prod_cases3 by blast
  have pf: "parse_failed j5 inp \<longleftrightarrow> err \<noteq> None" by (simp add: parse_failed_def parse)
  have leeway: "(if in_Leeway inp < 0 then 0 else in_Leeway inp) = leeway_of inp" by (simp add: leeway_of_def)
  show ?thesis
  proof (cases err)
    case (Some e)
    then have u: "unverifiable j5 inp \<longleftrightarrow> tok \<noteq> None \<and> errors_Is e (jwt5_error ''ErrTokenUnverifiable'')"
      by (auto simp: unverifiable_def parse split: option.split)
    have "spec_reason j5 clock keys inp = Some (if unverifiable j5 inp then ReasonAlg else ReasonMalformed)"
      by (simp add: spec_reason_def Reasons_def check_fails_def Let_def pf Some)
    then show ?thesis
      by (auto simp: u Verify_def Let_def parse Some verdict_invalid split: option.split)
  next
    case None
    have claims: "tok_claims j5 inp = claims" by (simp add: tok_claims_def parse)
    have header: "(case tok of None \<Rightarrow> [] | Some header \<Rightarrow> header) = tok_header j5 inp" by (simp add: tok_header_def parse)
    have u: "\<not> unverifiable j5 inp" by (simp add: unverifiable_def parse None split: option.split)
    have fm: "check_fails j5 clock keys inp ReasonMalformed \<longleftrightarrow> validateClaimShapes j5 claims \<noteq> None"
      by (simp add: check_fails_def Let_def pf None claims)
    have fa: "check_fails j5 clock keys inp ReasonAlg \<longleftrightarrow> tok_alg j5 inp = [] \<or> tok_alg j5 inp \<notin> set (accepted_algs inp keys)"
      by (simp add: check_fails_def Let_def u)
    have eq: "Verify j5 clock inp = verify_parsed j5 (now_of clock inp) (leeway_of inp) inp (tok_header j5 inp) claims"
      by (simp add: Verify_def parse None leeway header now_of_def)
    obtain alg ok where h: "stringHeader (tok_header j5 inp) ''alg'' = (alg, ok)" by fastforce
    have alg: "tok_alg j5 inp = alg" by (simp add: tok_alg_def h)
    have ok: "ok \<or> alg = []" using stringHeader_fst [of "tok_header j5 inp" "''alg''"] h by auto
    show ?thesis
    proof (cases "validateClaimShapes j5 claims")
      case (Some e)
      then show ?thesis by (simp add: spec_reason_def Reasons_def fm eq verify_parsed_def verdict_invalid)
    next
      case shapes: None
      show ?thesis
      proof (cases "alg = [] \<or> alg \<notin> set (accepted_algs inp keys)")
        case True
        then show ?thesis
          using ok by (auto simp: spec_reason_def Reasons_def fm fa shapes alg eq verify_parsed_def h keys Let_def
              accepted_algs_def verdict_invalid)
      next
        case False
        have "Verify j5 clock inp = verify_key j5 (now_of clock inp) (leeway_of inp) inp (tok_header j5 inp) claims alg"
          using False ok by (auto simp: eq verify_parsed_def shapes h keys Let_def accepted_algs_def)
        then show ?thesis
          using verify_key_spec [where clock = clock, OF laws keys nf parse [unfolded None] shapes refl refl] False
          by (simp add: spec_reason_def Reasons_def fm fa shapes alg)
      qed
    qed
  qed
qed

section \<open>An instance of the library, for evaluation\<close>

definition demo_time_claim :: "string \<Rightarrow> gomap \<Rightarrow> gerr + gotime option" where
  "demo_time_claim n claims =
     (case map_of claims n of None \<Rightarrow> Inr None | Some (VTime t) \<Rightarrow> Inr (Some t) | _ \<Rightarrow> Inl (jwt5_error ''ErrInvalidType''))"

definition demo_str_claim :: "string \<Rightarrow> gomap \<Rightarrow> gerr + string" where
  "demo_str_claim n claims =
     (case map_of claims n of None \<Rightarrow> Inr [] | Some (VStr s) \<Rightarrow> Inr s | _ \<Rightarrow> Inl (jwt5_error ''ErrInvalidType''))"

text \<open>
  A token is an algorithm and a key id, separated by a dot, and stands for the same claims
  always; it verifies with the key that has that id.
\<close>

definition demo_claims :: gomap where
  "demo_claims = [(''iss'', VStr ''https://issuer''), (''exp'', VTime (time_Unix 8200)), (''iat'', VTime (time_Unix 1000)),
     (''nbf'', VTime (time_Unix 1000))]"

definition demo_dot :: "string \<Rightarrow> bool" where
  "demo_dot s = (CHR ''.'' \<in> set s)"

definition demo_parse :: "string \<Rightarrow> gomap option \<times> gomap \<times> gerr option" where
  "demo_parse s =
     (if demo_dot s
      then (Some [(''alg'', VStr (takeWhile (\<lambda>c. c \<noteq> CHR ''.'') s)), (''kid'', VStr (tl (dropWhile (\<lambda>c. c \<noteq> CHR ''.'') s)))],
            demo_claims, None)
      else (None, [], Some (jwt5_error ''ErrTokenMalformed'')))"

definition demo_j5_base :: jwt5 where
  "demo_j5_base =
     \<lparr>j5_ParseUnverified = demo_parse,
      j5_ParseWithClaims = (\<lambda>ms s key. if tl (dropWhile (\<lambda>c. c \<noteq> CHR ''.'') s) = b64_encode (demo_thumbprint key) then None
                              else Some (jwt5_error ''ErrTokenSignatureInvalid'')),
      j5_Validate = (\<lambda>_ _ _. None), j5_GetExpirationTime = demo_time_claim ''exp'', j5_GetNotBefore = demo_time_claim ''nbf'',
      j5_GetIssuedAt = demo_time_claim ''iat'', j5_GetAudience = (\<lambda>_. Inr []), j5_GetIssuer = demo_str_claim ''iss'',
      j5_GetSubject = demo_str_claim ''sub''\<rparr>"

definition demo_validate :: "int \<Rightarrow> gotime \<Rightarrow> gomap \<Rightarrow> gerr option" where
  "demo_validate leeway now claims =
     (let ids = (if exp_ok demo_j5_base leeway now claims then [] else [''jwt5.ErrTokenExpired'']) @
                (if nbf_ok demo_j5_base leeway now claims then [] else [''jwt5.ErrTokenNotValidYet'']) @
                (if iat_ok demo_j5_base leeway now claims then [] else [''jwt5.ErrTokenUsedBeforeIssued''])
      in if ids = [] then None else Some (GErr ids []))"

definition demo_j5 :: jwt5 where
  "demo_j5 = demo_j5_base\<lparr>j5_Validate := demo_validate\<rparr>"

lemma demo_j5_times:
  "exp_ok demo_j5 = exp_ok demo_j5_base" "nbf_ok demo_j5 = nbf_ok demo_j5_base" "iat_ok demo_j5 = iat_ok demo_j5_base"
  by (simp_all add: fun_eq_iff exp_ok_def nbf_ok_def iat_ok_def demo_j5_def)

lemma demo_j5_laws: "jwt5_laws demo_j5"
  unfolding jwt5_laws_def demo_j5_times
proof (intro conjI allI impI)
  fix leeway now claims
  show "case j5_Validate demo_j5 leeway now claims of
      None \<Rightarrow> exp_ok demo_j5_base leeway now claims \<and> nbf_ok demo_j5_base leeway now claims \<and> iat_ok demo_j5_base leeway now claims
    | Some e \<Rightarrow>
        (errors_Is e (jwt5_error ''ErrTokenExpired'') \<longleftrightarrow> \<not> exp_ok demo_j5_base leeway now claims) \<and>
        (errors_Is e (jwt5_error ''ErrTokenNotValidYet'') \<longleftrightarrow> \<not> nbf_ok demo_j5_base leeway now claims) \<and>
        (errors_Is e (jwt5_error ''ErrTokenUsedBeforeIssued'') \<longleftrightarrow> \<not> iat_ok demo_j5_base leeway now claims) \<and>
        \<not> (exp_ok demo_j5_base leeway now claims \<and> nbf_ok demo_j5_base leeway now claims \<and> iat_ok demo_j5_base leeway now claims)"
    by (simp add: demo_j5_def demo_validate_def Let_def errors_Is_def sentinel_def)
next
  fix s tok claims methods key e
  assume "j5_ParseWithClaims demo_j5 methods s key = Some e"
  then show "signatureReason e \<noteq> None"
    by (auto simp: demo_j5_def demo_j5_base_def signatureReason_def errors_Is_def sentinel_def split: if_splits)
qed

section \<open>The properties\<close>


definition demo_input :: Input where
  "demo_input = \<lparr>in_Token = '' EdDSA.x'', in_Keys = Some (RingKeySource demo_jwx None\<lparr>ks_Lookup := (\<lambda>kid. Inl (not_found kid)), ks_Algorithms := [''EdDSA'']\<rparr>),
     in_ExpectedIssuer = [], in_AllowedAlgs = [], in_Audience = [], in_Leeway = 0, in_Now = time_Unix 1000\<rparr>"


text \<open>The cases in which a verdict shows authenticated claims.\<close>

lemma verify_claims_verdict:
  assumes "verify_claims j5 now leeway inp claims base = Inr v" and "v_Reason base = []"
  shows "v = base\<lparr>v_Valid := True\<rparr> \<or>
     (\<exists>r m. v = invalid r m base \<and> r \<in> {ReasonExpired, ReasonNotYetValid, ReasonIssuer, ReasonAudience})"
  using assms by (auto simp: verify_claims_def Let_def split: option.splits if_splits sum.splits)

definition unauthenticated :: "reason set \<Rightarrow> Verdict \<Rightarrow> bool" where
  "unauthenticated rs v = (\<not> v_Valid v \<and> v_Reason v \<in> rs \<and> v_Claims v = [])"

definition authenticated :: "jwt5 \<Rightarrow> Input \<Rightarrow> Verdict \<Rightarrow> bool" where
  "authenticated j5 inp v =
     (v_UnverifiedClaims v = [] \<and>
      (\<exists>keys key. in_Keys inp = Some keys \<and> ks_Lookup keys (v_Kid v) = Inr (key, v_KidStatus v) \<and>
         j5_ParseWithClaims j5 [v_Alg v] (trim_space (in_Token inp)) key = None) \<and>
      (if v_Valid v then v_Reason v = [] else v_Reason v \<in> {ReasonExpired, ReasonNotYetValid, ReasonIssuer, ReasonAudience}))"

lemma unauthenticated_invalid [simp]:
  "unauthenticated rs (invalid r m (baseVerdict header claims alg kid)) \<longleftrightarrow> r \<in> rs"
  "unauthenticated rs (invalid r m ((baseVerdict header claims alg kid)\<lparr>v_KidStatus := st\<rparr>)) \<longleftrightarrow> r \<in> rs"
  by (simp_all add: unauthenticated_def invalid_def baseVerdict_def empty_verdict_def)

lemma verify_claims_authenticated:
  assumes "verify_claims j5 now leeway inp claims (authenticatedVerdict header claims alg kid st) = Inr v"
    and "in_Keys inp = Some keys" "ks_Lookup keys kid = Inr (key, st)"
    and "j5_ParseWithClaims j5 [alg] (trim_space (in_Token inp)) key = None"
  shows "authenticated j5 inp v"
proof -
  have "v_Reason (authenticatedVerdict header claims alg kid st) = []"
    by (simp add: authenticatedVerdict_def empty_verdict_def)
  from verify_claims_verdict [OF assms(1) this] assms(2-4) show ?thesis
    by (auto simp: authenticated_def authenticatedVerdict_def empty_verdict_def invalid_def)
qed

lemma verify_key_verdict:
  assumes "verify_key j5 now leeway inp header claims alg = Inr v"
  shows "unauthenticated {ReasonKid, ReasonSignature} v \<or> authenticated j5 inp v"
proof -
  obtain kid present where h: "stringHeader header ''kid'' = (kid, present)" by fastforce
  have sig: "signatureReason e = Some r \<Longrightarrow> r = ReasonSignature" for e r
    by (simp add: signatureReason_def split: if_splits)
  consider "v = invalid ReasonKid [Lit ''token header has no kid''] (baseVerdict header claims alg [])"
    | m where "v = invalid ReasonKid m ((baseVerdict header claims alg kid)\<lparr>v_KidStatus := KeyStatusUnknown\<rparr>)"
    | r e m st where "signatureReason e = Some r" "v = invalid r m ((baseVerdict header claims alg kid)\<lparr>v_KidStatus := st\<rparr>)"
    | keys key st where "in_Keys inp = Some keys" "ks_Lookup keys kid = Inr (key, st)"
        "j5_ParseWithClaims j5 [alg] (trim_space (in_Token inp)) key = None"
        "verify_claims j5 now leeway inp claims (authenticatedVerdict header claims alg kid st) = Inr v"
    using assms by (auto simp: verify_key_def h Let_def split: option.splits if_splits sum.splits)
  then show ?thesis
  proof cases
    case (3 r e m st)
    then show ?thesis using sig by auto
  next
    case (4 keys key st)
    then show ?thesis using verify_claims_authenticated by blast
  qed simp_all
qed

lemma Verify_verdict:
  assumes "Verify j5 clock inp = Inr v"
  shows "(\<exists>m. v = invalid ReasonMalformed m empty_verdict) \<or>
     unauthenticated {ReasonAlg, ReasonKid, ReasonSignature} v \<or> authenticated j5 inp v"
proof -
  consider (mal) m where "v = invalid ReasonMalformed m empty_verdict"
    | (alg) m header claims alg kid where "v = invalid ReasonAlg m (baseVerdict header claims alg kid)"
    | (key) now leeway header claims alg where "verify_key j5 now leeway inp header claims alg = Inr v"
    using assms
    by (auto simp: Verify_def verify_parsed_def Let_def split: prod.splits option.splits if_splits)
  then show ?thesis
  proof cases
    case key
    from verify_key_verdict [OF key] show ?thesis by (auto simp: unauthenticated_def)
  qed auto
qed

text \<open>
  C15: a verdict shows claims as verified only if the signature of the token verified with the key
  the source returned for the token's kid, and then none as unverified; the claims of a token
  whose reason is alg, kid or signature are shown as unverified only; and a malformed token shows
  no header and no claims at all. A valid verdict has no reason, and every reason is one of the eight.
\<close>

theorem Verify_exposes_claims_after_signature:
  assumes "Verify j5 clock inp = Inr v"
  shows "(v_Claims v \<noteq> [] \<or> v_Valid v \<longrightarrow> v_UnverifiedClaims v = [] \<and>
        (\<exists>keys key. in_Keys inp = Some keys \<and> ks_Lookup keys (v_Kid v) = Inr (key, v_KidStatus v) \<and>
           j5_ParseWithClaims j5 [v_Alg v] (trim_space (in_Token inp)) key = None))
     \<and> (v_Reason v \<in> {ReasonAlg, ReasonKid, ReasonSignature} \<longrightarrow> v_Claims v = [])
     \<and> (v_Reason v = ReasonMalformed \<longrightarrow> v_Header v = [] \<and> v_Claims v = [] \<and> v_UnverifiedClaims v = [])
     \<and> (if v_Valid v then v_Reason v = [] else v_Reason v \<in> set Reasons)"
  using Verify_verdict [OF assms]
  by (elim disjE exE)
     (auto simp: invalid_def empty_verdict_def unauthenticated_def authenticated_def Reasons_def reason_defs split: if_splits)

theorem Verify_exposes_claims_after_signature_witness:
  "\<exists>v. Verify demo_j5 (time_Unix 0) demo_input = Inr v \<and> v_Claims v = []"
proof -
  obtain v where v: "Verify demo_j5 (time_Unix 0) demo_input = Inr v" "v_Reason v = ''kid''"
  proof -
    have "\<not> isl (Verify demo_j5 (time_Unix 0) demo_input)" "v_Reason (projr (Verify demo_j5 (time_Unix 0) demo_input)) = ''kid''"
      by code_simp+
    then show thesis using that by (cases "Verify demo_j5 (time_Unix 0) demo_input") auto
  qed
  then show ?thesis using Verify_exposes_claims_after_signature [OF v(1)] by (simp add: reason_defs)
qed

section \<open>Key sources\<close>

text \<open>
  The interface \<open>KeySource\<close>: what the classifier needs to always reach a verdict is that the only
  error of a lookup is the not-found error, and that a key that is found has a known status.
\<close>

locale key_source =
  fixes ks_inv :: "'s \<Rightarrow> bool" and source :: "'s \<Rightarrow> KeySource"
  assumes lookup_notfound: "ks_inv s \<Longrightarrow> ks_Lookup (source s) kid = Inl e \<Longrightarrow> errors_Is e ErrKeyNotFound"
    and lookup_known: "ks_inv s \<Longrightarrow> ks_Lookup (source s) kid = Inr (key, st) \<Longrightarrow> st = KeyStatusActive \<or> st = KeyStatusRetired"
begin

lemma verify_spec:
  assumes "ks_inv s" and "jwt5_laws j5" and "in_Keys inp = Some (source s)"
  shows "verdict_is (spec_reason j5 clock (source s) inp) (Verify j5 clock inp)"
  by (rule Verify_spec [OF assms(2,3)]) (rule lookup_notfound [OF assms(1)])

lemma verify_total:
  assumes "ks_inv s" and "jwt5_laws j5" and "in_Keys inp = Some (source s)"
  shows "\<exists>v. Verify j5 clock inp = Inr v"
  using verify_spec [OF assms, of clock] by (auto simp: verdict_is_def)

lemma verify_valid_iff:
  assumes "ks_inv s" and "jwt5_laws j5" and "in_Keys inp = Some (source s)" and "Verify j5 clock inp = Inr v"
  shows "v_Valid v \<longleftrightarrow> (\<forall>r\<in>set Reasons. \<not> check_fails j5 clock (source s) inp r)"
proof -
  have "verdict_is (spec_reason j5 clock (source s) inp) (Inr v)"
    using verify_spec [OF assms(1-3), of clock] assms(4) by simp
  then have "v_Valid v \<longleftrightarrow> spec_reason j5 clock (source s) inp = None"
    by (cases "spec_reason j5 clock (source s) inp") (auto simp: verdict_is_def)
  then show ?thesis by (auto simp: spec_reason_def find_None_iff)
qed

lemma verify_valid_status:
  assumes "ks_inv s" and "in_Keys inp = Some (source s)" and "Verify j5 clock inp = Inr v" and "v_Valid v"
  shows "v_KidStatus v = KeyStatusActive \<or> v_KidStatus v = KeyStatusRetired"
proof -
  have "authenticated j5 inp v"
    using Verify_verdict [OF assms(3)] assms(4) by (auto simp: unauthenticated_def invalid_def)
  then show ?thesis using assms(2) lookup_known [OF assms(1)] by (auto simp: authenticated_def)
qed

end

interpretation rks: key_source "view_ok lib" "\<lambda>v. RingKeySource lib (Some v)" for lib
proof
  fix v :: "'a view" and kid e key st
  assume ok: "view_ok lib v"
  show "errors_Is e ErrKeyNotFound" if "ks_Lookup (RingKeySource lib (Some v)) kid = Inl e"
    using that kr.lookup_error [OF ok] by (simp add: RingKeySource_def)
  show "st = KeyStatusActive \<or> st = KeyStatusRetired" if "ks_Lookup (RingKeySource lib (Some v)) kid = Inr (key, st)"
    using that kr.lookup_status [OF ok] by (simp add: RingKeySource_def)
qed



end
