(* ===== verification/Routes.thy ===== *)
theory Routes
  imports ServerHandlers
begin

text \<open>
  The routing table of \<open>Handler\<close> and the middleware around it: security headers, then the rate
  limit, then the request id. One request is one step on the table of visitors. The standard
  router is given canonical paths: it redirects any other path before a handler runs.
\<close>

section \<open>Routing\<close>

datatype route =
    RIndex | RHealth | RVersion | RJWKS | RJWKByKID | RDiscovery | RMetadata
  | RToken | ROAuth | RIntrospect | RV2 | RVerify

text \<open>Method, path, whether the pattern matches every path it is a prefix of, and the handler.\<close>

definition patterns :: "(string \<times> string \<times> bool \<times> route) list" where
  "patterns =
     [(''GET'', ''/'', False, RIndex),
      (''GET'', ''/healthz'', False, RHealth),
      (''GET'', ''/version'', False, RVersion),
      (''GET'', ''/.well-known/jwks.json'', False, RJWKS),
      (''GET'', ''/.well-known/jwks.json/'', True, RJWKByKID),
      (''GET'', ''/.well-known/openid-configuration'', False, RDiscovery),
      (''GET'', ''/.well-known/oauth-authorization-server'', False, RMetadata),
      (''POST'', ''/token'', False, RToken),
      (''POST'', ''/oauth/token'', False, ROAuth),
      (''POST'', ''/introspect'', False, RIntrospect),
      (''POST'', ''/v2/oauth/token'', False, RV2),
      (''POST'', ''/verify'', False, RVerify)]"

definition path_matches :: "string \<Rightarrow> string \<times> string \<times> bool \<times> route \<Rightarrow> bool" where
  "path_matches path p = (case p of (_, pat, subtree, _) \<Rightarrow> if subtree then has_prefix path pat else path = pat)"

text \<open>A pattern for GET also serves HEAD.\<close>

definition method_matches :: "string \<Rightarrow> string \<times> string \<times> bool \<times> route \<Rightarrow> bool" where
  "method_matches m p = (fst p = m \<or> fst p = ''GET'' \<and> m = ''HEAD'')"

definition mux_match :: "string \<Rightarrow> string \<Rightarrow> route option" where
  "mux_match m path =
     map_option (\<lambda>(_, _, _, rt). rt) (find (\<lambda>p. path_matches path p \<and> method_matches m p) patterns)"

text \<open>The methods another request for the path could use, as the header \<open>Allow\<close> lists them.\<close>

definition allowed_methods :: "string \<Rightarrow> string option" where
  "allowed_methods path =
     map_option (\<lambda>p. if fst p = ''GET'' then ''GET, HEAD'' else ''POST'') (find (path_matches path) patterns)"

definition http_Error :: "headers \<Rightarrow> string \<Rightarrow> int \<Rightarrow> http_response" where
  "http_Error w msg code =
     \<lparr>h_Status = code,
      h_Header = map_put ''X-Content-Type-Options'' ''nosniff'' (map_put ''Content-Type'' ''text/plain; charset=utf-8'' w),
      h_Body = BText (msg @ [CHR 0x0A])\<rparr>"

definition run_route ::
    "('t, 'h, 'j) libs \<Rightarrow> Server \<Rightarrow> 'j call \<Rightarrow> http_request \<Rightarrow> headers \<Rightarrow> route \<Rightarrow>
     (http_response \<times> audit_event list) option" where
  "run_route lb s c r w rt =
     (case rt of
        RIndex \<Rightarrow> Some (handleIndex s w, [])
      | RHealth \<Rightarrow> Some (handleHealth lb s c w, [])
      | RVersion \<Rightarrow> Some (handleVersion s w, [])
      | RJWKS \<Rightarrow> Some (handleJWKS lb c w, [])
      | RJWKByKID \<Rightarrow> Some (handleJWKByKID lb c r w, [])
      | RDiscovery \<Rightarrow> Some (handleDiscovery s c w, [])
      | RMetadata \<Rightarrow> Some (handleAuthorizationServerMetadata s c w, [])
      | RToken \<Rightarrow> handleToken lb s c r w
      | ROAuth \<Rightarrow> Some (handleOAuthClientCredentialsToken lb s c r w)
      | RIntrospect \<Rightarrow> Some (handleIntrospect lb s c r w)
      | RV2 \<Rightarrow> Some (handleOAuthToken lb s c r w)
      | RVerify \<Rightarrow> Some (handleVerify lb s c r w))"

definition mux_ServeHTTP ::
    "('t, 'h, 'j) libs \<Rightarrow> Server \<Rightarrow> 'j call \<Rightarrow> http_request \<Rightarrow> headers \<Rightarrow> (http_response \<times> audit_event list) option" where
  "mux_ServeHTTP lb s c r w =
     (case mux_match (r_Method r) (r_Path r) of
        Some rt \<Rightarrow> run_route lb s c r w rt
      | None \<Rightarrow>
          (case allowed_methods (r_Path r) of
             Some ms \<Rightarrow> Some (http_Error (map_put ''Allow'' ms w) ''Method Not Allowed'' 405, [])
           | None \<Rightarrow> Some (http_Error w ''404 page not found'' 404, [])))"

section \<open>Middleware\<close>

text \<open>
  What the middleware reads besides the request: the clock when the visitor is recorded and when
  the limiter is asked, and the random bytes and the time stamp for a request id.
\<close>

record mw_call =
  m_seen :: gotime
  m_allow :: gotime
  m_rand :: "gerr + byte list"
  m_stamp :: string

text \<open>The id a request gets; the handlers find it in the context.\<close>

definition requestID ::
    "mw_call \<Rightarrow> ('j call \<Rightarrow> http_request \<Rightarrow> headers \<Rightarrow> 'o) \<Rightarrow> 'j call \<Rightarrow> http_request \<Rightarrow> headers \<Rightarrow> 'o" where
  "requestID m nxt c r w =
     (let given = header_Get r ''X-Request-ID'';
          reqid = (if given = [] then generateRequestID (m_rand m) (m_stamp m) else given)
      in nxt (c\<lparr>c_id := getRequestID r (Some reqid)\<rparr>) r (map_put ''X-Request-ID'' reqid w))"

text \<open>
  The limiter is shared: what \<open>Allow\<close> does to it stays in the table.
\<close>

definition rateLimit ::
    "'l limiters \<Rightarrow> Server \<Rightarrow> mw_call \<Rightarrow>
     (http_request \<Rightarrow> headers \<Rightarrow> (http_response \<times> audit_event list) option) \<Rightarrow>
     http_request \<Rightarrow> headers \<Rightarrow> 'l visitors \<Rightarrow> (http_response \<times> audit_event list) option \<times> 'l visitors" where
  "rateLimit lims s m nxt r w vs =
     (let ip = client_ip r;
          (l, vs1) = getVisitorLimiter lims s (m_seen m) ip vs;
          (ok, l') = lim_Allow lims (m_allow m) l;
          vs2 = vs1\<lparr>vi_limiter := (vi_limiter vs1)(ip \<mapsto> l')\<rparr>
      in if \<not> ok then (Some (writeError w 429 ''rate limit exceeded'', []), vs2) else (nxt r w, vs2))"

definition csp :: string where
  "csp = ''default-src '' @ CHR 0x27 # ''none'' @ CHR 0x27 # ''; frame-ancestors '' @ CHR 0x27 # ''none'' @ [CHR 0x27]"

definition securityHeaders :: "(http_request \<Rightarrow> headers \<Rightarrow> 'o) \<Rightarrow> http_request \<Rightarrow> headers \<Rightarrow> 'o" where
  "securityHeaders nxt r w =
     nxt r (map_put ''Content-Security-Policy'' csp (map_put ''Referrer-Policy'' ''no-referrer''
       (map_put ''X-Frame-Options'' ''DENY'' (map_put ''X-Content-Type-Options'' ''nosniff'' w))))"

definition Handler ::
    "('t, 'h, 'j) libs \<Rightarrow> 'l limiters \<Rightarrow> Server \<Rightarrow> mw_call \<Rightarrow> 'j call \<Rightarrow> http_request \<Rightarrow> 'l visitors \<Rightarrow>
     (http_response \<times> audit_event list) option \<times> 'l visitors" where
  "Handler lb lims s m c r vs =
     securityHeaders (\<lambda>r w. rateLimit lims s m (\<lambda>r w. requestID m (mux_ServeHTTP lb s) c r w) r w vs) r []"

section \<open>The running server\<close>

text \<open>
  The table of visitors, whether the cleanup goroutine runs, and whether \<open>Close\<close> was called. The
  mutex makes the accesses to the table happen one after the other.
\<close>

record 'l server_state =
  st_visitors :: "'l visitors"
  st_cleaning :: bool
  st_closed :: bool

definition start_state :: "'l visitors \<Rightarrow> 'l server_state" where
  "start_state vs = \<lparr>st_visitors = vs, st_cleaning = True, st_closed = False\<rparr>"

text \<open>The goroutine has returned when \<open>Close\<close> does; a second call does nothing.\<close>

definition server_Close :: "'l server_state \<Rightarrow> 'l server_state" where
  "server_Close st = (if st_closed st then st else st\<lparr>st_cleaning := False, st_closed := True\<rparr>)"

definition cleanupVisitors :: "(string \<times> gotime) list \<Rightarrow> 'l server_state \<Rightarrow> 'l server_state" where
  "cleanupVisitors visits st = (if st_cleaning st then st\<lparr>st_visitors := cleanup_loop visits (st_visitors st)\<rparr> else st)"

datatype 'j event =
    Serve mw_call "'j call" http_request
  | Tick "(string \<times> gotime) list"
  | Stop

text \<open>
  One event and the response it has, if it is a request. A tick visits every visitor once, with
  the time of each visit.
\<close>

inductive server_step ::
    "('t, 'h, 'j) libs \<Rightarrow> 'l limiters \<Rightarrow> Server \<Rightarrow> 'l server_state \<Rightarrow> 'j event \<Rightarrow>
     (http_response \<times> audit_event list) option \<Rightarrow> 'l server_state \<Rightarrow> bool"
  for lb :: "('t, 'h, 'j) libs" and lims :: "'l limiters" and s :: Server where
  serve: "Handler lb lims s m c r (st_visitors st) = (out, vs) \<Longrightarrow>
    server_step lb lims s st (Serve m c r) out (st\<lparr>st_visitors := vs\<rparr>)"
| tick: "st_cleaning st \<Longrightarrow> distinct (map fst visits) \<Longrightarrow> set (map fst visits) = dom (vi_lastSeen (st_visitors st)) \<Longrightarrow>
    server_step lb lims s st (Tick visits) None (cleanupVisitors visits st)"
| stop: "server_step lb lims s st Stop None (server_Close st)"

inductive_cases server_stepE: "server_step lb lims s st ev out st'"

inductive server_reachable :: "('t, 'h, 'j) libs \<Rightarrow> 'l limiters \<Rightarrow> Server \<Rightarrow> 'l server_state \<Rightarrow> bool"
  for lb :: "('t, 'h, 'j) libs" and lims :: "'l limiters" and s :: Server where
  start: "server_reachable lb lims s (start_state \<lparr>vi_limiter = Map.empty, vi_lastSeen = Map.empty\<rparr>)"
| step: "server_reachable lb lims s st \<Longrightarrow> server_step lb lims s st ev out st' \<Longrightarrow> server_reachable lb lims s st'"

end
