(* ===== verification/TokenFactoryProps.thy ===== *)
theory TokenFactoryProps
  imports TokenFactory
begin

text \<open>
  The correctness of minting: how the values of time claims are read, what a minted token
  holds, what the lifetime cap guarantees and where it does not hold, and which error answers
  which defect of a request.
\<close>

section \<open>An instance of the library, for evaluation\<close>

definition demo_rt :: runtime where
  "demo_rt = \<lparr>rt_f2i = (\<lambda>_. - (2 ^ 63)), rt_supported = allAlgorithms\<rparr>"

text \<open>Tokens and headers are maps; a signed token is its algorithm and the id of the key.\<close>

definition demo_jwt :: "(gomap, gomap, demo_jwk) jwt_lib" where
  "demo_jwt =
     \<lparr>jwt_New = [], tok_Set = (\<lambda>t n v. Inr (map_put n v t)), tok_Get = map_of, jws_NewHeaders = [],
      hdr_Set = (\<lambda>h n v. Inr (map_put n v h)),
      jwt_Sign = (\<lambda>t alg j h. Inr (alg @ ''.'' @ (case map_of (snd j) ''kid'' of None \<Rightarrow> [] | Some i \<Rightarrow> i)))\<rparr>"

lemma demo_jwt_laws: "jwt_laws demo_jwt"
  by (auto simp: jwt_laws_def demo_jwt_def)

definition demo_factory :: Factory where
  "demo_factory = NewFactory ''https://issuer'' 3600000000000 7200000000000"

section \<open>Reading time claims\<close>

text \<open>
  C21: a duration in the notation of Go, with or without the prefix \<open>in\<close>, is read as the instant
  that far from now, whatever the duration.
\<close>

theorem ParseTimeValue_duration:
  assumes "in_int64 d"
  shows "ParseTimeValue rt (VStr (duration_String d)) now = Inr (time_Add now d)
     \<and> ParseTimeValue rt (VStr (''in '' @ duration_String d)) now = Inr (time_Add now d)"
proof -
  have ne: "duration_String d \<noteq> []" "last (duration_String d) \<notin> set space_ends"
    using duration_body_shape [of "\<bar>d\<bar>"] by (auto simp: duration_String_def space_ends_unfold)
  then have "trim_space (''in '' @ duration_String d) = ''in '' @ duration_String d"
    by (intro trim_space_id) (simp_all add: space_ends_unfold)
  moreover have "trim_prefix (''in '' @ duration_String d) ''in '' = duration_String d" by (simp add: trim_prefix_def)
  ultimately show ?thesis
    using parse_duration_String [OF assms] by (simp add: ParseTimeValue_def)
qed

theorem ParseTimeValue_duration_witness:
  "ParseTimeValue demo_rt (VStr ''in 1h30m0s'') (time_Unix 1000) = Inr (time_Unix 6400)"
proof -
  have "''in 1h30m0s'' = ''in '' @ duration_String 5400000000000" by code_simp
  moreover have "time_Add (time_Unix 1000) 5400000000000 = time_Unix 6400" by code_simp
  moreover have "in_int64 5400000000000" by (simp add: in_int64_def)
  ultimately show ?thesis using ParseTimeValue_duration [of 5400000000000 demo_rt "time_Unix 1000"] by simp
qed

lemma itoa_shape:
  assumes "n \<noteq> 0"
  obtains s where "itoa n = (if n < 0 then CHR ''-'' # s else s)" "list_all is_digit s" "s \<noteq> []" "s \<noteq> ''0''"
proof
  have "digits_of \<bar>n\<bar> \<noteq> ''0''"
  proof
    assume "digits_of \<bar>n\<bar> = ''0''"
    then have "\<bar>n\<bar> = dec_val ''0''" using dec_val_digits_of [of "\<bar>n\<bar>"] by simp
    also have "\<dots> = 0" by code_simp
    finally show False using assms by simp
  qed
  then show "digits_of \<bar>n\<bar> \<noteq> ''0''" .
  show "itoa n = (if n < 0 then CHR ''-'' # digits_of \<bar>n\<bar> else digits_of \<bar>n\<bar>)" by (simp add: itoa_def)
  show "list_all is_digit (digits_of \<bar>n\<bar>)" by (simp add: digits_digits_of)
qed simp

lemma pd_loop_digits:
  assumes "list_all is_digit s" and "s \<noteq> []"
  shows "pd_loop d s = None"
proof -
  have "leading_int s = None \<or> (\<exists>v. leading_int s = Some (v, []))"
    using assms(1) by (auto simp: leading_int_def Let_def list_all_iff)
  then have "pd_step d s = None" by (auto simp: pd_step_def)
  then show ?thesis using assms(2) by (simp add: pd_loop.simps)
qed

lemma digit_first: "list_all is_digit s \<Longrightarrow> s \<noteq> [] \<Longrightarrow> is_digit (hd s) \<and> is_digit (last s)"
  by (cases s) (auto simp: list_all_iff)

lemma digit_not_space: "is_digit c \<Longrightarrow> c \<notin> set space_ends"
  by (auto simp: space_ends_unfold is_digit_def)

lemma parse_rfc3339_itoa:
  assumes "n \<noteq> 0"
  shows "parse_rfc3339 (itoa n) = None"
proof -
  from itoa_shape [OF assms] obtain s where s: "itoa n = (if n < 0 then CHR ''-'' # s else s)" "list_all is_digit s" by metis
  show ?thesis
  proof (cases "n < 0")
    case True
    then have "year_field (itoa n) = None" using s(1) by (simp add: year_field_def is_digit_def)
    then show ?thesis by (simp add: parse_rfc3339_def)
  next
    case False
    have "skip_char CHR ''-'' (drop 4 s) = None"
      using s(2) in_set_dropD [of _ 4 s] digit_not_sign
      by (cases "drop 4 s") (auto simp: skip_char_def list_all_iff)
    then show ?thesis using s(1) False by (simp add: parse_rfc3339_def year_field_def num_field_def)
  qed
qed

text \<open>
  C22: a string of decimal digits, signed or not, is read as seconds since the epoch, except that
  zero counts as a duration: \<open>0\<close> means now and not 1970.
\<close>

theorem ParseTimeValue_epoch:
  assumes "in_int64 n"
  shows "ParseTimeValue rt (VStr (itoa n)) now = Inr (if n = 0 then time_Add now 0 else time_Unix n)"
proof (cases "n = 0")
  case True
  have "itoa 0 = ''0''" by code_simp
  moreover have "trim_space ''0'' = ''0''" by (rule trim_space_id) (simp_all add: space_ends_unfold)
  ultimately show ?thesis using True by (simp add: ParseTimeValue_def parse_duration_def trim_prefix_def)
next
  case False
  from itoa_shape [OF False] obtain s where s: "itoa n = (if n < 0 then CHR ''-'' # s else s)" "list_all is_digit s"
    "s \<noteq> []" "s \<noteq> ''0''" by metis
  note hl = digit_first [OF s(2,3)]
  have trim: "trim_space (itoa n) = itoa n"
    using s(1,3) hl digit_not_space by (intro trim_space_id) (auto simp: space_ends_unfold)
  have "hd (itoa n) \<noteq> CHR ''i''" "itoa n \<noteq> []" using s(1,3) hl by (auto simp: is_digit_def)
  then have pre: "trim_prefix (itoa n) ''in '' = itoa n" by (cases "itoa n") (auto simp: trim_prefix_def)
  have "hd s \<noteq> CHR ''-''" "hd s \<noteq> CHR ''+''" using hl digit_not_sign by auto
  then have "parse_duration (itoa n) = None"
    using s pd_loop_digits [OF s(2,3)] by (simp add: parse_duration_def)
  then show ?thesis
    using trim pre parse_rfc3339_itoa [OF False] parse_int_itoa [of n "''ParseInt''"] assms False
    by (simp add: ParseTimeValue_def in_int64_def)
qed

theorem ParseTimeValue_epoch_witness: "ParseTimeValue demo_rt (VStr ''1700000000'') (time_Unix 7) = Inr (time_Unix 1700000000)"
proof -
  have "itoa 1700000000 = ''1700000000''" by code_simp
  then show ?thesis using ParseTimeValue_epoch [of 1700000000 demo_rt "time_Unix 7"] by (simp add: in_int64_def)
qed

section \<open>Minted tokens\<close>

text \<open>
  C17: when minting succeeds, the algorithm is the requested one or RS256, the token is signed
  with the ring's signing key for it, and the claims are those the request asked for: \<open>exp\<close>
  from the request or the default lifetime, \<open>iat\<close> and \<open>nbf\<close> from the request or the current
  second, \<open>iss\<close> the configured issuer unless the request sets one. \<open>expires_in\<close> is the lifetime
  in seconds, and the lifetime is within the cap.
\<close>

theorem Mint_sound:
  assumes "jwt_laws lib" and "Mint rt lib ring f clock (Some req) = Inr resp" and "distinct (map fst (req_Claims req))"
  shows "\<exists>k tok hdrs expiry. let now = truncate_second clock in
     ring (request_alg req) = Inr k \<and> request_alg req \<in> set allAlgorithms
     \<and> jwt_Sign lib tok (request_alg req) (k_PrivJWK k) hdrs = Inr (AccessToken resp)
     \<and> expiry = (case map_of (req_Claims req) ''exp'' of None \<Rightarrow> time_Add now (f_defaultTTL f) | Some v \<Rightarrow> time_claim rt now v)
     \<and> tok_Get lib tok ''exp'' = Some (VTime expiry)
     \<and> (\<forall>n\<in>{''iat'', ''nbf''}. tok_Get lib tok n =
          Some (VTime (case map_of (req_Claims req) n of None \<Rightarrow> now | Some v \<Rightarrow> time_claim rt now v)))
     \<and> (map_of (req_Claims req) ''iss'' = None \<longrightarrow>
          tok_Get lib tok ''iss'' = (if f_issuer f = [] then None else Some (VStr (f_issuer f))))
     \<and> (\<forall>n. map_of (req_Claims req) n \<noteq> None \<longrightarrow> tok_Get lib tok n \<noteq> None)
     \<and> TokenType resp = ''Bearer'' \<and> ExpiresIn resp = round_seconds (time_Sub expiry now)
     \<and> (0 < f_maxTTL f \<longrightarrow> time_Sub expiry now \<le> f_maxTTL f)"
proof -
  let ?now = "truncate_second clock"
  let ?exp = "requested_exp rt f ?now (req_Claims req)"
  obtain k tok hdrs tok0 e1
    where k: "ring (request_alg req) = Inr k" "jwt_Sign lib tok (request_alg req) (k_PrivJWK k) hdrs = Inr (AccessToken resp)"
      "TokenType resp = ''Bearer''" "ExpiresIn resp = round_seconds (time_Sub ?exp ?now)"
    and cap: "f_maxTTL f > 0 \<longrightarrow> time_Sub ?exp ?now \<le> f_maxTTL f"
    and cl: "mint_claims rt lib ?now (req_Claims req) (jwt_New lib) None = Inr (tok0, e1)"
    and st: "tok_Set lib (mint_defaults lib (f_issuer f) ?now tok0) ''exp'' (VTime ?exp) = Inr tok"
    using Mint_success [OF assms refl] .
  have exp: "tok_Get lib tok ''exp'' = Some (VTime ?exp)"
    using jwt_lawsD(4) [OF assms(1), of "''exp''" "mint_defaults lib (f_issuer f) ?now tok0" ?exp] st by auto
  have other: "tok_Get lib tok n = tok_Get lib (mint_defaults lib (f_issuer f) ?now tok0) n" if "n \<noteq> ''exp''" for n
    using jwt_lawsD(3) [OF assms(1) st that] .
  have none: "tok_Get lib tok0 n = None" if "n \<noteq> ''exp''" "map_of (req_Claims req) n = None" for n
    using mint_claims_frame [OF assms(1) cl that] jwt_lawsD(1) [OF assms(1)] by simp
  have "tok_Get lib tok n = Some (VTime (case map_of (req_Claims req) n of None \<Rightarrow> ?now | Some v \<Rightarrow> time_claim rt ?now v))"
    if n: "n = ''iat'' \<or> n = ''nbf''" for n
    using n other [of n] none [of n] mint_claims_time [OF assms(1) cl assms(3) n]
    by (auto simp: mint_defaults_Get [OF assms(1)] split: option.split)
  moreover have "tok_Get lib tok ''iss'' = (if f_issuer f = [] then None else Some (VStr (f_issuer f)))"
    if "map_of (req_Claims req) ''iss'' = None"
    using other [of "''iss''"] none [OF _ that] by (simp add: mint_defaults_Get [OF assms(1)])
  moreover have "tok_Get lib tok n \<noteq> None" if "map_of (req_Claims req) n \<noteq> None" for n
    using that exp other [of n] mint_claims_kept [OF assms(1) cl, of n]
    by (cases "n = ''exp''") (auto simp: mint_defaults_Get [OF assms(1)] split: option.split)
  ultimately show ?thesis
    unfolding Let_def
    by (intro exI [of _ k] exI [of _ tok] exI [of _ hdrs] exI [of _ ?exp])
       (use k cap exp Mint_Inr_alg [OF assms(2)] in \<open>simp add: requested_exp_def\<close>)
qed

definition demo_request :: Request where
  "demo_request = \<lparr>req_Claims = [(''sub'', VStr ''alice''), (''exp'', VStr ''2h'')], req_Alg = ''EdDSA'', req_Headers = []\<rparr>"

lemma demo_Signer_Ed: "\<exists>k. Signer demo_ring AlgEdDSA = Inr k"
  using RotateAt_Signer_ok [of demo_ring AlgEdDSA] reachable_inv [OF demo_ring_reachable] demo_enabled
  by (auto simp: allAlgorithms_def)

lemma demo_mint_with:
  assumes k: "ring AlgEdDSA = Inr k"
  shows "\<exists>resp. Mint demo_rt demo_jwt ring demo_factory (time_Unix 1000) (Some demo_request) = Inr resp"
proof -
  have "ParseTimeValue demo_rt (VStr ''2h'') (time_Unix 1000) = Inr (time_Unix 8200)" by code_simp
  moreover have "truncate_second (time_Unix 1000) = time_Unix 1000" by code_simp
  moreover have "time_Sub (time_Unix 8200) (time_Unix 1000) = 7200000000000" by code_simp
  ultimately show ?thesis
    using k by (simp add: Mint_def Let_def demo_request_def request_alg_def JWAAlgorithms_def alg_defs demo_jwt_def
        mint_defaults_def tok_Has_def set_quiet_def demo_factory_def NewFactory_def mint_sign_def)
qed

lemma demo_mint_ok:
  "\<exists>resp. Mint demo_rt demo_jwt (Signer demo_ring) demo_factory (time_Unix 1000) (Some demo_request) = Inr resp"
  using demo_Signer_Ed demo_mint_with by blast

theorem Mint_sound_witness:
  "\<exists>resp. Mint demo_rt demo_jwt (Signer demo_ring) demo_factory (time_Unix 1000) (Some demo_request) = Inr resp
     \<and> TokenType resp = ''Bearer''"
proof -
  obtain resp where resp: "Mint demo_rt demo_jwt (Signer demo_ring) demo_factory (time_Unix 1000) (Some demo_request) = Inr resp"
    using demo_mint_ok by blast
  moreover have "distinct (map fst (req_Claims demo_request))" by (simp add: demo_request_def)
  ultimately show ?thesis using Mint_sound [OF demo_jwt_laws resp] by (auto simp: Let_def)
qed

section \<open>The lifetime cap\<close>

lemma dec_val_less: "list_all is_digit s \<Longrightarrow> dec_val s < 10 ^ length s"
proof (induction s rule: rev_induct)
  case (snoc c s)
  then have "dec_val s + 1 \<le> 10 ^ length s" "dval c < 10" using dval_bounds by auto
  then show ?case by simp
qed simp

lemma frac_field_bounds: "0 \<le> fst (frac_field s) \<and> fst (frac_field s) < Second"
proof -
  have "0 \<le> dec_val ds * 10 ^ (9 - length ds) \<and> dec_val ds * 10 ^ (9 - length ds) < Second"
    if d: "list_all is_digit ds" "length ds \<le> 9" for ds
  proof -
    have "dec_val ds * 10 ^ (9 - length ds) < 10 ^ length ds * 10 ^ (9 - length ds)"
      using dec_val_less [OF d(1)] by simp
    also have "\<dots> = 10 ^ 9" using d(2) by (simp flip: power_add)
    finally show ?thesis using dec_val_nonneg [OF d(1)] by simp
  qed
  moreover have "list_all is_digit (take 9 (takeWhile is_digit r))" for r
    using set_takeWhileD in_set_takeD by (fastforce simp: list_all_iff)
  moreover have "fst (frac_field s) = 0 \<or>
      (\<exists>r. fst (frac_field s) = dec_val (take 9 (takeWhile is_digit r)) * 10 ^ (9 - length (take 9 (takeWhile is_digit r))))"
    unfolding frac_field_def Let_def by (simp only: fst_conv split: list.split if_split) blast
  ultimately show ?thesis by (metis length_take less_eq_int_code(1) min.cobounded2 zero_less_numeral)
qed

lemma parse_rfc3339_ok: "parse_rfc3339 v = Some t \<Longrightarrow> time_ok t"
  using frac_field_bounds
  by (auto simp: parse_rfc3339_def Let_def time_ok_def in_int64_add_sec split: option.splits prod.splits if_splits)
     (metis fst_conv)+

lemma ParseTimeValue_ok:
  assumes "ParseTimeValue rt v now = Inr t" and "time_ok now"
  shows "time_ok t"
  using assms
  by (auto simp: ParseTimeValue_def Let_def time_ok_Add parse_rfc3339_ok split: goval.splits option.splits sum.splits)

lemma mint_claims_parsed:
  assumes "mint_claims rt lib now claims tok e0 = Inr r" and "map_of claims ''exp'' = Some v"
  shows "\<exists>t. ParseTimeValue rt v now = Inr t"
  using assms
proof (induction claims arbitrary: tok e0)
  case (Cons c claims)
  obtain n w where c: "c = (n, w)" by (cases c)
  from Cons show ?case by (auto simp: c split: if_splits sum.splits)
qed simp

lemma unix_seconds_small:
  assumes "\<bar>unix_seconds t\<bar> < 2 ^ 62" and "time_ok t"
  shows "t_sec t = unix_seconds t + unixToInternal"
proof -
  have "t_sec t = wrap64 (unix_seconds t + unixToInternal)"
    using assms(2) wrap64_wrap64_add [of "t_sec t - unixToInternal" unixToInternal]
    by (simp add: unix_seconds_def time_ok_def)
  moreover have "in_int64 (unix_seconds t + unixToInternal)" using assms(1) by (simp add: in_int64_def abs_less_iff)
  ultimately show ?thesis by simp
qed

text \<open>
  C18: the cap holds for the number that goes into the token: if minting succeeds under a cap, and
  the expiry is less than \<open>2 ^ 62\<close> seconds from the epoch, the \<open>exp\<close> written is at most the cap
  after the current second.
\<close>

theorem Mint_cap:
  assumes "jwt_laws lib" and "Mint rt lib ring f clock (Some req) = Inr resp" and "distinct (map fst (req_Claims req))"
    and "0 < f_maxTTL f" and "f_maxTTL f < 2 ^ 63 - 1" and "time_ok clock"
    and "\<bar>unix_seconds (requested_exp rt f (truncate_second clock) (req_Claims req))\<bar> < 2 ^ 62"
    and "\<bar>unix_seconds (truncate_second clock)\<bar> < 2 ^ 62"
  shows "unix_seconds (requested_exp rt f (truncate_second clock) (req_Claims req)) \<le>
     unix_seconds (truncate_second clock) + f_maxTTL f div Second"
proof -
  let ?now = "truncate_second clock"
  let ?exp = "requested_exp rt f ?now (req_Claims req)"
  obtain tok0 e1 where cap: "f_maxTTL f > 0 \<longrightarrow> time_Sub ?exp ?now \<le> f_maxTTL f"
    and cl: "mint_claims rt lib ?now (req_Claims req) (jwt_New lib) None = Inr (tok0, e1)"
    using Mint_success [OF assms(1-3) refl] by metis
  have now: "time_ok ?now" "t_nsec ?now = 0" using assms(6) by (simp_all add: truncate_second_def time_ok_def)
  have ex: "time_ok ?exp"
    using mint_claims_parsed [OF cl] ParseTimeValue_ok [OF _ now(1)] time_ok_Add [OF now(1)]
    by (auto simp: requested_exp_def time_claim_def split: option.split)
  have "time_ns ?exp - time_ns ?now \<le> f_maxTTL f"
    using cap assms(4,5) unfolding time_Sub_clamp [OF ex now(1)] by (auto simp: clamp64_def split: if_splits)
  then have "(t_sec ?exp - t_sec ?now) * Second \<le> f_maxTTL f"
    using ex now(2) by (simp add: time_ns_def time_ok_def algebra_simps)
  then have "t_sec ?exp - t_sec ?now \<le> f_maxTTL f div Second" by (simp add: zdiv_mono1 [of "(t_sec ?exp - t_sec ?now) * Second" "f_maxTTL f" Second, simplified])
  then show ?thesis
    using unix_seconds_small [OF assms(7) ex] unix_seconds_small [OF assms(8) now(1)] by simp
qed

theorem Mint_cap_witness:
  "unix_seconds (requested_exp demo_rt demo_factory (time_Unix 1000) (req_Claims demo_request)) \<le> 1000 + 7200"
proof -
  obtain resp where resp: "Mint demo_rt demo_jwt (Signer demo_ring) demo_factory (time_Unix 1000) (Some demo_request) = Inr resp"
    using demo_mint_ok by blast
  have "distinct (map fst (req_Claims demo_request))" by (simp add: demo_request_def)
  moreover have "truncate_second (time_Unix 1000) = time_Unix 1000" by code_simp
  moreover have "unix_seconds (requested_exp demo_rt demo_factory (time_Unix 1000) (req_Claims demo_request)) = 8200" by code_simp
  ultimately show ?thesis
    using Mint_cap [OF demo_jwt_laws resp]
    by (simp add: demo_factory_def NewFactory_def unix_seconds_Unix in_int64_def)
qed

text \<open>An instant past the representable range wraps to the distant past.\<close>

lemma time_Unix_wraps:
  assumes "2 ^ 63 - unixToInternal \<le> n" and "n < 2 ^ 63"
  shows "t_sec (time_Unix n) = n + unixToInternal - 2 ^ 64"
proof -
  have "(n + unixToInternal + 2 ^ 63) mod 2 ^ 64 = n + unixToInternal + 2 ^ 63 - 2 ^ 64"
    using assms by (intro int_mod_pos_eq [symmetric, THEN sym]) simp_all
  then show ?thesis by (simp add: time_Unix_def wrap64_def)
qed

lemma time_Sub_wrapped:
  assumes "2 ^ 63 - unixToInternal \<le> n" and "n < 2 ^ 63" and "0 \<le> u" and "u < 2 ^ 40"
  shows "time_Sub (time_Unix n) (time_Unix u) = - (2 ^ 63)"
proof -
  have "t_sec (time_Unix n) \<le> - 9223371900000000000" using time_Unix_wraps [OF assms(1,2)] assms(2) by simp
  moreover have "t_sec (time_Unix u) = u + unixToInternal"
    using assms(3,4) by (simp add: time_Unix_def in_int64_def)
  ultimately have "time_ns (time_Unix n) - time_ns (time_Unix u) < - (2 ^ 63)"
    using assms(3) by (simp add: time_ns_def time_Unix_def)
  then show ?thesis by (simp add: time_Sub_clamp clamp64_def)
qed

text \<open>
  C19: the cap can be passed by. For an expiry in the last \<open>62135596800\<close> seconds below \<open>2 ^ 63\<close> the
  instant wraps around to the distant past, the lifetime comes out as the least duration, and
  any cap is met: minting succeeds, the response announces a negative lifetime, and the \<open>exp\<close>
  written into the token is the number that was asked for.
\<close>

theorem Mint_cap_bypass:
  assumes "jwt_laws lib" and "2 ^ 63 - unixToInternal \<le> n" and "n < 2 ^ 63" and "0 \<le> u" and "u < 2 ^ 40"
    and "ring AlgRS256 = Inr k" and "\<forall>tok. \<exists>jws. jwt_Sign lib tok AlgRS256 (k_PrivJWK k) None = Inr jws"
    and "req = \<lparr>req_Claims = [(''exp'', VInt64 n)], req_Alg = [], req_Headers = []\<rparr>"
  shows "\<exists>resp. Mint rt lib ring f (time_Unix u) (Some req) = Inr resp \<and> ExpiresIn resp = - 9223372037
     \<and> unix_seconds (requested_exp rt f (time_Unix u) (req_Claims req)) = n"
proof -
  have now: "truncate_second (time_Unix u) = time_Unix u" by (simp add: truncate_second_def time_Unix_def)
  have exp: "requested_exp rt f (time_Unix u) (req_Claims req) = time_Unix n"
    by (simp add: requested_exp_def time_claim_def ParseTimeValue_def assms(8))
  note sub = time_Sub_wrapped [OF assms(2-5)]
  have alg: "request_alg req \<in> set allAlgorithms" "request_alg req = AlgRS256"
    by (simp_all add: request_alg_def assms(8) allAlgorithms_def)
  have dist: "distinct (map fst (req_Claims req))" by (simp add: assms(8))
  have cl: "mint_claims rt lib (time_Unix u) (req_Claims req) (jwt_New lib) None = Inr (jwt_New lib, Some (time_Unix n))"
    by (simp add: assms(8) ParseTimeValue_def)
  let ?tok = "projr (tok_Set lib (mint_defaults lib (f_issuer f) (time_Unix u) (jwt_New lib)) ''exp'' (VTime (time_Unix n)))"
  obtain jws where "jwt_Sign lib ?tok AlgRS256 (k_PrivJWK k) None = Inr jws" using assms(7) by blast
  then have "Mint rt lib ring f (time_Unix u) (Some req) =
      Inr \<lparr>AccessToken = jws, TokenType = ''Bearer'', ExpiresIn = round_seconds (- (2 ^ 63))\<rparr>"
    using Mint_cases [OF assms(1) dist alg(1), of rt ring f "time_Unix u"] assms(6)
    by (simp add: now Let_def cl exp sub alg(2) mint_sign_def) (simp add: assms(8))
  moreover have "round_seconds (- (2 ^ 63)) = - 9223372037" by code_simp
  moreover have "unix_seconds (time_Unix n) = n" using assms(2,3) by (intro unix_seconds_Unix) (simp add: in_int64_def)
  ultimately show ?thesis by (simp add: exp)
qed

theorem Mint_cap_bypass_witness:
  "\<exists>resp. Mint demo_rt demo_jwt (Signer demo_ring) demo_factory (time_Unix 1700000000)
       (Some \<lparr>req_Claims = [(''exp'', VInt64 9223372000000000000)], req_Alg = [], req_Headers = []\<rparr>) = Inr resp
     \<and> f_maxTTL demo_factory = 7200 * Second"
proof -
  obtain k where k: "Signer demo_ring AlgRS256 = Inr k" using demo_ring_Signer by blast
  have "\<forall>tok. \<exists>jws. jwt_Sign demo_jwt tok AlgRS256 (k_PrivJWK k) None = Inr jws" by (simp add: demo_jwt_def)
  from Mint_cap_bypass [where ring = "Signer demo_ring" and n = 9223372000000000000 and u = 1700000000 and rt = demo_rt
      and f = demo_factory, OF demo_jwt_laws _ _ _ _ k this refl]
  show ?thesis by (auto simp: demo_factory_def NewFactory_def)
qed

section \<open>Minting against a ring\<close>

context ring_reads
begin

lemma mint_refuses_disabled:
  assumes "inv r" and "request_alg req \<notin> set (enabled r)"
  shows "\<exists>e. Mint rt lib (signer r) f clock (Some req) = Inl e"
proof (cases "request_alg req \<in> set allAlgorithms")
  case True
  from signer_refused [OF assms(1) True assms(2)] obtain e where "signer r (request_alg req) = Inl e" by blast
  then show ?thesis
    by (auto simp: Mint_def Let_def JWAAlgorithms_of True mint_sign_def split: sum.split)
next
  case False
  then show ?thesis by (simp add: Mint_def Let_def JWAAlgorithms_of)
qed

lemma mint_key_active:
  assumes "inv r" and "jwt_laws lib" and "Mint rt lib (signer r) f clock (Some req) = Inr resp"
    and "distinct (map fst (req_Claims req))"
  obtains k tok hdrs where "request_alg req \<in> set (enabled r)" "k_Algorithm k = request_alg req"
    "jwt_Sign lib tok (request_alg req) (k_PrivJWK k) hdrs = Inr (AccessToken resp)"
    "lookup r (kid k) = Inr (k_Public k, KeyStatusActive)"
proof -
  obtain k tok hdrs where k: "signer r (request_alg req) = Inr k"
    "jwt_Sign lib tok (request_alg req) (k_PrivJWK k) hdrs = Inr (AccessToken resp)"
    using Mint_success [OF assms(2-4) refl] by metis
  moreover have "request_alg req \<in> set (enabled r)"
    using mint_refuses_disabled [OF assms(1)] assms(3) by (metis sum.distinct(1))
  ultimately show ?thesis
    using that signer_alg [OF assms(1)] lookup_signer [OF assms(1)] by blast
qed

end

text \<open>
  C20: against a key ring, minting only succeeds for an enabled algorithm, and then the token is
  signed with a key of that algorithm that a lookup by its id finds as active at that moment.
\<close>

theorem Mint_signs_with_active_key:
  assumes "view_ok klib v" and "jwt_laws lib" and "Mint rt lib (view_Signer v) f clock (Some req) = Inr resp"
    and "distinct (map fst (req_Claims req))"
  shows "request_alg req \<in> set (view_EnabledAlgorithms v) \<and>
     (\<exists>k tok hdrs. k_Algorithm k = request_alg req
        \<and> jwt_Sign lib tok (request_alg req) (k_PrivJWK k) hdrs = Inr (AccessToken resp)
        \<and> view_Lookup klib v (Kid klib k) = Inr (k_Public k, KeyStatusActive))"
  using kr.mint_key_active [OF assms] by metis

lemma demo_view_mint:
  "\<exists>resp. Mint demo_rt demo_jwt (view_Signer demo_view) demo_factory (time_Unix 1000) (Some demo_request) = Inr resp"
proof -
  obtain k where "view_Signer demo_view AlgEdDSA = Inr k"
    using kr.signer_enabled [OF demo_view_ok] demo_view_algs by blast
  then show ?thesis using demo_mint_with by blast
qed

theorem Mint_signs_with_active_key_witness:
  "''EdDSA'' \<in> set (view_EnabledAlgorithms demo_view)"
proof -
  obtain resp where "Mint demo_rt demo_jwt (view_Signer demo_view) demo_factory (time_Unix 1000) (Some demo_request) = Inr resp"
    using demo_view_mint by blast
  from Mint_signs_with_active_key [OF demo_view_ok demo_jwt_laws this] show ?thesis
    by (simp add: demo_request_def request_alg_def)
qed

end
