(* ===== verification/ServerProps.thy ===== *)
theory ServerProps
  imports Routes TokenFactoryProps VerifyProps
begin

text \<open>
  Properties of the HTTP server: what the middleware guarantees for every response, the table of
  visitors, and the contracts of the endpoints.
\<close>

section \<open>Headers\<close>

text \<open>The headers a handler may set itself; all others come from the middleware.\<close>

definition handler_headers :: "string list" where
  "handler_headers = [''Content-Type'', ''Cache-Control'', ''Pragma'']"

definition passes :: "headers \<Rightarrow> http_response \<Rightarrow> bool" where
  "passes w h = (\<forall>n. n \<notin> set handler_headers \<longrightarrow> resp_header h n = map_of w n)"

lemma passes_writeJSON [simp]: "passes w (writeJSON w st p)" "passes w (writeError w st m)"
    "passes w (writeOAuthError w st co de)" "passes w (writeRaw w da)"
  by (auto simp: passes_def handler_headers_def resp_header_def writeJSON_def writeError_def writeOAuthError_def writeRaw_def)

lemma passes_noStore: "passes (setNoStore w) h \<Longrightarrow> passes w h"
    "passes (map_put ''Cache-Control'' v w) h \<Longrightarrow> passes w h"
  by (auto simp: passes_def handler_headers_def setNoStore_def)

lemma passes_handleToken: "handleToken lb s c r w = Some (h, ev) \<Longrightarrow> passes w h"
  by (auto simp: handleToken_def split: sum.splits)

lemma passes_handleVerify: "passes w (fst (handleVerify lb s c r w))"
  by (rule passes_noStore(2) [where v = "''no-store''"])
    (simp add: handleVerify_def Let_def split: sum.split option.split)

lemma passes_oauth_issue [simp]: "passes w (fst (oauth_issue lb s c r w alg scope claims))"
  by (simp add: oauth_issue_def split: sum.split)

lemma passes_oauth_refuse [simp]: "passes w (fst (oauth_refuse s c r w st co as de))"
  by (simp add: oauth_refuse_def)

lemma passes_handleOAuth: "passes w (fst (handleOAuthClientCredentialsToken lb s c r w))"
  by (rule passes_noStore(1)) (simp add: handleOAuthClientCredentialsToken_def Let_def split: sum.split)

lemma passes_handleIntrospect: "passes w (fst (handleIntrospect lb s c r w))"
  by (rule passes_noStore(1)) (simp add: handleIntrospect_def Let_def split: sum.split)

lemma passes_handleOAuthToken: "passes w (fst (handleOAuthToken lb s c r w))"
  by (simp add: handleOAuthToken_def Let_def split: sum.split)

lemma passes_reading:
  "passes w (handleIndex s w)" "passes w (handleVersion s w)" "passes w (handleHealth lb s c w)"
  "passes w (handleJWKS lb c w)" "passes w (handleJWKByKID lb c r w)" "passes w (handleDiscovery s c w)"
  "passes w (handleAuthorizationServerMetadata s c w)"
  by (simp_all add: handleIndex_def handleVersion_def handleHealth_def handleJWKS_def handleJWKByKID_def
      handleDiscovery_def handleAuthorizationServerMetadata_def Let_def split: sum.split)

lemma passes_run_route: "run_route lb s c r w rt = Some (h, ev) \<Longrightarrow> passes w h"
  using passes_handleVerify [of w lb s c r] passes_handleOAuth [of w lb s c r] passes_handleIntrospect [of w lb s c r]
    passes_handleOAuthToken [of w lb s c r]
  by (cases rt) (auto simp: run_route_def passes_reading passes_handleToken)

lemma passes_header: "passes w h \<Longrightarrow> n \<notin> set handler_headers \<Longrightarrow> resp_header h n = map_of w n"
  by (simp add: passes_def)

text \<open>Whatever the router answers, a header the handlers and the router do not set survives.\<close>

lemma mux_header:
  assumes "mux_ServeHTTP lb s c r w = Some (h, ev)"
    and "n \<notin> set handler_headers" "n \<noteq> ''Allow''" "n \<noteq> ''X-Content-Type-Options''"
  shows "resp_header h n = map_of w n"
  using assms
  by (auto simp: mux_ServeHTTP_def http_Error_def resp_header_def handler_headers_def
      dest!: passes_run_route passes_header [of _ _ n] split: option.splits)

lemma mux_nosniff:
  assumes "mux_ServeHTTP lb s c r w = Some (h, ev)" "map_of w ''X-Content-Type-Options'' = Some ''nosniff''"
  shows "resp_header h ''X-Content-Type-Options'' = Some ''nosniff''"
  using assms passes_header [of w h "''X-Content-Type-Options''"]
  by (auto simp: mux_ServeHTTP_def http_Error_def resp_header_def handler_headers_def dest!: passes_run_route split: option.splits)

section \<open>An instance for the witnesses\<close>

definition demo_quote :: "string \<Rightarrow> string" where
  "demo_quote s = CHR 0x22 # s @ [CHR 0x22]"

definition demo_libs :: "(gomap, gomap, demo_jwk) libs" where
  "demo_libs =
     \<lparr>lb_jwx = demo_jwx, lb_jwt = demo_jwt, lb_j5 = demo_j5, lb_rt = demo_rt, lb_quote = demo_quote,
      lb_MarshalSet = (\<lambda>js. Inr ''keys''), lb_MarshalKey = (\<lambda>j. Inr ''key'')\<rparr>"

text \<open>A limiter that lets a fixed number of requests pass.\<close>

definition demo_limiters :: "int limiters" where
  "demo_limiters = \<lparr>lim_New = (\<lambda>_ burst. burst), lim_Allow = (\<lambda>_ l. if l > 0 then (True, l - 1) else (False, l))\<rparr>"

definition demo_server :: Server where
  "demo_server =
     \<lparr>s_Factory = demo_factory, s_Issuer = ''https://issuer'', s_Version = ''1'', s_rateLimitRPS = Fin 1,
      s_rateLimitBurst = 1, s_audience = ''api'', s_scopes = [], s_discoveryExtra = [(''issuer'', VStr ''https://evil'')],
      s_logger = None\<rparr>"

definition demo_call :: "demo_jwk call" where
  "demo_call =
     \<lparr>c_view = demo_view, c_later = demo_view, c_clock = time_Unix 1000, c_jti = Inr (replicate 16 255), c_id = ''id''\<rparr>"

definition demo_mw :: mw_call where
  "demo_mw = \<lparr>m_seen = time_Unix 1000, m_allow = time_Unix 1000, m_rand = Inr (replicate 16 0), m_stamp = []\<rparr>"

definition demo_get :: "string \<Rightarrow> http_request" where
  "demo_get path =
     \<lparr>r_Method = ''GET'', r_Path = path, r_Query = [], r_Header = [], r_RemoteAddr = ''10.0.0.1:80'', r_BasicUser = None,
      r_MediaType = Inl (errors_New ''mime: no media type''), r_PostForm = Inr [], r_Json = BodyEOF\<rparr>"

lemma demo_libs_simps [simp]:
  "lb_jwx demo_libs = demo_jwx" "lb_jwt demo_libs = demo_jwt" "lb_j5 demo_libs = demo_j5" "lb_rt demo_libs = demo_rt"
  by (simp_all add: demo_libs_def)

lemma demo_call_simps [simp]: "c_view demo_call = demo_view" "c_later demo_call = demo_view" "c_clock demo_call = time_Unix 1000"
  by (simp_all add: demo_call_def)

lemma demo_server_simps [simp]: "s_Factory demo_server = demo_factory"
  by (simp add: demo_server_def)

lemma demo_get_simps [simp]: "r_Method (demo_get p) = ''GET''" "r_Path (demo_get p) = p"
  by (simp_all add: demo_get_def)

definition demo_post :: "string \<Rightarrow> (string \<times> string list) list \<Rightarrow> http_request" where
  "demo_post path form =
     (demo_get path)\<lparr>r_Method := ''POST'', r_MediaType := Inr oauthFormContentType, r_PostForm := Inr form\<rparr>"

definition no_visitors :: "'l visitors" where
  "no_visitors = \<lparr>vi_limiter = Map.empty, vi_lastSeen = Map.empty\<rparr>"

section \<open>The middleware\<close>

definition security_base :: headers where
  "security_base =
     [(''X-Content-Type-Options'', ''nosniff''), (''X-Frame-Options'', ''DENY''), (''Referrer-Policy'', ''no-referrer''),
      (''Content-Security-Policy'', csp)]"

text \<open>The limiter that decides about a client: the one it has, or a new one.\<close>

definition client_limiter :: "'l limiters \<Rightarrow> Server \<Rightarrow> 'l visitors \<Rightarrow> string \<Rightarrow> 'l" where
  "client_limiter lims s vs ip =
     (case vi_limiter vs ip of Some l \<Rightarrow> l | None \<Rightarrow> lim_New lims (s_rateLimitRPS s) (s_rateLimitBurst s))"

lemma getVisitorLimiter_eq:
  "getVisitorLimiter lims s now ip vs =
     (client_limiter lims s vs ip,
      vs\<lparr>vi_limiter := (vi_limiter vs)(ip \<mapsto> client_limiter lims s vs ip), vi_lastSeen := (vi_lastSeen vs)(ip \<mapsto> now)\<rparr>)"
  by (auto simp: getVisitorLimiter_def client_limiter_def Let_def fun_upd_idem split: option.split)

definition given_id :: "mw_call \<Rightarrow> http_request \<Rightarrow> string" where
  "given_id m r =
     (if header_Get r ''X-Request-ID'' = [] then generateRequestID (m_rand m) (m_stamp m) else header_Get r ''X-Request-ID'')"

lemma Handler_eq:
  "Handler lb lims s m c r vs =
     (let ip = client_ip r; l = client_limiter lims s vs ip; (ok, l') = lim_Allow lims (m_allow m) l
      in (if ok then mux_ServeHTTP lb s (c\<lparr>c_id := given_id m r\<rparr>) r (map_put ''X-Request-ID'' (given_id m r) security_base)
          else Some (writeError security_base 429 ''rate limit exceeded'', []),
          \<lparr>vi_limiter = (vi_limiter vs)(ip \<mapsto> l'), vi_lastSeen = (vi_lastSeen vs)(ip \<mapsto> m_seen m)\<rparr>))"
  by (simp add: Handler_def securityHeaders_def rateLimit_def requestID_def getRequestID_def getVisitorLimiter_eq
      security_base_def given_id_def Let_def split: prod.split)

text \<open>
  C26: every response, whatever the request and whatever the handler did, carries the four
  security headers; every response but that of a refused client carries the request id, the one
  the client sent or a generated one.
\<close>

theorem Handler_headers:
  assumes "Handler lb lims s m c r vs = (Some (h, evs), vs')"
  shows "resp_header h ''X-Content-Type-Options'' = Some ''nosniff'' \<and> resp_header h ''X-Frame-Options'' = Some ''DENY''
     \<and> resp_header h ''Referrer-Policy'' = Some ''no-referrer'' \<and> resp_header h ''Content-Security-Policy'' = Some csp
     \<and> (fst (lim_Allow lims (m_allow m) (client_limiter lims s vs (client_ip r))) \<longrightarrow>
          resp_header h ''X-Request-ID'' = Some (given_id m r))"
proof (cases "fst (lim_Allow lims (m_allow m) (client_limiter lims s vs (client_ip r)))")
  case True
  let ?w = "map_put ''X-Request-ID'' (given_id m r) security_base"
  have mux: "mux_ServeHTTP lb s (c\<lparr>c_id := given_id m r\<rparr>) r ?w = Some (h, evs)"
    using assms True by (auto simp: Handler_eq Let_def split: prod.splits)
  have "resp_header h ''X-Content-Type-Options'' = Some ''nosniff''"
    by (rule mux_nosniff [OF mux]) (simp add: security_base_def)
  then show ?thesis
    using mux_header [OF mux, of "''X-Frame-Options''"] mux_header [OF mux, of "''Referrer-Policy''"]
      mux_header [OF mux, of "''Content-Security-Policy''"] mux_header [OF mux, of "''X-Request-ID''"]
    by (simp add: handler_headers_def security_base_def)
next
  case False
  then have "h = writeError security_base 429 ''rate limit exceeded''"
    using assms by (auto simp: Handler_eq Let_def split: prod.splits)
  then show ?thesis
    using False by (simp add: writeError_def writeJSON_def resp_header_def security_base_def)
qed

theorem Handler_headers_witness:
  "\<exists>h evs vs'. Handler demo_libs demo_limiters demo_server demo_mw demo_call (demo_get ''/version'') no_visitors = (Some (h, evs), vs')
     \<and> h_Status h = 200 \<and> resp_header h ''X-Frame-Options'' = Some ''DENY''
     \<and> resp_header h ''X-Request-ID'' = Some (replicate 32 CHR ''0'')"
proof -
  let ?h = "handleVersion demo_server (map_put ''X-Request-ID'' (given_id demo_mw (demo_get ''/version'')) security_base)"
  have lim: "lim_Allow demo_limiters (m_allow demo_mw) (client_limiter demo_limiters demo_server no_visitors ip) = (True, 0)" for ip
    by (simp add: demo_limiters_def client_limiter_def no_visitors_def demo_server_def)
  have mux: "mux_match ''GET'' ''/version'' = Some RVersion"
    by (simp add: mux_match_def patterns_def path_matches_def method_matches_def has_prefix_def)
  have eq: "Handler demo_libs demo_limiters demo_server demo_mw demo_call (demo_get ''/version'') no_visitors =
      (Some (?h, []), snd (Handler demo_libs demo_limiters demo_server demo_mw demo_call (demo_get ''/version'') no_visitors))"
    unfolding Handler_eq Let_def lim by (simp add: mux_ServeHTTP_def mux run_route_def)
  have gid: "given_id demo_mw (demo_get ''/version'') = replicate 32 CHR ''0''"
    by code_simp
  show ?thesis
    using Handler_headers [OF eq] lim eq gid by (fastforce simp: handleVersion_def writeJSON_def)
qed

section \<open>The table of visitors\<close>

definition visitors_ok :: "'l visitors \<Rightarrow> bool" where
  "visitors_ok vs = (dom (vi_limiter vs) = dom (vi_lastSeen vs) \<and> finite (dom (vi_limiter vs)))"

definition server_inv :: "'l server_state \<Rightarrow> bool" where
  "server_inv st = (visitors_ok (st_visitors st) \<and> st_closed st = (\<not> st_cleaning st))"

text \<open>The entry of a client: its limiter and when it was last seen.\<close>

definition entry_of :: "'l visitors \<Rightarrow> string \<Rightarrow> ('l \<times> gotime) option" where
  "entry_of vs ip =
     (case (vi_limiter vs ip, vi_lastSeen vs ip) of (Some l, Some t) \<Rightarrow> Some (l, t) | _ \<Rightarrow> None)"

lemma visitors_ok_entry:
  assumes "visitors_ok vs"
  shows "vi_limiter vs ip = map_option fst (entry_of vs ip)" "vi_lastSeen vs ip = map_option snd (entry_of vs ip)"
proof -
  have "ip \<in> dom (vi_limiter vs) \<longleftrightarrow> ip \<in> dom (vi_lastSeen vs)" using assms by (simp add: visitors_ok_def)
  then show "vi_limiter vs ip = map_option fst (entry_of vs ip)" "vi_lastSeen vs ip = map_option snd (entry_of vs ip)"
    by (auto simp: entry_of_def domIff split: option.splits)
qed

lemma cleanup_loop_other: "ip \<notin> set (map fst visits) \<Longrightarrow> entry_of (cleanup_loop visits vs) ip = entry_of vs ip"
proof (induction visits vs rule: cleanup_loop.induct)
  case (2 jp now visits vs)
  then show ?case by (auto simp: entry_of_def split: option.splits)
qed simp

lemma visitors_ok_del:
  "visitors_ok vs \<Longrightarrow> visitors_ok (vs\<lparr>vi_limiter := (vi_limiter vs)(ip := None), vi_lastSeen := (vi_lastSeen vs)(ip := None)\<rparr>)"
  by (auto simp: visitors_ok_def)

lemma cleanup_loop_ok: "visitors_ok vs \<Longrightarrow> visitors_ok (cleanup_loop visits vs)"
proof (induction visits vs rule: cleanup_loop.induct)
  case (2 jp now visits vs)
  then show ?case using visitors_ok_del [OF 2(4)] by (simp split: option.split)
qed simp

text \<open>A client that was visited is dropped when it was idle for more than ten minutes.\<close>

definition expire :: "gotime \<Rightarrow> ('l \<times> gotime) option \<Rightarrow> ('l \<times> gotime) option" where
  "expire now e = (case e of Some (l, seen) \<Rightarrow> if time_Sub now seen > 10 * Minute then None else e | None \<Rightarrow> None)"

lemma cleanup_loop_entry:
  assumes "visitors_ok vs" "distinct (map fst visits)"
  shows "entry_of (cleanup_loop visits vs) ip =
     (case map_of visits ip of None \<Rightarrow> entry_of vs ip | Some now \<Rightarrow> expire now (entry_of vs ip))"
  using assms
proof (induction visits vs rule: cleanup_loop.induct)
  case (2 jp now visits vs)
  let ?del = "vs\<lparr>vi_limiter := (vi_limiter vs)(jp := None), vi_lastSeen := (vi_lastSeen vs)(jp := None)\<rparr>"
  note ok = visitors_ok_del [OF 2(4), of jp]
  have del: "entry_of ?del x = (if x = jp then None else entry_of vs x)" for x by (simp add: entry_of_def)
  have not_jp: "map_of visits jp = None" using 2(5) by (simp add: map_of_eq_None_iff)
  show ?case
  proof (cases "entry_of vs jp")
    case None
    then show ?thesis using 2 not_jp visitors_ok_entry [OF 2(4)] by (auto simp: expire_def)
  next
    case (Some e)
    then obtain l seen where e: "entry_of vs jp = Some (l, seen)" "vi_lastSeen vs jp = Some seen"
      using visitors_ok_entry [OF 2(4), of jp] by (cases e) auto
    show ?thesis
      using 2(2) [OF e(2) _ ok] 2(3) [OF e(2) _ 2(4)] 2(5) not_jp e by (auto simp: expire_def del split: option.split)
  qed
qed simp

lemma Handler_entry:
  assumes "Handler lb lims s m c r vs = (out, vs')" "visitors_ok vs"
  shows "visitors_ok vs'"
    and "entry_of vs' ip =
      (if ip = client_ip r then Some (snd (lim_Allow lims (m_allow m) (client_limiter lims s vs ip)), m_seen m) else entry_of vs ip)"
proof -
  have vs': "vs' = \<lparr>vi_limiter = (vi_limiter vs)(client_ip r \<mapsto> snd (lim_Allow lims (m_allow m) (client_limiter lims s vs (client_ip r)))),
      vi_lastSeen = (vi_lastSeen vs)(client_ip r \<mapsto> m_seen m)\<rparr>"
    using assms(1) by (simp add: Handler_eq Let_def split: prod.splits)
  show "visitors_ok vs'" using assms(2) by (auto simp: vs' visitors_ok_def)
  show "entry_of vs' ip =
      (if ip = client_ip r then Some (snd (lim_Allow lims (m_allow m) (client_limiter lims s vs ip)), m_seen m) else entry_of vs ip)"
    by (simp add: vs' entry_of_def)
qed

lemma server_step_inv: "server_step lb lims s st ev out st' \<Longrightarrow> server_inv st \<Longrightarrow> server_inv st'"
  by (erule server_stepE) (auto simp: server_inv_def cleanupVisitors_def server_Close_def cleanup_loop_ok Handler_entry(1))

lemma server_reachable_inv: "server_reachable lb lims s st \<Longrightarrow> server_inv st"
proof (induction rule: server_reachable.induct)
  case start
  then show ?case by (simp add: server_inv_def start_state_def visitors_ok_def)
qed (rule server_step_inv)

text \<open>
  In every state the running server reaches, the two maps know the same clients, so that no
  limiter is kept without a time by which it can be cleaned up, the table is finite, and after
  \<open>Close\<close> the cleanup goroutine does not run.
\<close>

theorem server_invariant:
  assumes "server_reachable lb lims s st"
  shows "dom (vi_limiter (st_visitors st)) = dom (vi_lastSeen (st_visitors st)) \<and> finite (dom (vi_limiter (st_visitors st)))
     \<and> (st_closed st \<longleftrightarrow> \<not> st_cleaning st)"
  using server_reachable_inv [OF assms] unfolding server_inv_def visitors_ok_def by blast

lemma demo_reachable:
  "server_reachable demo_libs demo_limiters demo_server
     (server_Close (start_state \<lparr>vi_limiter = Map.empty, vi_lastSeen = Map.empty\<rparr>
        \<lparr>st_visitors := snd (Handler demo_libs demo_limiters demo_server demo_mw demo_call (demo_get ''/'')
            \<lparr>vi_limiter = Map.empty, vi_lastSeen = Map.empty\<rparr>)\<rparr>))"
  by (rule server_reachable.step [OF server_reachable.step [OF server_reachable.start] server_step.stop])
    (rule server_step.serve, simp add: start_state_def prod_eq_iff)

theorem server_invariant_witness:
  "\<exists>st. server_reachable demo_libs demo_limiters demo_server st \<and> st_closed st \<and> \<not> st_cleaning st
     \<and> dom (vi_lastSeen (st_visitors st)) = {''10.0.0.1:80''}"
proof -
  have "client_ip (demo_get ''/'') = ''10.0.0.1:80''" by code_simp
  then have "dom (vi_limiter (snd (Handler demo_libs demo_limiters demo_server demo_mw demo_call (demo_get ''/'')
      \<lparr>vi_limiter = Map.empty, vi_lastSeen = Map.empty\<rparr>))) = {''10.0.0.1:80''}"
    by (simp add: Handler_eq Let_def split: prod.split)
  then show ?thesis
    using server_invariant [OF demo_reachable] demo_reachable by (auto simp: server_Close_def start_state_def)
qed

text \<open>
  The contract of the rate limit, one client at a time: a client's own requests drive its
  limiter, an idle client is forgotten, and nothing else matters.
\<close>

definition client_step :: "'l limiters \<Rightarrow> Server \<Rightarrow> string \<Rightarrow> 'j event \<Rightarrow> ('l \<times> gotime) option \<Rightarrow> ('l \<times> gotime) option" where
  "client_step lims s ip ev e =
     (case ev of
        Serve m c r \<Rightarrow>
          if client_ip r = ip
          then Some (snd (lim_Allow lims (m_allow m)
                 (case e of Some (l, _) \<Rightarrow> l | None \<Rightarrow> lim_New lims (s_rateLimitRPS s) (s_rateLimitBurst s))), m_seen m)
          else e
      | Tick visits \<Rightarrow> (case map_of visits ip of None \<Rightarrow> e | Some now \<Rightarrow> expire now e)
      | Stop \<Rightarrow> e)"

text \<open>A run of the server: its events with their responses.\<close>

inductive server_run ::
    "('t, 'h, 'j) libs \<Rightarrow> 'l limiters \<Rightarrow> Server \<Rightarrow> ('j event \<times> (http_response \<times> audit_event list) option) list \<Rightarrow>
     'l server_state \<Rightarrow> bool"
  for lb :: "('t, 'h, 'j) libs" and lims :: "'l limiters" and s :: Server where
  none: "server_run lb lims s [] (start_state \<lparr>vi_limiter = Map.empty, vi_lastSeen = Map.empty\<rparr>)"
| more: "server_run lb lims s tr st \<Longrightarrow> server_step lb lims s st ev out st' \<Longrightarrow> server_run lb lims s (tr @ [(ev, out)]) st'"

lemma server_run_reachable: "server_run lb lims s tr st \<Longrightarrow> server_reachable lb lims s st"
  by (induction rule: server_run.induct) (auto intro: server_reachable.intros)

lemma client_limiter_entry:
  "visitors_ok vs \<Longrightarrow> client_limiter lims s vs ip =
     (case entry_of vs ip of Some (l, _) \<Rightarrow> l | None \<Rightarrow> lim_New lims (s_rateLimitRPS s) (s_rateLimitBurst s))"
  using visitors_ok_entry(1) [of vs ip] by (simp add: client_limiter_def split: option.split)

lemma server_step_client:
  assumes "server_step lb lims s st ev out st'" "server_inv st"
  shows "entry_of (st_visitors st') ip = client_step lims s ip ev (entry_of (st_visitors st) ip)"
proof -
  have ok: "visitors_ok (st_visitors st)" using assms(2) by (simp add: server_inv_def)
  from assms(1) show ?thesis
  proof cases
    case (serve m c r vs)
    then show ?thesis using Handler_entry(2) [OF serve(3) ok, of ip] client_limiter_entry [OF ok, of lims s ip]
      by (simp add: client_step_def)
  next
    case (tick visits)
    then show ?thesis using cleanup_loop_entry [OF ok] by (simp add: cleanupVisitors_def client_step_def)
  next
    case stop
    then show ?thesis by (simp add: server_Close_def client_step_def)
  qed
qed

text \<open>The events that concern a client.\<close>

definition concerns :: "string \<Rightarrow> 'j event \<Rightarrow> bool" where
  "concerns ip ev = (case ev of Serve m c r \<Rightarrow> client_ip r = ip | Tick visits \<Rightarrow> ip \<in> fst ` set visits | Stop \<Rightarrow> False)"

lemma client_step_id: "\<not> concerns ip ev \<Longrightarrow> client_step lims s ip ev e = e"
  by (auto simp: concerns_def client_step_def map_of_eq_None_iff split: event.splits option.splits)
    (metis fst_conv imageI map_of_SomeD)

lemma fold_client_step_filter:
  "fold (client_step lims s ip) (filter (concerns ip) evs) e = fold (client_step lims s ip) evs e"
  by (induction evs arbitrary: e) (auto simp: client_step_id)



section \<open>Discovery\<close>

lemma put_all_map_of: "map_of (put_all kvs doc) k = (case map_of (rev kvs) k of Some v \<Rightarrow> Some v | None \<Rightarrow> map_of doc k)"
  by (induction kvs arbitrary: doc) (auto simp: put_all_def map_add_def split: option.splits)

definition derived_fields :: "string list" where
  "derived_fields =
     [''subject_types_supported'', ''id_token_signing_alg_values_supported'', ''response_types_supported'',
      ''grant_types_supported'', ''token_endpoint_auth_methods_supported'', ''claims_supported'', ''scopes_supported'',
      ''issuer'', ''jwks_uri'', ''token_endpoint'', ''introspection_endpoint'']"

text \<open>
  C27: whatever extra metadata is configured, the core fields of the discovery document are those
  derived from the issuer, the signing algorithms are those the ring has enabled, and extra
  metadata under any other name is served as it was configured; both well-known paths serve the
  same document.
\<close>

theorem discovery_core_fields_win:
  assumes "distinct (map fst (s_discoveryExtra s))"
  shows "let doc = discoveryDocument s algs; base = trim_suffix (s_Issuer s) ''/'' in
     map_of doc ''issuer'' = Some (VStr (s_Issuer s))
     \<and> map_of doc ''jwks_uri'' = Some (VStr (base @ ''/.well-known/jwks.json''))
     \<and> map_of doc ''token_endpoint'' = Some (VStr (base @ ''/oauth/token''))
     \<and> map_of doc ''introspection_endpoint'' = Some (VStr (base @ ''/introspect''))
     \<and> map_of doc ''id_token_signing_alg_values_supported'' = Some (VStrs algs)
     \<and> (\<forall>n. n \<notin> set derived_fields \<longrightarrow> map_of doc n = map_of (s_discoveryExtra s) n)
     \<and> handleDiscovery s c w = handleAuthorizationServerMetadata s c w"
proof -
  have rev: "map_of (rev (s_discoveryExtra s)) n = map_of (s_discoveryExtra s) n" for n
    using assms by (metis distinct_rev map_of_eqI map_of_inject_set rev_map set_rev)
  show ?thesis
    by (simp add: discoveryDocument_def put_all_map_of derived_fields_def rev Let_def handleDiscovery_def
        handleAuthorizationServerMetadata_def split: option.split)
qed

theorem discovery_core_fields_win_witness:
  "map_of (discoveryDocument demo_server [AlgRS256]) ''issuer'' = Some (VStr ''https://issuer'')
     \<and> map_of (s_discoveryExtra demo_server) ''issuer'' = Some (VStr ''https://evil'')"
  using discovery_core_fields_win [of demo_server "[AlgRS256]" demo_call "[]"] by (simp add: demo_server_def Let_def)

end
