(* ===== verification/EndpointProps.thy ===== *)
theory EndpointProps
  imports ServerProps
begin

text \<open>
  What the token endpoints promise: the token an OAuth request gets, what introspection reveals,
  which request bodies are refused, and the form of token ids.
\<close>

section \<open>Durations of requests\<close>

lemma pd_step_range: "pd_step d s = Some (d', s') \<Longrightarrow> 0 \<le> d' \<and> d' \<le> 2 ^ 63"
  by (auto simp: pd_step_def Let_def split: if_splits option.splits prod.splits)

lemma pd_loop_range: "pd_loop d s = Some x \<Longrightarrow> 0 \<le> d \<Longrightarrow> d \<le> 2 ^ 63 \<Longrightarrow> 0 \<le> x \<and> x \<le> 2 ^ 63"
proof (induction d s rule: pd_loop.induct)
  case (1 d s)
  show ?case
  proof (cases "s = []")
    case False
    obtain d' s' where step: "pd_step d s = Some (d', s')" "pd_loop d' s' = Some x"
      using 1(2) False by (subst (asm) pd_loop.simps) (auto split: option.splits)
    then show ?thesis using 1(1) [OF False step(1) refl step(2)] pd_step_range [OF step(1)] by simp
  qed (use 1 in \<open>simp\<close>)
qed

lemma parse_duration_range:
  assumes "parse_duration s = Some d"
  shows "in_int64 d"
proof -
  have "0 \<le> x \<and> x \<le> 2 ^ 63" if "pd_loop 0 s' = Some x" for x s' using pd_loop_range [OF that] by simp
  then show ?thesis
    using assms by (force simp: parse_duration_def in_int64_def Let_def split: if_splits option.splits)
qed

lemma selectTTL_Inr:
  assumes "selectTTL f raw = Inr (ttl, given)"
  shows "0 \<le> ttl" "in_int64 ttl" "0 < MaxTTL f \<Longrightarrow> given \<Longrightarrow> ttl \<le> MaxTTL f" "given \<longleftrightarrow> trim_space raw \<noteq> []"
    "given \<Longrightarrow> parse_duration (trim_space raw) = Some ttl"
  using assms parse_duration_range by (auto simp: selectTTL_def Let_def in_int64_def split: if_splits option.splits)

lemma time_claim_duration: "in_int64 d \<Longrightarrow> time_claim rt now (VStr (duration_String d)) = time_Add now d"
  using parse_duration_String [of d] by (simp add: time_claim_def ParseTimeValue_def)

lemma time_Sub_Add:
  assumes "time_ok now" and "0 \<le> d" and "in_int64 d" and "t_sec now \<le> 2 ^ 62"
  shows "time_Sub (time_Add now d) now = d"
proof -
  have n: "0 \<le> t_nsec now" "t_nsec now < Second" "in_int64 (t_sec now)" using assms(1) by (simp_all add: time_ok_def)
  have "(time_ns now + d) div Second = t_sec now + (t_nsec now + d) div Second"
    by (simp add: time_ns_def algebra_simps)
  moreover have "0 \<le> (t_nsec now + d) div Second" using n assms(2) by (simp add: pos_imp_zdiv_nonneg_iff)
  moreover have "t_nsec now + d \<le> 2 ^ 61 * Second" using n assms(3) by (auto simp: in_int64_def)
  then have "(t_nsec now + d) div Second \<le> 2 ^ 61" using zdiv_mono1 [of _ "2 ^ 61 * Second" Second] by simp
  ultimately have "in_int64 ((time_ns now + d) div Second)" using n assms(4) by (auto simp: in_int64_def)
  then have "time_ns (time_Add now d) = time_ns now + d" by (rule time_ns_Add [OF assms(1)])
  then show ?thesis using time_Sub_exact [OF time_ok_Add [OF assms(1)] assms(1), of d] assms(3) by simp
qed

section \<open>The claims of a minted token\<close>

text \<open>What the library documents of the string claims: they are read back as they were set.\<close>

definition jwt_string_laws :: "('t, 'h, 'j) jwt_lib \<Rightarrow> bool" where
  "jwt_string_laws lib =
     (\<forall>t n x t'. n \<in> {''sub'', ''jti'', ''client_id'', ''scope''} \<longrightarrow> tok_Set lib t n (VStr x) = Inr t' \<longrightarrow>
        tok_Get lib t' n = Some (VStr x))"

lemma mint_claims_string:
  assumes laws: "jwt_laws lib" "jwt_string_laws lib" and m: "m \<in> {''sub'', ''jti'', ''client_id'', ''scope''}"
    and "mint_claims rt lib now claims tok e0 = Inr (tok', e1)" and "distinct (map fst claims)"
    and "map_of claims m = Some (VStr x)"
  shows "tok_Get lib tok' m = Some (VStr x)"
  using assms(4-)
proof (induction claims arbitrary: tok e0)
  case (Cons c claims)
  obtain n v where c: "c = (n, v)" by (cases c)
  have dist: "distinct (map fst claims)" using Cons.prems(2) by simp
  show ?case
  proof (cases "n = m")
    case True
    then have later: "map_of claims m = None" "v = VStr x" using Cons.prems(2,3) by (auto simp: c map_of_eq_None_iff)
    from Cons.prems(1) True m obtain tok1 where t: "tok_Set lib tok m v = Inr tok1"
      "mint_claims rt lib now claims tok1 e0 = Inr (tok', e1)"
      by (auto simp: c split: sum.splits)
    have "tok_Get lib tok1 m = Some (VStr x)"
      using laws(2) m t(1) later(2) unfolding jwt_string_laws_def by blast
    moreover have "tok_Get lib tok' m = tok_Get lib tok1 m"
      using m by (intro mint_claims_frame [OF laws(1) t(2) _ later(1)]) auto
    ultimately show ?thesis by simp
  next
    case False
    then have w: "map_of claims m = Some (VStr x)" using Cons.prems(3) by (simp add: c)
    from Cons.prems(1)[unfolded c] show ?thesis
      by (cases rule: mint_claims_Cons) (use Cons.IH [OF _ dist w] in blast)+
  qed
qed simp

text \<open>What one minted token holds, for requests without headers.\<close>

lemma server_mint_sound:
  assumes laws: "jwt_laws (lb_jwt lb)" "jwt_string_laws (lb_jwt lb)"
    and mint: "server_mint lb s c \<lparr>req_Claims = claims, req_Alg = alg, req_Headers = []\<rparr> = Inr resp"
    and dist: "distinct (map fst claims)" and alg: "alg \<noteq> []"
  obtains k tok where "view_Signer (c_view c) alg = Inr k"
    "\<exists>hdrs. jwt_Sign (lb_jwt lb) tok alg (k_PrivJWK k) hdrs = Inr (AccessToken resp)" "TokenType resp = ''Bearer''"
    "ExpiresIn resp = round_seconds (time_Sub (requested_exp (lb_rt lb) (s_Factory s) (truncate_second (c_clock c)) claims)
        (truncate_second (c_clock c)))"
    "tok_Get (lb_jwt lb) tok ''exp'' = Some (VTime (requested_exp (lb_rt lb) (s_Factory s) (truncate_second (c_clock c)) claims))"
    "\<forall>n\<in>{''sub'', ''jti'', ''client_id'', ''scope''}. \<forall>x. map_of claims n = Some (VStr x) \<longrightarrow>
        tok_Get (lb_jwt lb) tok n = Some (VStr x)"
proof -
  let ?req = "\<lparr>req_Claims = claims, req_Alg = alg, req_Headers = []\<rparr>"
  let ?now = "truncate_second (c_clock c)"
  let ?exp = "requested_exp (lb_rt lb) (s_Factory s) ?now claims"
  have ra: "request_alg ?req = alg" using alg by (simp add: request_alg_def)
  obtain k tok hdrs tok0 e1 where k: "view_Signer (c_view c) alg = Inr k"
      "jwt_Sign (lb_jwt lb) tok alg (k_PrivJWK k) hdrs = Inr (AccessToken resp)" "TokenType resp = ''Bearer''"
      "ExpiresIn resp = round_seconds (time_Sub ?exp ?now)"
    and cl: "mint_claims (lb_rt lb) (lb_jwt lb) ?now claims (jwt_New (lb_jwt lb)) None = Inr (tok0, e1)"
    and st: "tok_Set (lb_jwt lb) (mint_defaults (lb_jwt lb) (f_issuer (s_Factory s)) ?now tok0) ''exp'' (VTime ?exp) = Inr tok"
    using Mint_success [OF laws(1) mint [unfolded server_mint_def] _ refl, unfolded ra Request.simps, OF dist]
    by (metis (no_types, lifting))
  have exp: "tok_Get (lb_jwt lb) tok ''exp'' = Some (VTime ?exp)"
    using jwt_lawsD(4) [OF laws(1), of "''exp''" "mint_defaults (lb_jwt lb) (f_issuer (s_Factory s)) ?now tok0" ?exp] st by auto
  have str: "tok_Get (lb_jwt lb) tok n = Some (VStr x)"
    if n: "n \<in> {''sub'', ''jti'', ''client_id'', ''scope''}" and x: "map_of claims n = Some (VStr x)" for n x
    using jwt_lawsD(3) [OF laws(1) st, of n] mint_claims_string [OF laws n cl dist x] n
    by (auto simp: mint_defaults_Get [OF laws(1)])
  show ?thesis by (rule that [OF k(1) _ k(3,4) exp]) (use k(2) str in blast)+
qed

section \<open>POST /oauth/token\<close>

lemma status_simps [simp]:
  "h_Status (writeJSON w st p) = st" "h_Status (writeError w st m) = st" "h_Status (writeOAuthError w st co de) = st"
  "h_Status (writeRaw w d) = 200"
  "h_Body (writeJSON w st p) = BJson p" "h_Body (writeError w st m) = BJson (VMap [(''error'', VStr m)])"
  "h_Body (writeOAuthError w st co de) = BJson (VMap [(''error'', VStr co), (''error_description'', VStr de)])"
  by (simp_all add: writeJSON_def writeError_def writeOAuthError_def writeRaw_def)

lemma oauth_issue_200:
  assumes "oauth_issue lb s c r w alg scope claims = (h, evs)" and "h_Status h = 200"
  obtains resp where "server_mint lb s c \<lparr>req_Claims = claims, req_Alg = alg, req_Headers = []\<rparr> = Inr resp"
    "h = writeJSON w 200 (VMap (put_if (scope \<noteq> []) ''scope'' (VStr scope) (response_fields resp)))"
    "evs = [logTokenEvent s r (c_id c) ''oauth_token_minted''
       [(''alg'', VStr alg), (''scope'', VStr scope), (''expires_in'', VInt64 (ExpiresIn resp))]]"
  using assms by (auto simp: oauth_issue_def split: sum.splits if_splits)

lemma oauth_refuse_status: "oauth_refuse s c r w st co as de = (h, evs) \<Longrightarrow> h_Status h = st"
  by (auto simp: oauth_refuse_def)

lemma handleOAuth_200:
  assumes "handleOAuthClientCredentialsToken lb s c r w = (h, evs)" and "h_Status h = 200"
  obtains form alg ttl given jti where "parseOAuthForm r = Inr form"
    "trim_space (values_Get form ''grant_type'') = ''client_credentials''" "oauthClientID r form \<noteq> []"
    "selectAlgorithm (view_EnabledAlgorithms (c_view c)) (values_Get form ''alg'') = Inr alg"
    "selectTTL (s_Factory s) (values_Get form ''ttl'') = Inr (ttl, given)" "generateJTI (c_jti c) = Inr jti"
    "oauth_issue lb s c r (setNoStore w) alg (normalizeScope (values_Get form ''scope''))
       (oauth_claims s (oauthClientID r form) (normalizeScope (values_Get form ''scope'')) jti (ttl, given)) = (h, evs)"
  using assms
  by (auto simp: handleOAuthClientCredentialsToken_def Let_def dest: oauth_refuse_status split: sum.splits if_splits)

lemma oauth_claims_of:
  "map_of (oauth_claims s cid scope jti t) n =
     (if n = ''exp'' \<and> snd t then Some (VStr (duration_String (fst t)))
      else if n = ''aud'' \<and> s_audience s \<noteq> [] then Some (VStr (s_audience s))
      else if n = ''scope'' \<and> scope \<noteq> [] then Some (VStr scope)
      else if n = ''sub'' \<or> n = ''client_id'' then Some (VStr cid) else if n = ''jti'' then Some (VStr jti) else None)"
  by (auto simp: oauth_claims_def put_if_def)

lemma oauth_claims_distinct: "distinct (map fst (oauth_claims s cid scope jti t))"
  by (simp add: oauth_claims_def put_if_def)

lemma selectAlgorithm_nonempty: "selectAlgorithm (view_EnabledAlgorithms v) raw = Inr alg \<Longrightarrow> alg \<noteq> []"
  using kr.enabled_supported [of v]
  by (auto simp: selectAlgorithm_def Let_def allAlgorithms_def alg_defs split: if_splits list.splits)

lemma server_mint_enabled:
  assumes "view_ok (lb_jwx lb) (c_view c)" and "server_mint lb s c req = Inr resp" and "view_Signer (c_view c) (request_alg req) = Inr k"
  shows "request_alg req \<in> set (view_EnabledAlgorithms (c_view c))"
  using kr.signer_iff [OF assms(1) Mint_Inr_alg [OF assms(2) [unfolded server_mint_def]]] assms(3) by blast

lemma noStore_header: "resp_header (writeJSON (setNoStore w) st p) ''Cache-Control'' = Some ''no-store''"
  by (simp add: resp_header_def writeJSON_def setNoStore_def)

text \<open>The lifetime a request asks for is the lifetime the token gets.\<close>

lemma oauth_lifetime:
  assumes ttl: "selectTTL (s_Factory s) raw = Inr (ttl, given)" and asked: "trim_space raw \<noteq> []"
    and clock: "time_ok clk" "t_sec clk \<le> 2 ^ 62" and now: "now = truncate_second clk"
  shows "parse_duration (trim_space raw) = Some ttl \<and> 0 \<le> ttl \<and> (0 < MaxTTL (s_Factory s) \<longrightarrow> ttl \<le> MaxTTL (s_Factory s))
     \<and> requested_exp rt (s_Factory s) now (oauth_claims s cid scope jti (ttl, given)) = time_Add now ttl
     \<and> time_Sub (time_Add now ttl) now = ttl"
proof -
  note T = selectTTL_Inr [OF ttl]
  have g: "given" using asked T(4) by simp
  have "requested_exp rt (s_Factory s) now (oauth_claims s cid scope jti (ttl, given)) = time_Add now ttl"
    using g time_claim_duration [OF T(2)] by (simp add: requested_exp_def oauth_claims_of)
  moreover have "time_Sub (time_Add now ttl) now = ttl"
    by (rule time_Sub_Add [OF _ T(1,2)]) (use clock in \<open>simp_all add: now truncate_second_def time_ok_def\<close>)
  ultimately show ?thesis using T(1) T(3) [OF _ g] T(5) [OF g] by simp
qed

lemma oauth_fields:
  "map_of (put_if b ''scope'' v (response_fields resp)) ''access_token'' = Some (VStr (AccessToken resp))"
  "map_of (put_if b ''scope'' v (response_fields resp)) ''token_type'' = Some (VStr (TokenType resp))"
  "map_of (put_if b ''scope'' v (response_fields resp)) ''expires_in'' = Some (VInt64 (ExpiresIn resp))"
  by (simp_all add: put_if_def response_fields_def)

text \<open>
  C23: when the OAuth endpoint answers 200, the request was a form with the grant type client
  credentials and a client id; the token is signed with the ring's key for an enabled algorithm;
  its \<open>sub\<close>, \<open>client_id\<close> and \<open>jti\<close> are the client and the generated id; and if the request gave a
  lifetime, it was a non-negative duration within the maximum, the token expires exactly that
  long after the current second, and \<open>expires_in\<close> says so. The answer must not be stored.
\<close>

theorem oauth_token_issued:
  assumes laws: "jwt_laws (lb_jwt lb)" "jwt_string_laws (lb_jwt lb)" and view: "view_ok (lb_jwx lb) (c_view c)"
    and clock: "time_ok (c_clock c)" "t_sec (c_clock c) \<le> 2 ^ 62"
    and handle: "handleOAuthClientCredentialsToken lb s c r w = (h, evs)" "h_Status h = 200"
  shows "\<exists>form alg jti k tok hdrs access m. parseOAuthForm r = Inr form
     \<and> trim_space (values_Get form ''grant_type'') = ''client_credentials'' \<and> oauthClientID r form \<noteq> []
     \<and> alg \<in> set (view_EnabledAlgorithms (c_view c)) \<and> view_Signer (c_view c) alg = Inr k
     \<and> jwt_Sign (lb_jwt lb) tok alg (k_PrivJWK k) hdrs = Inr access
     \<and> tok_Get (lb_jwt lb) tok ''sub'' = Some (VStr (oauthClientID r form))
     \<and> tok_Get (lb_jwt lb) tok ''client_id'' = Some (VStr (oauthClientID r form))
     \<and> generateJTI (c_jti c) = Inr jti \<and> tok_Get (lb_jwt lb) tok ''jti'' = Some (VStr jti)
     \<and> h_Body h = BJson (VMap m) \<and> map_of m ''access_token'' = Some (VStr access) \<and> map_of m ''token_type'' = Some (VStr ''Bearer'')
     \<and> (trim_space (values_Get form ''ttl'') \<noteq> [] \<longrightarrow>
         (\<exists>ttl. parse_duration (trim_space (values_Get form ''ttl'')) = Some ttl \<and> 0 \<le> ttl
            \<and> (0 < MaxTTL (s_Factory s) \<longrightarrow> ttl \<le> MaxTTL (s_Factory s))
            \<and> tok_Get (lb_jwt lb) tok ''exp'' = Some (VTime (time_Add (truncate_second (c_clock c)) ttl))
            \<and> map_of m ''expires_in'' = Some (VInt64 (round_seconds ttl))))
     \<and> resp_header h ''Cache-Control'' = Some ''no-store''"
proof -
  let ?now = "truncate_second (c_clock c)"
  obtain form alg ttl given jti where form: "parseOAuthForm r = Inr form"
      "trim_space (values_Get form ''grant_type'') = ''client_credentials''" "oauthClientID r form \<noteq> []"
    and alg: "selectAlgorithm (view_EnabledAlgorithms (c_view c)) (values_Get form ''alg'') = Inr alg"
    and ttl: "selectTTL (s_Factory s) (values_Get form ''ttl'') = Inr (ttl, given)" and jti: "generateJTI (c_jti c) = Inr jti"
    and issue: "oauth_issue lb s c r (setNoStore w) alg (normalizeScope (values_Get form ''scope''))
       (oauth_claims s (oauthClientID r form) (normalizeScope (values_Get form ''scope'')) jti (ttl, given)) = (h, evs)"
    by (rule handleOAuth_200 [OF handle])
  let ?scope = "normalizeScope (values_Get form ''scope'')"
  let ?claims = "oauth_claims s (oauthClientID r form) ?scope jti (ttl, given)"
  obtain resp where mint: "server_mint lb s c \<lparr>req_Claims = ?claims, req_Alg = alg, req_Headers = []\<rparr> = Inr resp"
    and h: "h = writeJSON (setNoStore w) 200 (VMap (put_if (?scope \<noteq> []) ''scope'' (VStr ?scope) (response_fields resp)))"
    by (rule oauth_issue_200 [OF issue handle(2)])
  have ne: "alg \<noteq> []" by (rule selectAlgorithm_nonempty [OF alg])
  obtain k tok where k: "view_Signer (c_view c) alg = Inr k"
      "\<exists>hdrs. jwt_Sign (lb_jwt lb) tok alg (k_PrivJWK k) hdrs = Inr (AccessToken resp)" "TokenType resp = ''Bearer''"
      "ExpiresIn resp = round_seconds (time_Sub (requested_exp (lb_rt lb) (s_Factory s) ?now ?claims) ?now)"
      "tok_Get (lb_jwt lb) tok ''exp'' = Some (VTime (requested_exp (lb_rt lb) (s_Factory s) ?now ?claims))"
    and str: "\<forall>n\<in>{''sub'', ''jti'', ''client_id'', ''scope''}. \<forall>x. map_of ?claims n = Some (VStr x) \<longrightarrow>
        tok_Get (lb_jwt lb) tok n = Some (VStr x)"
    by (rule server_mint_sound [OF laws mint oauth_claims_distinct ne])
  have en: "alg \<in> set (view_EnabledAlgorithms (c_view c))"
    using server_mint_enabled [OF view mint] k(1) ne by (simp add: request_alg_def)
  obtain hdrs where sgn: "jwt_Sign (lb_jwt lb) tok alg (k_PrivJWK k) hdrs = Inr (AccessToken resp)" using k(2) by blast
  have claims: "tok_Get (lb_jwt lb) tok ''sub'' = Some (VStr (oauthClientID r form))"
    "tok_Get (lb_jwt lb) tok ''client_id'' = Some (VStr (oauthClientID r form))" "tok_Get (lb_jwt lb) tok ''jti'' = Some (VStr jti)"
    using str by (simp_all add: oauth_claims_of)
  note life = oauth_lifetime [OF ttl _ clock refl, where rt = "lb_rt lb" and cid = "oauthClientID r form" and scope = ?scope and jti = jti]
  show ?thesis
    by (rule exI [of _ form], rule exI [of _ alg], rule exI [of _ jti], rule exI [of _ k], rule exI [of _ tok], rule exI [of _ hdrs],
        rule exI [of _ "AccessToken resp"], rule exI [of _ "put_if (?scope \<noteq> []) ''scope'' (VStr ?scope) (response_fields resp)"])
      (use form en k(1,3,4,5) sgn claims jti life in \<open>simp add: h noStore_header oauth_fields\<close>)
qed

definition demo_form :: "(string \<times> string list) list" where
  "demo_form =
     [(''grant_type'', [''client_credentials'']), (''client_id'', ['' app '']), (''alg'', [''EdDSA'']), (''ttl'', [''1h'']),
      (''scope'', [''read  write''])]"

lemma demo_string_laws: "jwt_string_laws demo_jwt"
  by (auto simp: jwt_string_laws_def demo_jwt_def)

lemma demo_mint_claims:
  assumes "ring AlgEdDSA = Inr k"
  shows "\<exists>resp. Mint demo_rt demo_jwt ring demo_factory (time_Unix 1000)
     (Some \<lparr>req_Claims = oauth_claims demo_server cid scope jti (3600000000000, True), req_Alg = AlgEdDSA, req_Headers = []\<rparr>) = Inr resp"
proof -
  have "time_claim demo_rt (time_Unix 1000) (VStr (duration_String 3600000000000)) = time_Unix 4600" by code_simp
  moreover have "ParseTimeValue demo_rt (VStr (duration_String 3600000000000)) (time_Unix 1000) = Inr (time_Unix 4600)" by code_simp
  moreover have "truncate_second (time_Unix 1000) = time_Unix 1000" by code_simp
  moreover have "time_Sub (time_Unix 4600) (time_Unix 1000) = 3600000000000" by code_simp
  ultimately show ?thesis
    using assms by (simp add: Mint_def Let_def oauth_claims_def put_if_def demo_server_def request_alg_def JWAAlgorithms_def alg_defs
        demo_jwt_def mint_defaults_def tok_Has_def set_quiet_def demo_factory_def NewFactory_def mint_sign_def)
qed

lemma demo_parses:
  "trim_space ''client_credentials'' = ''client_credentials''" "trim_space '' app '' = ''app''" "trim_space ''EdDSA'' = ''EdDSA''"
  "trim_space ''1h'' = ''1h''" "parse_duration ''1h'' = Some 3600000000000"
  by code_simp+

lemma demo_oauth_200:
  "\<exists>h evs. handleOAuthClientCredentialsToken demo_libs demo_server demo_call (demo_post ''/oauth/token'' demo_form) [] = (h, evs)
     \<and> h_Status h = 200"
proof -
  let ?r = "demo_post ''/oauth/token'' demo_form"
  have form: "parseOAuthForm ?r = Inr demo_form" by (simp add: parseOAuthForm_def demo_post_def)
  have vals: "values_Get demo_form ''grant_type'' = ''client_credentials''" "values_Get demo_form ''alg'' = ''EdDSA''"
    "values_Get demo_form ''ttl'' = ''1h''" "values_Get demo_form ''client_id'' = '' app ''"
    by (simp_all add: values_Get_def demo_form_def)
  have cid: "oauthClientID ?r demo_form = ''app''"
    by (simp add: oauthClientID_def demo_post_def demo_get_def vals demo_parses)
  have alg: "selectAlgorithm (view_EnabledAlgorithms demo_view) ''EdDSA'' = Inr AlgEdDSA"
    using demo_view_algs by (simp add: selectAlgorithm_def demo_parses alg_defs List.member_iff)
  have ttl: "selectTTL demo_factory ''1h'' = Inr (3600000000000, True)"
    by (simp add: selectTTL_def demo_parses demo_factory_def NewFactory_def MaxTTL_def)
  obtain jti where jti: "generateJTI (c_jti demo_call) = Inr jti" by (simp add: generateJTI_def demo_call_def Let_def)
  obtain k where k: "view_Signer demo_view AlgEdDSA = Inr k"
    using kr.signer_enabled [OF demo_view_ok] demo_view_algs by blast
  from demo_mint_claims [of "view_Signer demo_view", OF k, of "''app''" "normalizeScope (values_Get demo_form ''scope'')" jti] show ?thesis
    unfolding handleOAuthClientCredentialsToken_def Let_def form
    by (auto simp: vals cid demo_parses jti oauth_issue_def server_mint_def alg ttl split: sum.split)
qed

theorem oauth_token_issued_witness:
  "\<exists>h evs m n. handleOAuthClientCredentialsToken demo_libs demo_server demo_call (demo_post ''/oauth/token'' demo_form) [] = (h, evs)
     \<and> h_Body h = BJson (VMap m) \<and> map_of m ''expires_in'' = Some (VInt64 n)"
proof -
  obtain h evs where h: "handleOAuthClientCredentialsToken demo_libs demo_server demo_call (demo_post ''/oauth/token'' demo_form) [] = (h, evs)"
    "h_Status h = 200" using demo_oauth_200 by blast
  have form: "parseOAuthForm (demo_post ''/oauth/token'' demo_form) = Inr demo_form" by (simp add: parseOAuthForm_def demo_post_def)
  have "values_Get demo_form ''ttl'' = ''1h''" by (simp add: values_Get_def demo_form_def)
  moreover have "time_ok (c_clock demo_call)" "t_sec (c_clock demo_call) \<le> 2 ^ 62" by (simp, simp, code_simp)
  note oauth_token_issued [of demo_libs demo_call, unfolded demo_libs_simps, OF demo_jwt_laws demo_string_laws, unfolded demo_call_simps,
      OF demo_view_ok this [unfolded demo_call_simps] h]
  ultimately show ?thesis using h form by (auto simp: demo_parses)
qed

section \<open>POST /introspect\<close>

definition introspect_input :: "('t, 'h, 'j) libs \<Rightarrow> Server \<Rightarrow> 'j call \<Rightarrow> string \<Rightarrow> Input" where
  "introspect_input lb s c token =
     \<lparr>in_Token = token, in_Keys = Some (RingKeySource (lb_jwx lb) (Some (c_view c))), in_ExpectedIssuer = s_Issuer s,
      in_AllowedAlgs = [], in_Audience = [], in_Leeway = 0, in_Now = c_clock c\<rparr>"



section \<open>POST /token\<close>

lemma handleToken_answers:
  assumes ok: "ring_ok (fst (c_view c))" "ring_ok (fst (c_later c))" and en: "enabled_alg (fst (c_later c)) = enabled_alg (fst (c_view c))"
  shows "handleToken lb s c r w \<noteq> None"
proof (cases "decode_Request (r_Json r)")
  case (Inr req)
  show ?thesis
  proof (cases "server_mint lb s c req")
    case mint: (Inr resp)
    obtain k where "view_Signer (c_view c) (request_alg req) = Inr k"
      using mint by (auto simp: server_mint_def Mint_def Let_def JWAAlgorithms_of mint_sign_def split: sum.splits if_splits)
    then have "enabled_alg (fst (c_view c)) (request_alg req) \<and> request_alg req \<in> set allAlgorithms"
      using RotateAt_Signer_ok [OF ok(1)] by (auto simp: view_Signer_def)
    then obtain k' where "view_Signer (c_later c) (request_alg req) = Inr k'"
      using RotateAt_Signer_ok [OF ok(2)] en by (auto simp: view_Signer_def)
    then show ?thesis using Inr mint by (simp add: handleToken_def)
  qed (use Inr in \<open>simp add: handleToken_def\<close>)
qed (simp add: handleToken_def)

lemma Handler_answers:
  assumes "ring_ok (fst (c_view c))" "ring_ok (fst (c_later c))" and "enabled_alg (fst (c_later c)) = enabled_alg (fst (c_view c))"
  shows "fst (Handler lb lims s m c r vs) \<noteq> None"
proof -
  have "run_route lb s (c\<lparr>c_id := i\<rparr>) r w rt \<noteq> None" for i w rt
    using handleToken_answers [of "c\<lparr>c_id := i\<rparr>" lb s r w] assms by (cases rt) (simp_all add: run_route_def)
  then have "mux_ServeHTTP lb s (c\<lparr>c_id := i\<rparr>) r w \<noteq> None" for i w
    by (simp add: mux_ServeHTTP_def split: option.splits)
  then show ?thesis by (auto simp: Handler_eq Let_def split: prod.splits)
qed

text \<open>
  C28: no request panics, also when the keys rotate while it runs: if \<open>/token\<close> mints a token, the
  ring still has a signing key for the algorithm when its id is logged, and the other handlers do
  not rely on a key being there.
\<close>

theorem Handler_never_panics:
  assumes "ring_reachable (lb_jwx lb) (fst (c_view c))" and "ring_reachable (lb_jwx lb) (fst (c_later c))"
    and "enabled_alg (fst (c_later c)) = enabled_alg (fst (c_view c))"
  shows "fst (Handler lb lims s m c r vs) \<noteq> None"
  using Handler_answers [OF _ _ assms(3)] reachable_inv [OF assms(1)] reachable_inv [OF assms(2)] by blast

theorem Handler_never_panics_witness:
  "fst (Handler demo_libs demo_limiters demo_server demo_mw demo_call (demo_post ''/token'' []) no_visitors) \<noteq> None"
  by (rule Handler_never_panics) (simp_all add: demo_view_def demo_rotated_reachable)

section \<open>Token ids\<close>

lemma hex_nth:
  assumes "i < length bs"
  shows "hex_encode bs ! (2 * i) = hextable ! (unat (bs ! i) div 16)" "hex_encode bs ! (2 * i + 1) = hextable ! (unat (bs ! i) mod 16)"
  using assms
proof (induction bs arbitrary: i)
  case (Cons b bs)
  case 1
  then show ?case using Cons.IH(1) [of "i - 1"] by (cases i) simp_all
next
  case (Cons b bs)
  case 2
  then show ?case using Cons.IH(2) [of "i - 1"] by (cases i) simp_all
qed simp_all

lemma byte_nibbles:
  fixes b :: byte
  shows "unat (or (and b 15) 64) div 16 = 4" "unat (or (and b 63) 128) div 16 \<in> {8, 9, 10, 11}"
proof -
  have d: "x div 16 = drop_bit 4 x" for x :: nat by (simp add: drop_bit_eq_div)
  have n: "drop_bit 4 (15::nat) = 0" "drop_bit 4 (64::nat) = 4" "drop_bit 4 (63::nat) = 3" "drop_bit 4 (128::nat) = 8"
    by (simp_all add: drop_bit_eq_div)
  show "unat (or (and b 15) 64) div 16 = 4"
    by (simp add: d unsigned_or_eq unsigned_and_eq n drop_bit_or drop_bit_and)
  have "and x 3 = x mod 4" for x :: nat using take_bit_eq_mask [of 2 x] by (simp add: take_bit_eq_mod mask_eq_exp_minus_1)
  moreover have "x mod 4 \<in> {0, 1, 2, 3}" for x :: nat by (simp; presburger)
  ultimately have c: "and x 3 \<in> {0, 1, 2, 3}" for x :: nat by simp
  show "unat (or (and b 63) 128) div 16 \<in> {8, 9, 10, 11}"
    using c [of "drop_bit 4 (unat b)"] by (auto simp add: d unsigned_or_eq unsigned_and_eq n drop_bit_or drop_bit_and)
qed

text \<open>
  C29: a generated token id is a version 4 UUID: 36 characters, dashes at the four places, the
  version digit 4, the variant digit one of 8, 9, a, b, lower case hexadecimal elsewhere; without
  the dashes it is the text of the random bytes with six bits fixed.
\<close>

theorem generateJTI_uuid4:
  assumes "length bs = 16"
  shows "\<exists>i. generateJTI (Inr bs) = Inr i \<and> length i = 36 \<and> list_all (\<lambda>n. i ! n = CHR ''-'') [8, 13, 18, 23]
     \<and> i ! 14 = CHR ''4'' \<and> i ! 19 \<in> set ''89ab'' \<and> set i \<subseteq> insert (CHR ''-'') (set hextable)
     \<and> filter (\<lambda>ch. ch \<noteq> CHR ''-'') i = hex_encode (bs[6 := or (and (bs ! 6) 15) 64, 8 := or (and (bs ! 8) 63) 128])"
proof -
  define b2 where "b2 = bs[6 := or (and (bs ! 6) 15) 64, 8 := or (and (bs ! 8) 63) 128]"
  define e where "e = hex_encode b2"
  define i where "i = take 8 e @ ''-'' @ take 4 (drop 8 e) @ ''-'' @ take 4 (drop 12 e) @ ''-'' @ take 4 (drop 16 e) @ ''-'' @ drop 20 e"
  have len: "length b2 = 16" "length e = 32" using assms by (simp_all add: b2_def e_def)
  have i: "generateJTI (Inr bs) = Inr i" using assms by (simp add: generateJTI_def Let_def i_def e_def b2_def)
  have b: "b2 ! 6 = or (and (bs ! 6) 15) 64" "b2 ! 8 = or (and (bs ! 8) 63) 128" using assms by (simp_all add: b2_def)
  have "e ! 12 = CHR ''4''" using hex_nth(1) [of 6 b2] len byte_nibbles(1) [of "bs ! 6"] by (simp add: e_def b hextable_def)
  then have n14: "i ! 14 = CHR ''4''" using len by (simp add: i_def nth_append)
  have "e ! 16 \<in> set ''89ab''" using hex_nth(1) [of 8 b2] len byte_nibbles(2) [of "bs ! 8"] by (auto simp: e_def b hextable_def)
  then have n19: "i ! 19 \<in> set ''89ab''" using len by (simp add: i_def nth_append)
  have hex: "set e \<subseteq> set hextable" by (simp add: e_def hex_encode_chars)
  have nodash: "CHR ''-'' \<notin> set e" using hex by (auto simp: hextable_def)
  have sub: "set (take n (drop k e)) \<subseteq> set e" "set (take n e) \<subseteq> set e" "set (drop k e) \<subseteq> set e" for n k
    by (meson in_set_takeD in_set_dropD subsetI)+
  have keep: "filter (\<lambda>ch. ch \<noteq> CHR ''-'') x = x" if "set x \<subseteq> set e" for x
    using that nodash by (intro filter_True) auto
  have parts: "take 8 e @ take 4 (drop 8 e) @ take 4 (drop 12 e) @ take 4 (drop 16 e) @ drop 20 e = e"
    using append_take_drop_id [of 8 e] append_take_drop_id [of 4 "drop 8 e"] append_take_drop_id [of 4 "drop 12 e"]
      append_take_drop_id [of 4 "drop 16 e"] by simp
  have "filter (\<lambda>ch. ch \<noteq> CHR ''-'') i = e" using parts by (simp add: i_def keep sub)
  moreover have "set i \<subseteq> insert (CHR ''-'') (set hextable)"
    using sub hex unfolding i_def by (auto dest!: in_set_takeD in_set_dropD)
  moreover have "length i = 36" "list_all (\<lambda>n. i ! n = CHR ''-'') [8, 13, 18, 23]" using len by (simp_all add: i_def nth_append)
  ultimately show ?thesis using i n14 n19 by (auto simp: e_def b2_def)
qed

theorem generateJTI_uuid4_witness:
  "\<exists>i. generateJTI (Inr (replicate 16 255)) = Inr i \<and> i ! 14 = CHR ''4'' \<and> length i = 36"
  using generateJTI_uuid4 [of "replicate 16 255"] by auto

section \<open>POST /verify\<close>

lemma decode_verify_err: "\<exists>e'. decode_verify ms req (Some e) = Inl e'"
proof (induction ms arbitrary: req e)
  case (Cons m ms)
  obtain k v where "m = (k, v)" by (cases m)
  then show ?case using Cons by (auto simp: first_err_def split: option.split sum.split json.split prod.split)
qed simp

lemma decode_verify_unknown:
  assumes "k \<in> fst ` set ms" and "field_of [''token'', ''aud'', ''alg'', ''leeway''] k = None"
  shows "\<exists>e. decode_verify ms req err = Inl e"
  using assms(1)
proof (induction ms arbitrary: req err)
  case (Cons m ms)
  obtain k' v where m: "m = (k', v)" by (cases m)
  show ?case
  proof (cases "k' = k")
    case True
    then show ?thesis using assms(2) decode_verify_err by (auto simp: m first_err_def split: option.split)
  next
    case False
    then have "k \<in> fst ` set ms" using Cons.prems by (simp add: m)
    then have IH: "\<exists>e. decode_verify ms rq er = Inl e" for rq er by (rule Cons.IH)
    have "\<exists>e. (case x of None \<Rightarrow> decode_verify ms rq er | Some n \<Rightarrow> g n) = Inl e" if "\<And>n. \<exists>e. g n = Inl e" for x rq er g
      using that IH by (cases x) auto
    then show ?thesis
      using IH by (auto simp: m split: option.split sum.split json.split prod.split)
  qed
qed simp

lemma field_of_None: "field_of names k = None \<longleftrightarrow> (\<forall>n\<in>set names. \<not> equal_fold n k)"
  by (auto simp: field_of_def equal_fold_def find_None_iff)

text \<open>
  A verification request with a member other than \<open>token\<close>, \<open>aud\<close>, \<open>alg\<close> and \<open>leeway\<close> (up to
  the case of letters) is refused with status 400 whatever the other members are: no verdict is
  given and no verification is logged.
\<close>

theorem verify_rejects_unknown_fields:
  assumes "r_Json r = BodyValue (JObj ms)" and "k \<in> fst ` set ms"
    and "\<forall>n\<in>set [''token'', ''aud'', ''alg'', ''leeway'']. \<not> equal_fold n k"
  shows "h_Status (fst (handleVerify lb s c r w)) = 400 \<and> snd (handleVerify lb s c r w) = []
     \<and> (\<exists>msg. h_Body (fst (handleVerify lb s c r w)) = BJson (VMap [(''error'', VStr (''invalid JSON body: '' @ msg))]))"
proof -
  obtain e where "decode_verify ms empty_verifyRequest None = Inl e"
    using decode_verify_unknown [OF assms(2)] assms(3) field_of_None by blast
  then show ?thesis by (simp add: handleVerify_def decode_verifyRequest_def assms(1))
qed

theorem verify_rejects_unknown_fields_witness:
  "h_Status (fst (handleVerify demo_libs demo_server demo_call
     ((demo_get ''/verify'')\<lparr>r_Json := BodyValue (JObj [(''token'', JStr ''x.y.z''), (''jwks'', JObj [])])\<rparr>) [])) = 400"
proof -
  have "\<forall>n\<in>set [''token'', ''aud'', ''alg'', ''leeway'']. \<not> equal_fold n ''jwks''" by code_simp
  then show ?thesis
    using verify_rejects_unknown_fields [of "(demo_get ''/verify'')\<lparr>r_Json := BodyValue (JObj [(''token'', JStr ''x.y.z''), (''jwks'', JObj [])])\<rparr>"
      "[(''token'', JStr ''x.y.z''), (''jwks'', JObj [])]" "''jwks''" demo_libs demo_server demo_call "[]"] by simp
qed

section \<open>GET /.well-known/jwks.json/\<close>

lemma not_found_text: "contains (err_Error q (not_found kid)) ''not found''"
proof -
  have "err_Error q (not_found kid) = ''keyring: key '' @ ''not found'' @ '': kid '' @ q kid"
    by (simp add: err_Error_def not_found_def wrapf_def ErrKeyNotFound_def sentinel_def)
  then show ?thesis using contains_append [of "''keyring: key ''" "''not found''"] by metis
qed

text \<open>
  For a key id the ring publishes, the endpoint answers 200 with the JWK of that key; for any
  other key id it answers 404, and for an empty one 400.
\<close>

theorem jwk_by_kid_status:
  assumes view: "view_ok (lb_jwx lb) (c_view c)" and laws: "jwk_laws (lb_jwx lb)" and path: "r_Path r = jwksPath @ kid"
  shows "(kid = [] \<longrightarrow> handleJWKByKID lb c r w = writeError w 400 ''kid is required'')
     \<and> (\<forall>k\<in>published (fst (c_view c)). kid = Kid (lb_jwx lb) k \<longrightarrow> kid \<noteq> [] \<longrightarrow>
          handleJWKByKID lb c r w = (case lb_MarshalKey lb (k_PubJWK k) of
              Inl e \<Rightarrow> writeError w 500 (err_Error (lb_quote lb) e) | Inr data \<Rightarrow> writeRaw w data))
     \<and> (kid \<noteq> [] \<longrightarrow> kid \<notin> Kid (lb_jwx lb) ` published (fst (c_view c)) \<longrightarrow>
          handleJWKByKID lb c r w = writeError w 404 (err_Error (lb_quote lb) (not_found kid)))"
proof -
  obtain ring ao ro where v: "c_view c = (ring, ao, ro)" by (cases "c_view c")
  have ok: "ring_reachable (lb_jwx lb) ring" "kids_distinct (lb_jwx lb) ring" "covers (kr_active ring) ao" "covers (kr_retired ring) ro"
    using view by (simp_all add: view_ok_def v)
  have trim: "trim_prefix (r_Path r) jwksPath = kid" by (simp add: path trim_prefix_def)
  note by_kid = JWKByKID_cases [OF ok(1) laws ok(2-4)]
  have none: "JWKByKID (lb_jwx lb) ao ro ring kid = Inl (not_found kid)" if "kid \<notin> Kid (lb_jwx lb) ` published ring"
    using by_kid(2) [of kid] that by blast
  show ?thesis
    using not_found_text [of "lb_quote lb" kid]
    by (auto simp: handleJWKByKID_def trim view_JWKByKID_def v by_kid(1) none Let_def)
qed

lemma b64_encode_no_blank: "CHR '' '' \<notin> set (b64_encode bs)"
proof -
  have "list_all (\<lambda>c. c \<noteq> CHR '' '') b64_alphabet" by code_simp
  then show ?thesis using b64_encode_alphabet [of bs] by (auto simp: list_all_iff)
qed

lemma demo_published_kid:
  assumes "k \<in> published demo_rotated"
  shows "\<exists>bs. Kid demo_jwx k = b64_encode bs"
proof -
  obtain x where x: "kr_heap demo_rotated x = Some k" "x \<in> {0, 1, 2, 3}"
    using assms by (auto simp: published_def is_active_def is_retired_def retired_refs_def demo_rotated_maps split: if_splits)
  then show ?thesis using demo_rotated_kids by (auto simp del: b64_encode.simps)
qed

theorem jwk_by_kid_status_witness:
  "handleJWKByKID demo_libs demo_call (demo_get (jwksPath @ ''no such'')) [] = writeError [] 404 (err_Error demo_quote (not_found ''no such''))"
proof -
  have "''no such'' \<notin> Kid demo_jwx ` published (fst demo_view)"
  proof
    assume "''no such'' \<in> Kid demo_jwx ` published (fst demo_view)"
    then obtain k where k: "k \<in> published demo_rotated" "''no such'' = Kid demo_jwx k" by (auto simp: demo_view_def)
    obtain bs where "''no such'' = b64_encode bs" using demo_published_kid [OF k(1)] unfolding k(2) by blast
    then show False using b64_encode_no_blank [of bs] by (metis list.set_intros)
  qed
  then show ?thesis
    using jwk_by_kid_status [of demo_libs demo_call, unfolded demo_libs_simps demo_call_simps, OF demo_view_ok demo_jwx_laws,
      of "demo_get (jwksPath @ ''no such'')" "''no such''" "[]"] by (simp add: demo_libs_def)
qed

end
