(* ===== verification/CliProps.thy ===== *)
theory CliProps
  imports Cli VerifyProps EndpointProps
begin

text \<open>
  The correctness of the command line: the exit code of \<open>verify\<close> is the verdict of the eight
  checks against the loaded key set, the key set holds exactly the usable keys of the document,
  fetching stops after five redirects, \<open>decode\<close> shows what was encoded, and flags override the
  environment.
\<close>

section \<open>An instance of the libraries, for evaluation\<close>

definition demo_os :: os_env where
  "demo_os =
     \<lparr>os_ReadFile = (\<lambda>path. if path = ''keys.json'' then Inr ''keys'' else Inl (errors_New ''no such file'')),
      os_Getenv = (\<lambda>n. if n = ''MAX_TTL'' then ''90m'' else []),
      json_parse = (\<lambda>raw. if raw = ''{}'' then Inr (JObj []) else Inl (errors_New ''invalid character'')),
      ParseFloat = (\<lambda>_. Inl ErrSyntax)\<rparr>"

definition demo_reader :: "public_key jwk_reader" where
  "demo_reader =
     \<lparr>jr_Parse = (\<lambda>raw. if raw = ''keys'' then Inr [Some (Ed25519Pub [7]), None] else Inl (errors_New ''not a key set'')),
      jr_AssignKeyID = Inr, jr_KeyID = (\<lambda>p. Some (b64_encode (demo_thumbprint p))), jr_PublicKey = Inr, jr_Export = Inr,
      jr_Algorithm = (\<lambda>_. None)\<rparr>"

definition demo_loop :: net where
  "demo_loop = \<lparr>net_Request = (\<lambda>_. None), net_Get = (\<lambda>u. Inr (NetRedirect u)), net_Resolve = (\<lambda>_ u. Inr u)\<rparr>"

definition demo_cli :: "public_key cli_libs" where
  "demo_cli =
     \<lparr>cl_env = demo_os, cl_net = demo_loop, cl_jwk = demo_reader, cl_j5 = demo_j5, cl_known = List.member allAlgorithms,
      cl_quote = demo_quote, cl_werr = None\<rparr>"

lemma demo_parse_token:
  assumes "CHR ''.'' \<notin> set alg"
  shows "j5_ParseUnverified demo_j5 (alg @ ''.'' @ kid) = (Some [(''alg'', VStr alg), (''kid'', VStr kid)], demo_claims, None)"
    "j5_ParseWithClaims demo_j5 ms (alg @ ''.'' @ kid) p = None \<longleftrightarrow> kid = b64_encode (demo_thumbprint p)"
proof -
  have "takeWhile (\<lambda>c. c \<noteq> CHR ''.'') (alg @ CHR ''.'' # kid) = alg" "dropWhile (\<lambda>c. c \<noteq> CHR ''.'') (alg @ CHR ''.'' # kid) = CHR ''.'' # kid"
    using assms by (induction alg) auto
  then show "j5_ParseUnverified demo_j5 (alg @ ''.'' @ kid) = (Some [(''alg'', VStr alg), (''kid'', VStr kid)], demo_claims, None)"
    "j5_ParseWithClaims demo_j5 ms (alg @ ''.'' @ kid) p = None \<longleftrightarrow> kid = b64_encode (demo_thumbprint p)"
    by (simp_all add: demo_j5_def demo_j5_base_def demo_parse_def demo_dot_def)
qed

lemma demo_getters:
  "validateClaimShapes demo_j5 demo_claims = None" "j5_GetExpirationTime demo_j5 demo_claims = Inr (Some (time_Unix 8200))"
  "j5_GetNotBefore demo_j5 demo_claims = Inr (Some (time_Unix 1000))" "j5_GetIssuedAt demo_j5 demo_claims = Inr (Some (time_Unix 1000))"
  "j5_GetIssuer demo_j5 demo_claims = Inr ''https://issuer''"
  by (simp_all add: validateClaimShapes_def demo_j5_def demo_j5_base_def demo_time_claim_def demo_str_claim_def demo_claims_def)

lemma trim_demo_token:
  assumes "hd alg \<in> {CHR ''R'', CHR ''E''}" and "alg \<noteq> []" and "bs \<noteq> []"
  shows "trim_space (alg @ ''.'' @ b64_encode bs) = alg @ ''.'' @ b64_encode bs"
proof (rule trim_space_id)
  have "last (b64_encode bs) \<in> set b64_alphabet" using b64_encode_alphabet assms(3) by (metis b64_encode_Nil_iff last_in_set subsetD)
  moreover have "list_all (\<lambda>c. \<not> List.member space_ends c) b64_alphabet" by code_simp
  ultimately have "last (b64_encode bs) \<notin> set space_ends" by (auto simp: list_all_iff)
  then show "last (alg @ ''.'' @ b64_encode bs) \<notin> set space_ends" using assms(3) by simp
qed (use assms in \<open>auto simp: space_ends_unfold\<close>)

definition demo_token :: string where
  "demo_token = ''EdDSA'' @ ''.'' @ b64_encode [3, 7]"

lemma demo_keys: "parseJWKS demo_reader ''keys'' = Inr \<lparr>js_keys = [(b64_encode [3, 7], Ed25519Pub [7])], js_algorithms = [''EdDSA'']\<rparr>"
  by (simp add: parseJWKS_def demo_reader_def usable_key_def keyAlgorithms_def map_filter_simps del: b64_encode.simps)

section \<open>Key sets as key sources\<close>

interpretation jks: key_source "\<lambda>_. True" jwks_source
proof
  fix s kid e key st
  show "errors_Is e ErrKeyNotFound" if "ks_Lookup (jwks_source s) kid = Inl e"
    using that by (auto simp: jwks_source_def jwks_Lookup_def ErrKeyNotFound_def split: option.splits)
  show "st = KeyStatusActive \<or> st = KeyStatusRetired" if "ks_Lookup (jwks_source s) kid = Inr (key, st)"
    using that by (auto simp: jwks_source_def jwks_Lookup_def split: option.splits)
qed

section \<open>The exit code of verify\<close>

definition no_flags :: verifyConfig where
  "no_flags = \<lparr>vc_JWKS = [], vc_Issuer = [], vc_Audience = [], vc_Algs = [], vc_Leeway = 0, vc_JSON = False\<rparr>"

text \<open>What the arguments ask for: a key set that can be loaded and the token with the expectations.\<close>

definition verification_of ::
    "'j cli_libs \<Rightarrow> gotime \<Rightarrow> string list \<Rightarrow> gerr + string \<Rightarrow> jwksKeySource \<Rightarrow> Input \<Rightarrow> bool" where
  "verification_of cl clock args stdin keys inp =
     (\<exists>cfg rest algs token iss. flag_parse verifyFlags args no_flags = (cfg, Inr rest)
        \<and> (vc_JWKS cfg = [] \<longleftrightarrow> vc_Issuer cfg \<noteq> [])
        \<and> normalizeAlgorithms (cl_known cl) (vc_Algs cfg) = Inr algs
        \<and> tokenFromArgsOrStdin rest stdin = Inr token
        \<and> loadKeySource (cl_env cl) (cl_net cl) (cl_jwk cl) (vc_JWKS cfg) (vc_Issuer cfg) = Inr (keys, iss)
        \<and> inp = \<lparr>in_Token = token, in_Keys = Some (jwks_source keys), in_ExpectedIssuer = iss, in_AllowedAlgs = algs,
              in_Audience = (if vc_Audience cfg \<noteq> [] then [vc_Audience cfg] else []), in_Leeway = vc_Leeway cfg, in_Now = clock\<rparr>)"

lemma verification_unique:
  assumes "verification_of cl clock args stdin keys inp" and "verification_of cl clock args stdin keys' inp'"
  shows "keys' = keys \<and> inp' = inp"
  using assms by (auto simp: verification_of_def)

lemma runVerifyCommand_none:
  assumes "\<nexists>keys inp. verification_of cl clock args stdin keys inp"
  shows "o_code (runVerifyCommand cl clock args stdin) = 2 \<and> o_out (runVerifyCommand cl clock args stdin) = Nothing"
  using assms
  by (auto simp: runVerifyCommand_def verification_of_def no_flags_def [symmetric] fails_def split: prod.split sum.split)

lemma runVerifyCommand_some:
  assumes "verification_of cl clock args stdin keys inp" and "Verify (cl_j5 cl) clock inp = Inr v"
  shows "\<exists>json. runVerifyCommand cl clock args stdin = report_verdict (cl_quote cl) (cl_werr cl) json v"
  using assms by (auto simp: runVerifyCommand_def verification_of_def no_flags_def [symmetric])


lemma demo_verification:
  "verification_of demo_cli (time_Unix 2000) [''--jwks=keys.json'', demo_token] (Inr [])
     \<lparr>js_keys = [(b64_encode [3, 7], Ed25519Pub [7])], js_algorithms = [''EdDSA'']\<rparr>
     \<lparr>in_Token = demo_token, in_Keys = Some (jwks_source \<lparr>js_keys = [(b64_encode [3, 7], Ed25519Pub [7])], js_algorithms = [''EdDSA'']\<rparr>),
      in_ExpectedIssuer = [], in_AllowedAlgs = [], in_Audience = [], in_Leeway = 0, in_Now = time_Unix 2000\<rparr>"
proof -
  have trim: "trim_space demo_token = demo_token" unfolding demo_token_def by (rule trim_demo_token) simp_all
  have "flag_parse verifyFlags [''--'' @ ''jwks'' @ ''='' @ ''keys.json'', demo_token] no_flags =
      flag_parse verifyFlags [demo_token] (no_flags\<lparr>vc_JWKS := ''keys.json''\<rparr>)"
    by (rule flag_parse_equals [where f = "StringVar ''jwks'' (\<lambda>v c. c\<lparr>vc_JWKS := v\<rparr>)"]) (simp_all add: verifyFlags_def StringVar_def)
  also have "\<dots> = (no_flags\<lparr>vc_JWKS := ''keys.json''\<rparr>, Inr [demo_token])"
    by (rule flag_parse_skip) (simp add: demo_token_def)
  finally have "flag_parse verifyFlags [''--jwks=keys.json'', demo_token] no_flags = (no_flags\<lparr>vc_JWKS := ''keys.json''\<rparr>, Inr [demo_token])"
    by simp
  moreover have "loadKeySource demo_os demo_loop demo_reader ''keys.json'' [] =
      Inr (\<lparr>js_keys = [(b64_encode [3, 7], Ed25519Pub [7])], js_algorithms = [''EdDSA'']\<rparr>, [])"
    by (simp add: loadKeySource_def loadKeySourceBytes_def has_prefix_def demo_os_def demo_keys maxKeySourceBytes_def del: b64_encode.simps)
  moreover have "demo_token \<noteq> []" by (simp add: demo_token_def)
  ultimately show ?thesis
    using trim by (simp add: verification_of_def demo_cli_def no_flags_def normalizeAlgorithms_def tokenFromArgsOrStdin_def del: b64_encode.simps)
qed


section \<open>Reading key sets\<close>

lemma find_append: "find P (xs @ ys) = (case find P xs of None \<Rightarrow> find P ys | Some x \<Rightarrow> Some x)"
  by (induction xs) simp_all

lemma fold_keys:
  "map_of (fold (\<lambda>(kid, pub, _) m. map_put kid pub m) used m) kid =
     (case find (\<lambda>u. fst u = kid) (rev used) of Some (_, pub, _) \<Rightarrow> Some pub | None \<Rightarrow> map_of m kid)"
proof (induction used arbitrary: m)
  case (Cons u used)
  obtain k p as where u: "u = (k, p, as)" by (cases u)
  show ?case using Cons.IH [of "map_put k p m"] by (auto simp: u find_append split: option.split)
qed simp

text \<open>
  A key set is read exactly: it is refused when none of its keys is usable; otherwise a lookup
  returns the last usable key with that id, every other id is not found, and the accepted
  algorithms are those of the usable keys, in order and without repetition.
\<close>

lemma parseJWKS_exact:
  assumes "jr_Parse jr raw = Inr ks"
  shows "case parseJWKS jr raw of
      Inl e \<Rightarrow> \<forall>k\<in>set ks. usable_key jr k = None
    | Inr s \<Rightarrow>
        (\<forall>kid. jwks_Lookup s kid =
           (case find (\<lambda>u. fst u = kid) (rev (List.map_filter (usable_key jr) ks)) of
              Some (_, pub, _) \<Rightarrow> Inr (pub, KeyStatusActive)
            | None \<Rightarrow> Inl (wrapf [] ErrKeyNotFound [Lit '': kid '', Quo kid])))
        \<and> (\<exists>k\<in>set ks. usable_key jr k \<noteq> None) \<and> sorted (js_algorithms s) \<and> distinct (js_algorithms s)
        \<and> set (js_algorithms s) = {alg. \<exists>k\<in>set ks. \<exists>kid pub algs. usable_key jr k = Some (kid, pub, algs) \<and> alg \<in> set algs}"
proof -
  let ?used = "List.map_filter (usable_key jr) ks"
  let ?keys = "fold (\<lambda>(kid, pub, _) m. map_put kid pub m) ?used []"
  have mem: "set ?used = {u. \<exists>k\<in>set ks. usable_key jr k = Some u}" by (rule set_map_filter_Some)
  have empty: "?keys = [] \<longleftrightarrow> ?used = []"
  proof
    assume e: "?keys = []"
    show "?used = []"
    proof (rule ccontr)
      assume "?used \<noteq> []"
      then obtain kid p as us where u: "rev ?used = (kid, p, as) # us" by (metis prod_cases3 list.exhaust rev_is_Nil_conv)
      have "map_of ?keys kid = Some p" using fold_keys [of ?used "[]" kid] by (simp add: u)
      then show False using e by simp
    qed
  qed simp
  show ?thesis
  proof (cases "?used = []")
    case True
    then have "usable_key jr k = None" if "k \<in> set ks" for k using mem that by (cases "usable_key jr k") auto
    then show ?thesis using True by (simp add: parseJWKS_def assms Let_def)
  next
    case False
    let ?s = "\<lparr>js_keys = ?keys, js_algorithms = sort (remdups (concat (map (\<lambda>(_, _, algs). algs) ?used)))\<rparr>"
    have eq: "parseJWKS jr raw = Inr ?s" using False empty by (simp add: parseJWKS_def assms Let_def)
    obtain k where k: "k \<in> set ks" "usable_key jr k = Some (hd ?used)" using hd_in_set [OF False] unfolding mem by blast
    then have some: "\<exists>k\<in>set ks. usable_key jr k \<noteq> None" by (intro bexI [of _ k]) simp_all
    have set_algs: "set (js_algorithms ?s) = {alg. \<exists>u\<in>set ?used. alg \<in> set (snd (snd u))}"
      by (simp add: split_beta') blast
    have "set (js_algorithms ?s) = {alg. \<exists>k\<in>set ks. \<exists>kid pub algs. usable_key jr k = Some (kid, pub, algs) \<and> alg \<in> set algs}"
      unfolding set_algs mem by auto
    moreover have "jwks_Lookup ?s kid = (case find (\<lambda>u. fst u = kid) (rev ?used) of
          Some (_, pub, _) \<Rightarrow> Inr (pub, KeyStatusActive) | None \<Rightarrow> Inl (wrapf [] ErrKeyNotFound [Lit '': kid '', Quo kid]))" for kid
      by (simp add: jwks_Lookup_def fold_keys split: option.split)
    ultimately show ?thesis using some by (simp add: eq)
  qed
qed

section \<open>Redirects\<close>

text \<open>A chain of redirects: each URL but the last redirects to the next one.\<close>

fun redirects :: "(string \<Rightarrow> gerr + net_answer) \<Rightarrow> string list \<Rightarrow> bool" where
  "redirects get (u # v # us) = (get u = Inr (NetRedirect v) \<and> redirects get (v # us))"
| "redirects get us = True"

lemma follow_chain:
  assumes "redirects get us" and "us \<noteq> []"
  shows "length us \<le> Suc left \<Longrightarrow> follow get left (hd us) = follow get (Suc left - length us) (last us)"
    and "Suc left < length us \<Longrightarrow> follow get left (hd us) = Inl (errorf [Lit ''stopped after 5 redirects''])"
  using assms
proof (induction us arbitrary: left rule: redirects.induct)
  case (1 get u v us)
  {
    case 1
    then show ?case using "1.IH"(1) [of "left - 1"] by (cases left) (simp_all add: follow.simps [of get _ u])
  next
    case 2
    then show ?case using "1.IH"(2) [of "left - 1"] by (cases left) (simp_all add: follow.simps [of get _ u])
  }
qed simp_all

text \<open>
  C32: fetching a document ends. It takes at most six requests: a chain of up to five redirects is
  followed to its end, where an answer with status 200 and a body of at most one megabyte is the
  result; a longer chain, also an endless one, is an error.
\<close>

theorem fetch_follows_five_redirects:
  assumes "redirects (net_Get nt) us" and "us \<noteq> []" and "net_Request nt (hd us) = None"
  shows "(length us \<le> 6 \<longrightarrow> net_Get nt (last us) = Inr (NetAnswer 200 line (Inr body)) \<longrightarrow>
           fetchBytes nt (hd us) = (if length body \<le> 1048576 then Inr body else Inl (too_big (''response from '' @ hd us))))
     \<and> (6 < length us \<longrightarrow> isl (fetchBytes nt (hd us)))"
proof (intro conjI impI)
  assume "length us \<le> 6" and answer: "net_Get nt (last us) = Inr (NetAnswer 200 line (Inr body))"
  then have "follow (net_Get nt) 5 (hd us) = Inr (200, line, Inr body)"
    using follow_chain(1) [OF assms(1,2), of 5] by (simp add: follow.simps [of _ _ "last us"])
  then show "fetchBytes nt (hd us) = (if length body \<le> 1048576 then Inr body else Inl (too_big (''response from '' @ hd us)))"
    by (simp add: fetchBytes_def assms(3) maxRedirects_def maxKeySourceBytes_def not_le)
next
  assume "6 < length us"
  then show "isl (fetchBytes nt (hd us))"
    using follow_chain(2) [OF assms(1,2), of 5] by (simp add: fetchBytes_def assms(3) maxRedirects_def)
qed

theorem fetch_follows_five_redirects_witness: "isl (fetchBytes demo_loop ''http://loop'')"
proof -
  have "redirects (net_Get demo_loop) (replicate 7 ''http://loop'')" by (simp add: demo_loop_def eval_nat_numeral)
  then show ?thesis
    using fetch_follows_five_redirects [of demo_loop "replicate 7 ''http://loop''" "[]" "[]"] by (simp add: demo_loop_def)
qed

section \<open>Decoding\<close>

text \<open>
  C33: \<open>decode\<close> shows what was encoded: for a compact serialization of the JSON objects of a header
  and a payload, with blanks around it and any signature, valid or not, it prints both objects
  and exits with 0.
\<close>

theorem decode_shows_encoded:
  assumes "json_parse en (bytes_text hb) = Inr (JObj h)" and "json_parse en (bytes_text pb) = Inr (JObj p)"
    and "CHR ''.'' \<notin> set sig" and "trim_space raw = b64_encode hb @ ''.'' @ b64_encode pb @ ''.'' @ sig"
  shows "runDecodeCommand en None [] (Inr raw) =
     \<lparr>o_code = 0, o_out = ShownJson (VMap [(''header'', VMap (any_members h [])), (''claims'', VMap (any_members p []))]), o_err = None\<rparr>"
proof -
  let ?t = "b64_encode hb @ ''.'' @ b64_encode pb @ ''.'' @ sig"
  have trim: "trim_space ?t = ?t" using assms(4) trim_space_idem by metis
  have "list_all (\<lambda>c. c \<noteq> CHR ''.'') b64_alphabet" by code_simp
  then have dot: "CHR ''.'' \<notin> set (b64_encode bs)" for bs using b64_encode_alphabet [of bs] by (auto simp: list_all_iff)
  have "split_on CHR ''.'' ?t = [b64_encode hb, b64_encode pb, sig]"
    using assms(3) dot by (simp add: split_on_append split_on_id)
  then have "decodeCompactJWS en ?t = Inr (Some (any_members h []), Some (any_members p []))"
    unfolding decodeCompactJWS_def trim
    by (simp add: decodeJWSPart_def b64_decode_encode assms(1,2) unmarshal_map_def)
  then show ?thesis using assms(4) by (simp add: runDecodeCommand_def tokenFromArgsOrStdin_def map_value_def)
qed

theorem decode_shows_encoded_witness:
  "o_code (runDecodeCommand demo_os None [] (Inr (b64_encode [0x7B, 0x7D] @ ''.'' @ b64_encode [0x7B, 0x7D] @ ''.x''))) = 0"
proof -
  have json: "json_parse demo_os (bytes_text [0x7B, 0x7D]) = Inr (JObj [])" by code_simp
  let ?t = "b64_encode [0x7B, 0x7D] @ ''.'' @ b64_encode [0x7B, 0x7D] @ ''.'' @ ''x''"
  have "b64_encode [0x7B, 0x7D] = ''e30''" by (simp add: b64_char_def b64_alphabet_def)
  then have "trim_space ?t = ?t" by (intro trim_space_id) (simp_all add: space_ends_unfold del: b64_encode.simps)
  then show ?thesis using decode_shows_encoded [OF json json, of "''x''" ?t] by simp
qed

section \<open>Settings\<close>

text \<open>
  Settings come in three layers: a flag wins over the environment, the environment over the
  default, and a variable whose value cannot be read counts as not set. Whatever duration in the
  notation of Go the flag \<open>--max-ttl\<close> or \<open>MAX_TTL\<close> holds is what the server gets, and no other
  setting changes.
\<close>

theorem max_ttl_layers:
  assumes "os_Getenv en ''DISCOVERY_EXTRA_JSON'' = []" and "in_int64 d"
  shows "loadServeConfig en [] = Inr (defaultServeConfig en)
     \<and> loadServeConfig en [''--max-ttl='' @ duration_String d] = Inr ((defaultServeConfig en)\<lparr>sc_MaxTTL := d\<rparr>)
     \<and> (os_Getenv en ''MAX_TTL'' = duration_String d \<longrightarrow> sc_MaxTTL (defaultServeConfig en) = d)
     \<and> (parse_duration (os_Getenv en ''MAX_TTL'') = None \<longrightarrow> sc_MaxTTL (defaultServeConfig en) = 24 * Hour)"
proof (intro conjI impI)
  have extra: "parseDiscoveryExtra en (sc_DiscoveryExtraJSON (defaultServeConfig en)) = Inr None"
    using assms(1) by (simp add: parseDiscoveryExtra_def defaultServeConfig_def envStr_def Let_def)
  note dur = parse_duration_String [OF assms(2)]
  show "loadServeConfig en [] = Inr (defaultServeConfig en)" by (simp add: loadServeConfig_def extra)
  let ?f = "DurationVar ''max-ttl'' (\<lambda>v c. c\<lparr>sc_MaxTTL := v\<rparr>) :: serveConfig flag"
  have "flag_parse (registerServeFlags en) [''--'' @ ''max-ttl'' @ ''='' @ duration_String d] (defaultServeConfig en) =
      flag_parse (registerServeFlags en) [] ((defaultServeConfig en)\<lparr>sc_MaxTTL := d\<rparr>)"
    by (rule flag_parse_equals [where f = ?f]) (simp_all add: registerServeFlags_def flag_kinds dur)
  then show "loadServeConfig en [''--max-ttl='' @ duration_String d] = Inr ((defaultServeConfig en)\<lparr>sc_MaxTTL := d\<rparr>)"
    by (simp add: loadServeConfig_def extra)
  have "duration_String d \<noteq> []" using dur by (auto simp: parse_duration_def)
  then show "sc_MaxTTL (defaultServeConfig en) = d" if "os_Getenv en ''MAX_TTL'' = duration_String d"
    using that dur by (simp add: defaultServeConfig_def envDur_def)
  show "sc_MaxTTL (defaultServeConfig en) = 24 * Hour" if "parse_duration (os_Getenv en ''MAX_TTL'') = None"
    using that by (simp add: defaultServeConfig_def envDur_def Let_def)
qed

theorem max_ttl_layers_witness:
  "loadServeConfig demo_os [''--max-ttl='' @ duration_String 5400000000000] = Inr ((defaultServeConfig demo_os)\<lparr>sc_MaxTTL := 5400000000000\<rparr>)"
  using max_ttl_layers [of demo_os 5400000000000] by (simp add: demo_os_def in_int64_def)

end
