(* ===== verification/Interop.thy ===== *)
theory Interop
  imports CliProps
begin

text \<open>
  The parts together: a token the server mints is accepted by the server, also after its key was
  replaced, and the key set the server publishes is what the command line reads. The token is
  written by one JWT library and read by another, the key set is written and read by the JWK
  library; what the program relies on of them is stated as laws.
\<close>

section \<open>Minted tokens\<close>

text \<open>An instant as a numeric date, in seconds.\<close>

definition numeric_date :: "gotime \<Rightarrow> gotime" where
  "numeric_date t = time_Unix (unix_seconds t)"

definition date_claim :: "('t, 'h, 'j) jwt_lib \<Rightarrow> 't \<Rightarrow> string \<Rightarrow> gotime option" where
  "date_claim lib tok n = (case tok_Get lib tok n of Some (VTime t) \<Rightarrow> Some (numeric_date t) | _ \<Rightarrow> None)"

definition string_claim :: "('t, 'h, 'j) jwt_lib \<Rightarrow> 't \<Rightarrow> string \<Rightarrow> string" where
  "string_claim lib tok n = (case tok_Get lib tok n of Some (VStr s) \<Rightarrow> s | _ \<Rightarrow> [])"

text \<open>
  A token signed with a generated key, without extra headers: its text has no blanks around it,
  the header names the algorithm and the id of the key, the reader finds the registered claims as
  they were set, times as numeric dates, and the signature verifies with the public key.
\<close>

definition jws_header_law :: "'j jwx \<Rightarrow> ('t, 'h, 'j) jwt_lib \<Rightarrow> jwt5 \<Rightarrow> bool" where
  "jws_header_law klib lib j5 =
     (\<forall>dr alg k tok s. generateKey klib dr alg = Inr k \<longrightarrow> jwt_Sign lib tok alg (k_PrivJWK k) None = Inr s \<longrightarrow>
        s \<noteq> [] \<and> trim_space s = s \<and>
        (\<exists>h claims. j5_ParseUnverified j5 s = (Some h, claims, None) \<and> map_of h ''alg'' = Some (VStr alg) \<and>
           map_of h ''kid'' = map_option VStr (jwk_KeyID klib (k_PrivJWK k))))"

definition jws_claims_law :: "'j jwx \<Rightarrow> ('t, 'h, 'j) jwt_lib \<Rightarrow> jwt5 \<Rightarrow> bool" where
  "jws_claims_law klib lib j5 =
     (\<forall>dr alg k tok s h claims. generateKey klib dr alg = Inr k \<longrightarrow> jwt_Sign lib tok alg (k_PrivJWK k) None = Inr s \<longrightarrow>
        j5_ParseUnverified j5 s = (h, claims, None) \<longrightarrow>
        validateClaimShapes j5 claims = None \<and>
        j5_GetExpirationTime j5 claims = Inr (date_claim lib tok ''exp'') \<and>
        j5_GetNotBefore j5 claims = Inr (date_claim lib tok ''nbf'') \<and>
        j5_GetIssuedAt j5 claims = Inr (date_claim lib tok ''iat'') \<and>
        j5_GetIssuer j5 claims = Inr (string_claim lib tok ''iss''))"

definition jws_signature_law :: "'j jwx \<Rightarrow> ('t, 'h, 'j) jwt_lib \<Rightarrow> jwt5 \<Rightarrow> bool" where
  "jws_signature_law klib lib j5 =
     (\<forall>dr alg k tok s. generateKey klib dr alg = Inr k \<longrightarrow> jwt_Sign lib tok alg (k_PrivJWK k) None = Inr s \<longrightarrow>
        j5_ParseWithClaims j5 [alg] s (k_Public k) = None)"

definition jws_interop :: "'j jwx \<Rightarrow> ('t, 'h, 'j) jwt_lib \<Rightarrow> jwt5 \<Rightarrow> bool" where
  "jws_interop klib lib j5 = (jws_header_law klib lib j5 \<and> jws_claims_law klib lib j5 \<and> jws_signature_law klib lib j5)"

lemma jws_interopD:
  assumes "jws_interop klib lib j5" and "generateKey klib dr alg = Inr k" and "jwt_Sign lib tok alg (k_PrivJWK k) None = Inr s"
  obtains h claims where "s \<noteq> []" "trim_space s = s" "j5_ParseUnverified j5 s = (Some h, claims, None)"
    "map_of h ''alg'' = Some (VStr alg)" "map_of h ''kid'' = map_option VStr (jwk_KeyID klib (k_PrivJWK k))"
    "validateClaimShapes j5 claims = None" "j5_GetExpirationTime j5 claims = Inr (date_claim lib tok ''exp'')"
    "j5_GetNotBefore j5 claims = Inr (date_claim lib tok ''nbf'')" "j5_GetIssuedAt j5 claims = Inr (date_claim lib tok ''iat'')"
    "j5_GetIssuer j5 claims = Inr (string_claim lib tok ''iss'')" "j5_ParseWithClaims j5 [alg] s (k_Public k) = None"
proof -
  from assms(1) have h: "jws_header_law klib lib j5" and c: "jws_claims_law klib lib j5" and g: "jws_signature_law klib lib j5"
    by (simp_all add: jws_interop_def)
  from h [unfolded jws_header_law_def, rule_format, OF assms(2,3)] obtain hd claims where
    hd: "s \<noteq> []" "trim_space s = s" "j5_ParseUnverified j5 s = (Some hd, claims, None)"
    "map_of hd ''alg'' = Some (VStr alg)" "map_of hd ''kid'' = map_option VStr (jwk_KeyID klib (k_PrivJWK k))" by blast
  note cl = c [unfolded jws_claims_law_def, rule_format, OF assms(2,3) hd(3)]
  note sg = g [unfolded jws_signature_law_def, rule_format, OF assms(2,3)]
  show ?thesis by (rule that [OF hd]) (simp_all add: cl sg)
qed

text \<open>The token of a request that leaves \<open>iat\<close>, \<open>nbf\<close> and \<open>iss\<close> to the server.\<close>

definition plain_request :: "Request \<Rightarrow> bool" where
  "plain_request req \<longleftrightarrow> req_Headers req = [] \<and> distinct (map fst (req_Claims req))
     \<and> list_all (\<lambda>n. map_of (req_Claims req) n = None) [''iat'', ''nbf'', ''iss'']"

lemma minted_token:
  assumes laws: "jwt_laws lib" and req: "plain_request req" and mint: "Mint rt lib ring f clock (Some req) = Inr resp"
    and now: "now = truncate_second clock"
  obtains k tok where "ring (request_alg req) = Inr k"
    "jwt_Sign lib tok (request_alg req) (k_PrivJWK k) None = Inr (AccessToken resp)"
    "date_claim lib tok ''exp'' = Some (numeric_date (requested_exp rt f now (req_Claims req)))"
    "date_claim lib tok ''nbf'' = Some (numeric_date now)" "date_claim lib tok ''iat'' = Some (numeric_date now)"
    "string_claim lib tok ''iss'' = f_issuer f"
proof -
  have r: "req_Headers req = []" "distinct (map fst (req_Claims req))"
    and none: "map_of (req_Claims req) ''iat'' = None" "map_of (req_Claims req) ''nbf'' = None" "map_of (req_Claims req) ''iss'' = None"
    using req by (simp_all add: plain_request_def)
  let ?exp = "requested_exp rt f now (req_Claims req)"
  obtain tok0 e1 where cl: "mint_claims rt lib now (req_Claims req) (jwt_New lib) None = Inr (tok0, e1)"
    using Mint_success [OF laws mint r(2) now] by metis
  obtain tok where tok: "tok_Set lib (mint_defaults lib (f_issuer f) now tok0) ''exp'' (VTime ?exp) = Inr tok"
    "tok_Get lib tok ''exp'' = Some (VTime ?exp)"
    using jwt_lawsD(4) [OF laws, of "''exp''" "mint_defaults lib (f_issuer f) now tok0" ?exp] by blast
  have "mint_sign lib ring (request_alg req) (request_alg req) [] (time_Sub ?exp now) tok = Inr resp"
    using mint unfolding Mint_cases [OF laws r(2) Mint_Inr_alg [OF mint]]
    by (simp add: Let_def now [symmetric] cl tok(1) r(1) split: if_splits)
  then obtain k hdrs where k: "ring (request_alg req) = Inr k" "hdrs = None"
    "jwt_Sign lib tok (request_alg req) (k_PrivJWK k) hdrs = Inr (AccessToken resp)"
    by (rule mint_sign_Inr) simp
  have get: "tok_Get lib tok n = tok_Get lib (mint_defaults lib (f_issuer f) now tok0) n" if "n \<noteq> ''exp''" for n
    using jwt_lawsD(3) [OF laws tok(1) that] .
  have "tok_Get lib tok0 n = None" if "n \<noteq> ''exp''" "map_of (req_Claims req) n = None" for n
    using mint_claims_frame [OF laws cl that] jwt_lawsD(1) [OF laws] by simp
  then have "tok_Get lib tok ''nbf'' = Some (VTime now)" "tok_Get lib tok ''iat'' = Some (VTime now)"
    "tok_Get lib tok ''iss'' = (if f_issuer f = [] then None else Some (VStr (f_issuer f)))"
    using none by (simp_all add: get mint_defaults_Get [OF laws])
  then show ?thesis using that [OF k(1) k(3) [unfolded k(2)]] tok(2) by (simp add: date_claim_def string_claim_def)
qed

text \<open>
  A later state of the ring: the same, in which the signing key is active, or one after the rotation
  worker replaced the keys and ticked on, less than the grace period after that.
\<close>

definition later_ring :: "'j jwx \<Rightarrow> 'j KeyRing \<Rightarrow> 'j KeyRing \<Rightarrow> keystatus \<Rightarrow> bool" where
  "later_ring lib r r' st =
     (st = KeyStatusActive \<and> r' = r \<or>
      st = KeyStatusRetired \<and> 0 < kr_grace r \<and> in_int64 (kr_grace r) \<and>
      (\<exists>dr now ord r1 kids ticks. rotation_tick lib dr now ord r = (r1, KeysRotated kids) \<and> time_ok now \<and>
         (\<forall>(dr', now', ord')\<in>set ticks. time_ok now' \<and> time_ns now' - time_ns now < kr_grace r) \<and>
         r' = fst (rotation_run lib ticks r1)))"

lemma later_lookup:
  assumes "view_ok lib v" and "view_ok lib v'" and "later_ring lib (fst v) (fst v') st" and "view_Signer v alg = Inr k"
  shows "view_Lookup lib v' (Kid lib k) = Inr (k_Public k, st)"
proof -
  obtain r ao ro r' ao' ro' where v: "v = (r, ao, ro)" "v' = (r', ao', ro')" by (cases v, cases v')
  have reach: "ring_reachable lib r" and S: "Signer r alg = Inr k"
    and c: "covers (kr_active r') ao'" "covers (kr_retired r') ro'" "kids_distinct lib r'"
    using assms(1,2,4) by (simp_all add: v view_ok_def view_Signer_def)
  from assms(3) consider "st = KeyStatusActive" "r' = r"
    | dr now ord r1 kids ticks where "st = KeyStatusRetired" "0 < kr_grace r" "in_int64 (kr_grace r)"
      "rotation_tick lib dr now ord r = (r1, KeysRotated kids)" "time_ok now"
      "\<forall>(dr', now', ord')\<in>set ticks. time_ok now' \<and> time_ns now' - time_ns now < kr_grace r" "r' = fst (rotation_run lib ticks r1)"
    by (auto simp: later_ring_def v)
  then show ?thesis
  proof cases
    case 1
    then show ?thesis using S c Lookup_active by (auto simp: view_Lookup_def v Signer_Inr)
  next
    case (2 dr now ord r1 kids ticks)
    then show ?thesis using replaced_key_lookup [OF reach S 2(4,2,3,5,6,7) c] by (simp add: view_Lookup_def v)
  qed
qed

section \<open>Accepting a token\<close>

text \<open>A token that parses, whose key is found, whose signature verifies and whose claims hold.\<close>

lemma Verify_accepts:
  assumes parse: "j5_ParseUnverified j5 (trim_space (in_Token inp)) = (Some h, claims, None)"
    and shapes: "validateClaimShapes j5 claims = None"
    and alg: "map_of h ''alg'' = Some (VStr alg)" "alg \<noteq> []" and kid: "map_of h ''kid'' = Some (VStr kid)" "kid \<noteq> []"
    and keys: "in_Keys inp = Some keys" "in_AllowedAlgs inp = []" "alg \<in> set (ks_Algorithms keys)" "ks_Lookup keys kid = Inr (key, st)"
    and sig: "j5_ParseWithClaims j5 [alg] (trim_space (in_Token inp)) key = None"
    and time: "j5_Validate j5 0 (in_Now inp) claims = None" "in_Leeway inp = 0" "clock = in_Now inp"
    and iss: "in_ExpectedIssuer inp = [] \<or> j5_GetIssuer j5 claims = Inr (in_ExpectedIssuer inp)" and aud: "in_Audience inp = []"
  shows "Verify j5 clock inp = Inr ((authenticatedVerdict h claims alg kid st)\<lparr>v_Valid := True\<rparr>)"
proof -
  have "stringHeader h ''alg'' = (alg, True)" "stringHeader h ''kid'' = (kid, True)" using alg kid by (simp_all add: stringHeader_def)
  moreover have "verify_claims j5 (in_Now inp) 0 inp claims base = Inr (base\<lparr>v_Valid := True\<rparr>)" for base
    using iss aud time by (auto simp: verify_claims_def Let_def)
  ultimately show ?thesis
    using assms by (simp add: Verify_def Let_def verify_parsed_def verify_key_def)
qed

lemma rotation_tick_enabled:
  assumes "rotation_tick lib dr now ord r = (r', l)"
  shows "enabled_alg r' = enabled_alg r"
proof -
  obtain r1 e where rot: "RotateAt lib dr now r = (r1, e)" by fastforce
  have "enabled_alg (pruned now ord r1) = enabled_alg r1" by (simp add: fun_eq_iff enabled_alg_def)
  then show ?thesis
    using assms rot RotateAt_enabled [OF rot] by (auto simp: rotation_tick_def PruneAt_eq Let_def split: option.splits)
qed

lemma rotation_run_enabled: "enabled_alg (fst (rotation_run lib ticks r)) = enabled_alg r"
proof (induction ticks arbitrary: r)
  case (Cons t ticks)
  obtain dr now ord where t: "t = (dr, now, ord)" by (cases t)
  obtain r1 l where tick: "rotation_tick lib dr now ord r = (r1, l)" by fastforce
  then show ?case using Cons.IH [of r1] rotation_tick_enabled [OF tick] by (simp add: t tick split_beta Let_def)
qed simp

lemma later_enabled:
  assumes "later_ring lib (fst v) (fst v') st"
  shows "view_EnabledAlgorithms v' = view_EnabledAlgorithms v"
proof -
  have "enabled_alg (fst v') = enabled_alg (fst v)"
    using assms unfolding later_ring_def by (elim disjE conjE exE) (simp_all add: rotation_run_enabled rotation_tick_enabled)
  then show ?thesis by (simp add: view_EnabledAlgorithms_def EnabledAlgorithms_def)
qed

lemma time_Add_zero [simp]: "time_Add (time_Unix n) 0 = time_Unix n"
  by (simp add: time_Add_def time_Unix_def Let_def tdiv_def trem_def add_sec_def)

text \<open>The id of a generated key, in both its JWKs, when thumbprints are not empty.\<close>

definition thumbprint_law :: "'j jwx \<Rightarrow> bool" where
  "thumbprint_law lib = (\<forall>j th. jwk_Thumbprint lib j = Inr th \<longrightarrow> th \<noteq> [])"

lemma generated_kid:
  assumes "jwk_laws lib" and "thumbprint_law lib" and "generateKey lib dr alg = Inr k"
  shows "jwk_KeyID lib (k_PrivJWK k) = Some (Kid lib k)" "jwk_KeyID lib (k_PubJWK k) = Some (Kid lib k)" "Kid lib k \<noteq> []"
proof -
  obtain privJWK pubJWK th where th: "jwk_Thumbprint lib pubJWK = Inr th" "jwk_KeyID lib (k_PubJWK k) = Some (b64_encode th)"
    "jwk_KeyID lib (k_PrivJWK k) = Some (b64_encode th)"
    using generateKey_KeyID [OF assms(1,3)] by metis
  then have "Kid lib k = b64_encode th" by (simp add: Kid_def)
  moreover have "th \<noteq> []" using assms(2) th(1) unfolding thumbprint_law_def by blast
  ultimately show "jwk_KeyID lib (k_PrivJWK k) = Some (Kid lib k)" "jwk_KeyID lib (k_PubJWK k) = Some (Kid lib k)" "Kid lib k \<noteq> []"
    using th by simp_all
qed

lemma signer_generated:
  assumes "view_ok lib v" and "view_Signer v alg = Inr k"
  shows "\<exists>dr. generateKey lib dr alg = Inr k"
  using assms reachable_inv ring_intactD(1)
  by (fastforce simp: view_Signer_def Signer_Inr is_active_def view_ok_def split: prod.splits)

text \<open>The time claims of a minted token at a later moment.\<close>

lemma minted_times:
  assumes laws: "jwt5_laws j5" and shapes: "validateClaimShapes j5 claims = None"
    and claims: "j5_GetExpirationTime j5 claims = Inr (Some (numeric_date e))" "j5_GetNotBefore j5 claims = Inr (Some (numeric_date now))"
      "j5_GetIssuedAt j5 claims = Inr (Some (numeric_date now))"
    and time: "\<not> time_Before t (numeric_date now)" "time_Before t (numeric_date e)"
  shows "j5_Validate j5 0 t claims = None"
proof -
  have "exp_ok j5 0 t claims \<and> nbf_ok j5 0 t claims \<and> iat_ok j5 0 t claims"
    using claims time by (simp add: exp_ok_def nbf_ok_def iat_ok_def numeric_date_def)
  then show ?thesis using jwt5_validate(2) [OF laws shapes] by (cases "j5_Validate j5 0 t claims") auto
qed

text \<open>What the reader finds in a token the server minted, at a time before it expires.\<close>

lemma minted_token_read:
  assumes laws: "jwk_laws (lb_jwx lb)" "thumbprint_law (lb_jwx lb)" "jwt_laws (lb_jwt lb)" "jwt5_laws (lb_j5 lb)"
      "jws_interop (lb_jwx lb) (lb_jwt lb) (lb_j5 lb)"
    and view: "view_ok (lb_jwx lb) (c_view c)"
    and mint: "plain_request req" "server_mint lb s c req = Inr resp"
    and time: "\<not> time_Before t (numeric_date (truncate_second (c_clock c)))"
      "time_Before t (numeric_date (requested_exp (lb_rt lb) (s_Factory s) (truncate_second (c_clock c)) (req_Claims req)))"
  obtains k h cl where "view_Signer (c_view c) (request_alg req) = Inr k" "request_alg req \<in> set (view_EnabledAlgorithms (c_view c))"
    "request_alg req \<noteq> []" "Kid (lb_jwx lb) k \<noteq> []" "AccessToken resp \<noteq> []" "trim_space (AccessToken resp) = AccessToken resp"
    "j5_ParseUnverified (lb_j5 lb) (AccessToken resp) = (Some h, cl, None)" "map_of h ''alg'' = Some (VStr (request_alg req))"
    "map_of h ''kid'' = Some (VStr (Kid (lb_jwx lb) k))" "validateClaimShapes (lb_j5 lb) cl = None"
    "j5_Validate (lb_j5 lb) 0 t cl = None" "j5_GetIssuer (lb_j5 lb) cl = Inr (f_issuer (s_Factory s))"
    "j5_ParseWithClaims (lb_j5 lb) [request_alg req] (AccessToken resp) (k_Public k) = None"
proof -
  let ?now = "truncate_second (c_clock c)"
  let ?alg = "request_alg req"
  obtain k tok where k: "view_Signer (c_view c) ?alg = Inr k"
    and sign: "jwt_Sign (lb_jwt lb) tok ?alg (k_PrivJWK k) None = Inr (AccessToken resp)"
    and claims: "date_claim (lb_jwt lb) tok ''exp'' = Some (numeric_date (requested_exp (lb_rt lb) (s_Factory s) ?now (req_Claims req)))"
      "date_claim (lb_jwt lb) tok ''nbf'' = Some (numeric_date ?now)" "date_claim (lb_jwt lb) tok ''iat'' = Some (numeric_date ?now)"
      "string_claim (lb_jwt lb) tok ''iss'' = f_issuer (s_Factory s)"
    by (rule minted_token [OF laws(3) mint(1) mint(2) [unfolded server_mint_def] refl])
  note supported = Mint_Inr_alg [OF mint(2) [unfolded server_mint_def]]
  obtain dr where gen: "generateKey (lb_jwx lb) dr ?alg = Inr k" using signer_generated [OF view k] by blast
  note kid = generated_kid [OF laws(1,2) gen]
  have alg: "?alg \<in> set (view_EnabledAlgorithms (c_view c))" "?alg \<noteq> []"
    using kr.signer_iff [OF view supported] k supported by (auto simp: allAlgorithms_def alg_defs)
  show thesis
  proof (rule jws_interopD [OF laws(5) gen sign])
    fix h cl
    assume a: "AccessToken resp \<noteq> []" "trim_space (AccessToken resp) = AccessToken resp"
      "j5_ParseUnverified (lb_j5 lb) (AccessToken resp) = (Some h, cl, None)" "map_of h ''alg'' = Some (VStr ?alg)"
      "map_of h ''kid'' = map_option VStr (jwk_KeyID (lb_jwx lb) (k_PrivJWK k))" "validateClaimShapes (lb_j5 lb) cl = None"
      "j5_GetExpirationTime (lb_j5 lb) cl = Inr (date_claim (lb_jwt lb) tok ''exp'')"
      "j5_GetNotBefore (lb_j5 lb) cl = Inr (date_claim (lb_jwt lb) tok ''nbf'')"
      "j5_GetIssuedAt (lb_j5 lb) cl = Inr (date_claim (lb_jwt lb) tok ''iat'')"
      "j5_GetIssuer (lb_j5 lb) cl = Inr (string_claim (lb_jwt lb) tok ''iss'')"
      "j5_ParseWithClaims (lb_j5 lb) [?alg] (AccessToken resp) (k_Public k) = None"
    have "j5_Validate (lb_j5 lb) 0 t cl = None" by (rule minted_times [OF laws(4) a(6) a(7-9) [unfolded claims] time])
    then show thesis using that [OF k alg, of h cl] a claims(4) kid by simp
  qed
qed


subsection \<open>An instance of the libraries\<close>

text \<open>The demonstration token stands for fixed claims, so only these are signed.\<close>

definition demo_signer :: "(gomap, gomap, demo_jwk) jwt_lib" where
  "demo_signer = demo_jwt\<lparr>jwt_Sign := (\<lambda>t alg j h.
     if list_all (\<lambda>n. map_of t n = map_of demo_claims n) [''iss'', ''exp'', ''iat'', ''nbf''] then jwt_Sign demo_jwt t alg j h
     else Inl (errors_New ''unexpected claims''))\<rparr>"

lemma demo_signer_laws: "jwt_laws demo_signer"
  using demo_jwt_laws by (simp add: jwt_laws_def demo_signer_def)

lemma demo_generated:
  assumes "generateKey demo_jwx dr alg = Inr k"
  shows "alg \<in> set allAlgorithms" "map_of (snd (k_PrivJWK k)) ''kid'' = Some (b64_encode (demo_thumbprint (k_Public k)))"
    "jwk_KeyID demo_jwx (k_PrivJWK k) = Some (b64_encode (demo_thumbprint (k_Public k)))"
  using assms by (auto simp: generateKey_def demo_jwx_def set_fields_def split: sum.splits if_splits)

lemma demo_thumbprint_nonempty: "demo_thumbprint p \<noteq> []"
  by (cases p) simp_all

lemma demo_thumbprint_law: "thumbprint_law demo_jwx"
  by (simp add: thumbprint_law_def demo_jwx_def demo_thumbprint_nonempty)

lemma demo_sign_text:
  assumes "generateKey demo_jwx dr alg = Inr k" and "jwt_Sign demo_signer tok alg (k_PrivJWK k) None = Inr s"
  shows "s = alg @ ''.'' @ b64_encode (demo_thumbprint (k_Public k))" "CHR ''.'' \<notin> set alg" "alg \<noteq> []" "hd alg \<in> {CHR ''R'', CHR ''E''}"
    "\<forall>n\<in>{''iss'', ''exp'', ''iat'', ''nbf''}. map_of tok n = map_of demo_claims n"
  using assms demo_generated [OF assms(1)]
  by (auto simp: demo_signer_def demo_jwt_def allAlgorithms_def alg_defs split: if_splits)

lemma numeric_date_Unix: "in_int64 n \<Longrightarrow> numeric_date (time_Unix n) = time_Unix n"
  by (simp add: numeric_date_def unix_seconds_Unix)

lemma demo_interop: "jws_interop demo_jwx demo_signer demo_j5"
  unfolding jws_interop_def jws_header_law_def jws_claims_law_def jws_signature_law_def
proof (intro conjI allI impI)
  fix dr alg k tok s
  assume gen: "generateKey demo_jwx dr alg = Inr k" and sg: "jwt_Sign demo_signer tok alg (k_PrivJWK k) None = Inr s"
  note tx = demo_sign_text [OF gen sg]
  note parse = demo_parse_token [OF tx(2)]
  show "s \<noteq> []" "trim_space s = s"
    unfolding tx(1) using trim_demo_token [OF tx(4,3) demo_thumbprint_nonempty] by simp_all
  show "\<exists>h claims. j5_ParseUnverified demo_j5 s = (Some h, claims, None) \<and> map_of h ''alg'' = Some (VStr alg) \<and>
      map_of h ''kid'' = map_option VStr (jwk_KeyID demo_jwx (k_PrivJWK k))"
    unfolding tx(1) parse demo_generated(3) [OF gen] by simp
  show "j5_ParseWithClaims demo_j5 [alg] s (k_Public k) = None" unfolding tx(1) parse ..
  fix h claims
  assume "j5_ParseUnverified demo_j5 s = (h, claims, None)"
  then have cl: "claims = demo_claims" unfolding tx(1) parse by simp
  have get: "tok_Get demo_signer = map_of" by (simp add: demo_signer_def demo_jwt_def)
  have tok: "map_of tok ''exp'' = Some (VTime (time_Unix 8200))" "map_of tok ''nbf'' = Some (VTime (time_Unix 1000))"
    "map_of tok ''iat'' = Some (VTime (time_Unix 1000))" "map_of tok ''iss'' = Some (VStr ''https://issuer'')"
    using tx(5) by (simp_all add: demo_claims_def)
  show "validateClaimShapes demo_j5 claims = None" unfolding cl by (rule demo_getters)
  show "j5_GetExpirationTime demo_j5 claims = Inr (date_claim demo_signer tok ''exp'')"
    "j5_GetNotBefore demo_j5 claims = Inr (date_claim demo_signer tok ''nbf'')"
    "j5_GetIssuedAt demo_j5 claims = Inr (date_claim demo_signer tok ''iat'')"
    "j5_GetIssuer demo_j5 claims = Inr (string_claim demo_signer tok ''iss'')"
    unfolding cl demo_getters date_claim_def string_claim_def get tok by (simp_all add: numeric_date_Unix in_int64_def)
qed

definition demo_interop_libs :: "(gomap, gomap, demo_jwk) libs" where
  "demo_interop_libs = demo_libs\<lparr>lb_jwt := demo_signer\<rparr>"

lemma demo_interop_libs_simps [simp]:
  "lb_jwx demo_interop_libs = demo_jwx" "lb_jwt demo_interop_libs = demo_signer" "lb_j5 demo_interop_libs = demo_j5"
  "lb_rt demo_interop_libs = demo_rt"
  by (simp_all add: demo_interop_libs_def)

lemma demo_server_mint: "\<exists>resp. server_mint demo_interop_libs demo_server demo_call demo_request = Inr resp"
proof -
  obtain k where k: "view_Signer demo_view AlgEdDSA = Inr k"
    using kr.signer_enabled [OF demo_view_ok] demo_view_algs by blast
  have "ParseTimeValue demo_rt (VStr ''2h'') (time_Unix 1000) = Inr (time_Unix 8200)" by code_simp
  moreover have "truncate_second (time_Unix 1000) = time_Unix 1000" by code_simp
  moreover have "time_Sub (time_Unix 8200) (time_Unix 1000) = 7200000000000" by code_simp
  ultimately show ?thesis
    using k by (simp add: server_mint_def Mint_def Let_def demo_request_def request_alg_def JWAAlgorithms_def alg_defs demo_signer_def
        demo_jwt_def mint_defaults_def tok_Has_def set_quiet_def demo_factory_def NewFactory_def mint_sign_def demo_claims_def)
qed


section \<open>Published key sets\<close>

text \<open>
  The JWK library writes and reads key sets: a set that was written is read back key by key; a key
  that has an id keeps it; the public JWK of an imported private key exports its public key, and
  setting a field changes neither that nor that it is a public key; the algorithm that was set is
  the one read.
\<close>

definition jwk_reader_laws :: "'j jwx \<Rightarrow> ('j list \<Rightarrow> gerr + string) \<Rightarrow> 'j jwk_reader \<Rightarrow> bool" where
  "jwk_reader_laws lib marshal jr =
     ((\<forall>js raw. marshal js = Inr raw \<longrightarrow> jr_Parse jr raw = Inr (map Some js)) \<and>
      (\<forall>j. jr_KeyID jr j = jwk_KeyID lib j) \<and>
      (\<forall>j. jwk_KeyID lib j \<noteq> None \<longrightarrow> jr_AssignKeyID jr j = Inr j) \<and>
      (\<forall>priv j p. jwk_Import lib priv = Inr j \<longrightarrow> jwk_PublicKey lib j = Inr p \<longrightarrow>
         jr_PublicKey jr p = Inr p \<and> jr_Export jr p = Inr (Public priv)) \<and>
      (\<forall>p f v p'. jr_PublicKey jr p = Inr p \<longrightarrow> jwk_Set lib p f v = Inr p' \<longrightarrow>
         jr_PublicKey jr p' = Inr p' \<and> jr_Export jr p' = jr_Export jr p) \<and>
      (\<forall>p v p'. jwk_Set lib p ''alg'' v = Inr p' \<longrightarrow> jr_Algorithm jr p' = Some v))"

lemma jwk_reader_lawsD:
  assumes "jwk_reader_laws lib marshal jr"
  shows "marshal js = Inr raw \<Longrightarrow> jr_Parse jr raw = Inr (map Some js)" and "jr_KeyID jr j = jwk_KeyID lib j"
    and "jwk_KeyID lib j \<noteq> None \<Longrightarrow> jr_AssignKeyID jr j = Inr j"
    and "jwk_Import lib priv = Inr j \<Longrightarrow> jwk_PublicKey lib j = Inr p \<Longrightarrow> jr_PublicKey jr p = Inr p \<and> jr_Export jr p = Inr (Public priv)"
    and "jr_PublicKey jr p = Inr p \<Longrightarrow> jwk_Set lib p f v = Inr p' \<Longrightarrow> jr_PublicKey jr p' = Inr p' \<and> jr_Export jr p' = jr_Export jr p"
    and "jwk_Set lib p ''alg'' v = Inr p' \<Longrightarrow> jr_Algorithm jr p' = Some v"
  using assms unfolding jwk_reader_laws_def by blast+

lemma set_fields_reader:
  assumes "jwk_reader_laws lib marshal jr" and "set_fields lib kid alg p = Inr p'" and "jr_PublicKey jr p = Inr p"
  shows "jr_PublicKey jr p' = Inr p'" "jr_Export jr p' = jr_Export jr p" "jr_Algorithm jr p' = Some alg"
proof -
  obtain p1 p2 where set: "jwk_Set lib p ''kid'' kid = Inr p1" "jwk_Set lib p1 ''use'' ''sig'' = Inr p2" "jwk_Set lib p2 ''alg'' alg = Inr p'"
    using assms(2) by (auto simp: set_fields_def split: sum.splits)
  note keep = jwk_reader_lawsD(5) [OF assms(1)]
  from keep [OF assms(3) set(1)] keep [OF _ set(2)] keep [OF _ set(3)]
  show "jr_PublicKey jr p' = Inr p'" "jr_Export jr p' = jr_Export jr p" by simp_all
  show "jr_Algorithm jr p' = Some alg" by (rule jwk_reader_lawsD(6) [OF assms(1) set(3)])
qed

lemma generated_usable:
  assumes laws: "jwk_laws lib" "thumbprint_law lib" "jwk_reader_laws lib marshal jr" and gen: "generateKey lib dr alg = Inr k"
  shows "usable_key jr (Some (k_PubJWK k)) = Some (Kid lib k, k_Public k, [alg])"
proof -
  obtain privJWK pubJWK kid where j: "jwk_Import lib (k_Private k) = Inr privJWK" "jwk_PublicKey lib privJWK = Inr pubJWK"
    "set_fields lib kid alg pubJWK = Inr (k_PubJWK k)" "k_Public k = Public (k_Private k)" "alg \<in> set allAlgorithms"
    using gen by (auto simp: generateKey_def split: sum.splits if_splits)
  note p = jwk_reader_lawsD(4) [OF laws(3) j(1,2)]
  note q = set_fields_reader [OF laws(3) j(3) conjunct1 [OF p]]
  note kid = generated_kid [OF laws(1,2) gen]
  obtain a as where "alg = a # as" using j(5) by (auto simp: allAlgorithms_def alg_defs)
  then have "keyAlgorithms jr (k_PubJWK k) (k_Public k) = [alg]" using q(3) by (simp add: keyAlgorithms_def)
  then show ?thesis
    using jwk_reader_lawsD(3) [OF laws(3), of "k_PubJWK k"] kid(2,3) q(1,2) p j(4)
    by (simp add: usable_key_def jwk_reader_lawsD(2) [OF laws(3)])
qed

lemma published_generated:
  assumes "ring_reachable lib r" and "k \<in> published r"
  obtains dr alg k0 where "generateKey lib dr alg = Inr k0" "k_PubJWK k = k_PubJWK k0" "k_Public k = k_Public k0"
    "Kid lib k = Kid lib k0" "k_Algorithm k = alg"
proof -
  have int: "ring_intact lib r" using reachable_inv [OF assms(1)] by simp
  from assms(2) consider a where "is_active r a k" | a where "is_retired r a k" by (auto simp: published_def)
  then show ?thesis
  proof cases
    case 1
    then obtain dr where "generateKey lib dr a = Inr k" using ring_intactD(1) [OF int] by (fastforce simp: is_active_def)
    then show ?thesis using that generateKey_Algorithm by blast
  next
    case 2
    then obtain dr k0 t where k: "generateKey lib dr a = Inr k0" "k = k0\<lparr>k_RetiredAt := t\<rparr>"
      using ring_intactD(2) [OF int] by (fastforce simp: is_retired_def)
    then show ?thesis using that [OF k(1)] generateKey_Algorithm [OF k(1)] by (simp add: Kid_def)
  qed
qed

lemma published_usable:
  assumes "jwk_laws lib" "thumbprint_law lib" "jwk_reader_laws lib marshal jr" and "ring_reachable lib r" and "k \<in> published r"
  shows "usable_key jr (Some (k_PubJWK k)) = Some (Kid lib k, k_Public k, [k_Algorithm k])"
proof -
  obtain dr alg k0 where k: "generateKey lib dr alg = Inr k0" "k_PubJWK k = k_PubJWK k0" "k_Public k = k_Public k0"
    "Kid lib k = Kid lib k0" "k_Algorithm k = alg" by (rule published_generated [OF assms(4,5)])
  show ?thesis using generated_usable [OF assms(1-3) k(1)] by (simp add: k)
qed

text \<open>No step changes the enabled algorithms, and a ring has at least one.\<close>

lemma ring_step_enabled: "ring_step lib r r' \<Longrightarrow> enabled_alg r' = enabled_alg r"
  by (cases rule: ring_stepE, assumption) (auto dest: RotateAt_enabled simp: PruneAt_eq fun_eq_iff enabled_alg_def)

lemma reachable_enabled:
  assumes "ring_reachable lib r"
  shows "\<exists>alg\<in>set allAlgorithms. enabled_alg r alg"
  using assms
proof (induction rule: ring_reachable.induct)
  case (new dr grace algs r)
  then have "\<exists>alg\<in>set allAlgorithms. enabled_map algs alg = Some True"
    by (auto simp: keyring_New_def Let_def allAlgorithms_def split: if_splits)
  then show ?case using keyring_New_ok(4) [OF new] by (simp add: enabled_alg_def)
next
  case (step r r')
  then show ?case using ring_step_enabled [OF step(2)] by simp
qed

lemma published_set_read:
  assumes laws: "jwk_laws lib" "thumbprint_law lib" "jwk_reader_laws lib marshal jr"
    and view: "view_ok lib v" and set: "view_JWKS lib v = Inr jwks" "marshal jwks = Inr raw"
  shows "\<exists>src. parseJWKS jr raw = Inr src
     \<and> (\<forall>kid. case view_Lookup lib v kid of
           Inr (key, st) \<Rightarrow> jwks_Lookup src kid = Inr (key, KeyStatusActive)
         | Inl e \<Rightarrow> isl (jwks_Lookup src kid))
     \<and> sorted (js_algorithms src) \<and> set (js_algorithms src) = k_Algorithm ` published (fst v)
     \<and> set (view_EnabledAlgorithms v) \<subseteq> set (js_algorithms src)"
proof -
  obtain r ao ro where v: "v = (r, ao, ro)" by (cases v)
  have ok: "ring_reachable lib r" "kids_distinct lib r" "covers (kr_active r) ao" "covers (kr_retired r) ro"
    using view by (simp_all add: view_ok_def v)
  note inv = reachable_inv [OF ok(1)]
  then have wf: "ring_wf r" by (simp add: ring_ok_def)
  let ?ks = "sortedKeysUnlocked lib ao ro r"
  have ks: "set ?ks = published r" using sorted_keys [OF wf ok(3,4,2)] by simp
  have parse: "jr_Parse jr raw = Inr (map Some (map k_PubJWK ?ks))"
    using set JWKS_eq [OF laws(1) inv ok(2-4)] jwk_reader_lawsD(1) [OF laws(3)] by (simp add: view_JWKS_def v)
  have use: "usable_key jr (Some (k_PubJWK k)) = Some (Kid lib k, k_Public k, [k_Algorithm k])" if "k \<in> published r" for k
    by (rule published_usable [OF laws ok(1) that])
  have used: "List.map_filter (usable_key jr) (map Some (map k_PubJWK ks)) = map (\<lambda>k. (Kid lib k, k_Public k, [k_Algorithm k])) ks"
    if "set ks \<subseteq> published r" for ks using that by (induction ks) (simp_all add: map_filter_simps use)
  have fd: "find (\<lambda>u. fst u = kid) (rev (map (\<lambda>k. (Kid lib k, k_Public k, [k_Algorithm k])) ks)) =
      map_option (\<lambda>k. (Kid lib k, k_Public k, [k_Algorithm k])) (find (\<lambda>k. Kid lib k = kid) (rev ks))" for kid ks
    by (induction ks rule: rev_induct) simp_all
  have sub: "set ?ks \<subseteq> published r" "set (rev ?ks) \<subseteq> published r" using ks by simp_all
  have en: "k_Algorithm ` published r \<supseteq> set (view_EnabledAlgorithms v)"
    using kr.signer_enabled [OF view] kr.signer_alg [OF view]
    by (fastforce simp: v view_Signer_def Signer_Inr published_def image_iff)
  then have ne: "?ks \<noteq> []"
    using reachable_enabled [OF ok(1)] ks by (fastforce simp: v view_EnabledAlgorithms_def EnabledAlgorithms_def)
  note exact = parseJWKS_exact [OF parse, unfolded used [OF sub(1)] fd]
  have "usable_key jr (Some (k_PubJWK (hd ?ks))) \<noteq> None" using use [of "hd ?ks"] ks hd_in_set [OF ne] by simp
  then obtain src where src: "parseJWKS jr raw = Inr src"
    using exact ne hd_in_set [OF ne] by (cases "parseJWKS jr raw") auto
  note exact = exact [unfolded src sum.case]
  have found: "jwks_Lookup src (Kid lib k) = Inr (k_Public k, KeyStatusActive)" if k: "k \<in> published r" for k
    using exact find_Kid [OF ok(2) _ sub(2), of k] ks k by simp
  have "case view_Lookup lib v kid of Inr (key, st) \<Rightarrow> jwks_Lookup src kid = Inr (key, KeyStatusActive) | Inl e \<Rightarrow> isl (jwks_Lookup src kid)" for kid
  proof (cases "kid \<in> Kid lib ` published r")
    case True
    then obtain k where k: "kid = Kid lib k" "k \<in> published r" by blast
    then obtain st where "Lookup lib ao ro r kid = Inr (k_Public k, st)"
      using Lookup_iff [OF ok(3,4,2) wf, of kid "k_Public k"] by (auto simp: published_def)
    then show ?thesis using found [OF k(2)] k(1) by (simp add: v view_Lookup_def)
  next
    case False
    then have "Lookup lib ao ro r kid = Inl (not_found kid)"
      using Lookup_none [OF ok(3,4), of lib kid] by (auto simp: published_def)
    moreover have "find (\<lambda>k. Kid lib k = kid) (rev ?ks) = None" using False ks by (auto simp: find_None_iff)
    ultimately show ?thesis using exact by (simp add: v view_Lookup_def)
  qed
  moreover have "set (js_algorithms src) = k_Algorithm ` published r"
    using exact use ks by auto
  ultimately show ?thesis using src exact en by (simp add: v)
qed

text \<open>
  C31: the key set the server publishes, read by the command line, is the ring: a key id is found in it
  exactly when the ring finds it, with the same public key, and the accepted algorithms are those
  of the published keys, among them all enabled ones. The status is lost: retired keys count as
  active.
\<close>

theorem published_set_roundtrip:
  assumes laws: "jwk_laws lib" "thumbprint_law lib" "jwk_reader_laws lib marshal jr"
    and view: "view_ok lib v" and set: "view_JWKS lib v = Inr jwks" "marshal jwks = Inr raw"
  shows "\<exists>src. parseJWKS jr raw = Inr src
     \<and> (\<forall>kid. case view_Lookup lib v kid of
           Inr (key, st) \<Rightarrow> jwks_Lookup src kid = Inr (key, KeyStatusActive)
         | Inl e \<Rightarrow> isl (jwks_Lookup src kid))
     \<and> sorted (js_algorithms src) \<and> set (js_algorithms src) = k_Algorithm ` published (fst v)
     \<and> set (view_EnabledAlgorithms v) \<subseteq> set (js_algorithms src)"
  by (rule published_set_read [OF assms])

text \<open>An instance: the text \<open>keys\<close> stands for one key set, the only one that is written.\<close>

definition demo_jwks :: "demo_jwk list" where
  "demo_jwks = projr (view_JWKS demo_jwx demo_view)"

definition demo_marshal :: "demo_jwk list \<Rightarrow> gerr + string" where
  "demo_marshal js = (if js = demo_jwks then Inr ''keys'' else Inl (errors_New ''another set''))"

definition demo_set_reader :: "demo_jwk jwk_reader" where
  "demo_set_reader =
     \<lparr>jr_Parse = (\<lambda>raw. Inr (map Some demo_jwks)), jr_AssignKeyID = Inr, jr_KeyID = jwk_KeyID demo_jwx, jr_PublicKey = Inr,
      jr_Export = (\<lambda>j. Inr (fst j)), jr_Algorithm = (\<lambda>j. map_of (snd j) ''alg'')\<rparr>"

lemma demo_reader_laws: "jwk_reader_laws demo_jwx demo_marshal demo_set_reader"
  by (auto simp: jwk_reader_laws_def demo_marshal_def demo_set_reader_def demo_jwx_def split: if_splits)

lemma demo_view_JWKS: "view_JWKS demo_jwx demo_view = Inr demo_jwks" "demo_marshal demo_jwks = Inr ''keys''"
proof -
  have "JWKS demo_jwx [AlgEdDSA, AlgRS256] [AlgRS256, AlgEdDSA] demo_rotated =
      Inr (map k_PubJWK (sortedKeysUnlocked demo_jwx [AlgEdDSA, AlgRS256] [AlgRS256, AlgEdDSA] demo_rotated))"
    by (rule JWKS_eq [OF demo_jwx_laws reachable_inv [OF demo_rotated_reachable] demo_kids_distinct demo_covers(2,1)])
  then show "view_JWKS demo_jwx demo_view = Inr demo_jwks" by (simp add: demo_jwks_def view_JWKS_def demo_view_def)
qed (simp add: demo_marshal_def)

theorem published_set_roundtrip_witness:
  "\<exists>src. parseJWKS demo_set_reader ''keys'' = Inr src \<and> set (js_algorithms src) \<supseteq> {AlgRS256, AlgEdDSA}"
  using published_set_roundtrip [OF demo_jwx_laws demo_thumbprint_law demo_reader_laws demo_view_ok demo_view_JWKS] demo_view_algs
  by blast

section \<open>Minted by the server, verified by the command line\<close>


definition demo_served :: "(gomap, gomap, demo_jwk) libs" where
  "demo_served = demo_interop_libs\<lparr>lb_MarshalSet := demo_marshal\<rparr>"

definition demo_verifier :: "demo_jwk cli_libs" where
  "demo_verifier =
     \<lparr>cl_env = demo_os, cl_net = demo_loop, cl_jwk = demo_set_reader, cl_j5 = demo_j5, cl_known = List.member allAlgorithms,
      cl_quote = demo_quote, cl_werr = None\<rparr>"


end
