(* ===== verification/Tester.thy ===== *)
theory Tester
  imports Routes
begin

text \<open>
  The component \<open>pkg/tester\<close>, the public in-process issuer: it builds a ring, a factory and a
  server, starts them, and exposes minting and the keys with error values of its own.
\<close>

section \<open>Data\<close>

definition RS256 :: string where "RS256 = ''RS256''"
definition ES256 :: string where "ES256 = ''ES256''"
definition EdDSA :: string where "EdDSA = ''EdDSA''"

definition ErrUnsupportedAlgorithm :: gerr where
  "ErrUnsupportedAlgorithm = sentinel ''tester.ErrUnsupportedAlgorithm'' ''tester: unsupported algorithm''"

definition ErrTTLTooLong :: gerr where
  "ErrTTLTooLong = sentinel ''tester.ErrTTLTooLong'' ''tester: requested lifetime exceeds maximum allowed''"

definition ErrInvalidRequest :: gerr where
  "ErrInvalidRequest = sentinel ''tester.ErrInvalidRequest'' ''tester: invalid token request''"

definition ErrKeyNotFound :: gerr where
  "ErrKeyNotFound = sentinel ''tester.ErrKeyNotFound'' ''tester: key not found''"

lemmas tester_errs = ErrUnsupportedAlgorithm_def ErrTTLTooLong_def ErrInvalidRequest_def ErrKeyNotFound_def

definition supportedAlgorithms :: "string list" where
  "supportedAlgorithms = [RS256, ES256, EdDSA]"

record MintRequest =
  mr_Claims :: gomap
  mr_Algorithm :: string
  mr_Headers :: gomap

record Token =
  tk_AccessToken :: string
  tk_TokenType :: string
  tk_ExpiresIn :: int

record KeyInfo =
  ki_KID :: string
  ki_Algorithm :: string
  ki_CreatedAt :: gotime
  ki_RetiredAt :: gotime
  ki_Retired :: bool

section \<open>Configuration\<close>

record config =
  cf_issuer :: string
  cf_defaultTTL :: int
  cf_maxTTL :: int
  cf_rotationInterval :: int
  cf_gracePeriod :: int
  cf_algorithms :: "string list"
  cf_rateLimitRPS :: gofloat
  cf_rateLimitBurst :: int
  cf_logger :: string
  cf_audience :: string
  cf_scopes :: "string list"
  cf_discoveryExtra :: "gomap option"

definition defaultConfig :: config where
  "defaultConfig =
     \<lparr>cf_issuer = [], cf_defaultTTL = Hour, cf_maxTTL = 24 * Hour, cf_rotationInterval = 0, cf_gracePeriod = 25 * Hour,
      cf_algorithms = [RS256, ES256, EdDSA], cf_rateLimitRPS = Fin 100, cf_rateLimitBurst = 200, cf_logger = ''discard'',
      cf_audience = [], cf_scopes = [], cf_discoveryExtra = None\<rparr>"

datatype tester_option =
    OIssuer string
  | ODefaultTTL int
  | OMaxTTL int
  | ORotationInterval int
  | OGracePeriod int
  | OAlgorithms "string list"
  | ORateLimit gofloat int
  | OLogger "string option"
  | OAudience string
  | OScopes "string list"
  | ODiscoveryExtra "gomap option"

fun apply_tester_option :: "tester_option \<Rightarrow> config \<Rightarrow> config" where
  "apply_tester_option (OIssuer i) c = c\<lparr>cf_issuer := i\<rparr>"
| "apply_tester_option (ODefaultTTL t) c = c\<lparr>cf_defaultTTL := t\<rparr>"
| "apply_tester_option (OMaxTTL t) c = c\<lparr>cf_maxTTL := t\<rparr>"
| "apply_tester_option (ORotationInterval t) c = c\<lparr>cf_rotationInterval := t\<rparr>"
| "apply_tester_option (OGracePeriod t) c = c\<lparr>cf_gracePeriod := t\<rparr>"
| "apply_tester_option (OAlgorithms as) c = c\<lparr>cf_algorithms := as\<rparr>"
| "apply_tester_option (ORateLimit rps burst) c = c\<lparr>cf_rateLimitRPS := rps, cf_rateLimitBurst := burst\<rparr>"
| "apply_tester_option (OLogger l) c = (case l of None \<Rightarrow> c | Some n \<Rightarrow> c\<lparr>cf_logger := n\<rparr>)"
| "apply_tester_option (OAudience a) c = c\<lparr>cf_audience := a\<rparr>"
| "apply_tester_option (OScopes xs) c = c\<lparr>cf_scopes := xs\<rparr>"
| "apply_tester_option (ODiscoveryExtra e) c = c\<lparr>cf_discoveryExtra := e\<rparr>"

definition isSupported :: "string \<Rightarrow> bool" where
  "isSupported alg = List.member supportedAlgorithms alg"

definition internalAlgorithms :: "string list \<Rightarrow> gerr + algorithm list" where
  "internalAlgorithms algs =
     (if algs = [] then Inl (wrapf [] ErrUnsupportedAlgorithm [Lit '': at least one algorithm must be enabled''])
      else case find (\<lambda>alg. \<not> isSupported alg) algs of
        Some alg \<Rightarrow> Inl (wrapf [] ErrUnsupportedAlgorithm [Lit '': '', Quo alg])
      | None \<Rightarrow> Inr algs)"

section \<open>The running issuer\<close>

record ('j, 'l) issuer =
  is_addr :: string
  is_listening :: bool
  is_ring :: "'j KeyRing"
  is_factory :: Factory
  is_internal :: Server
  is_state :: "'l server_state"
  is_issuer :: string
  is_rotating :: bool
  is_closed :: bool

text \<open>\<open>listen\<close> is what \<open>net.Listen\<close> returned: an error, or the address that was bound.\<close>

definition Start ::
    "'j jwx \<Rightarrow> crypto_draw \<Rightarrow> gerr + string \<Rightarrow> tester_option option list \<Rightarrow> gerr + ('j, 'l) issuer" where
  "Start lib dr listen opts =
     (let cfg = fold (\<lambda>op c. case op of None \<Rightarrow> c | Some opt \<Rightarrow> apply_tester_option opt c) opts defaultConfig
      in case internalAlgorithms (cf_algorithms cfg) of
           Inl e \<Rightarrow> Inl e
         | Inr algorithms \<Rightarrow>
             (case keyring_New lib dr (cf_gracePeriod cfg) algorithms of
                Inl e \<Rightarrow> Inl (wrapf [Lit ''tester: initialize key ring: ''] e [])
              | Inr ring \<Rightarrow>
                  (case listen of
                     Inl e \<Rightarrow> Inl (wrapf [Lit ''tester: listen: ''] e [])
                   | Inr addr \<Rightarrow>
                       (let issuer = (if cf_issuer cfg = [] then ''http://'' @ addr else cf_issuer cfg);
                            factory = NewFactory issuer (cf_defaultTTL cfg) (cf_maxTTL cfg);
                            (internal, vs) = server_New factory issuer ''test-version'' (cf_rateLimitRPS cfg) (cf_rateLimitBurst cfg)
                              [Some (WithLogger (Some (cf_logger cfg))), Some (WithAudience (cf_audience cfg)),
                               Some (WithScopes (cf_scopes cfg)), Some (WithDiscoveryExtra (cf_discoveryExtra cfg))]
                        in Inr \<lparr>is_addr = addr, is_listening = True, is_ring = ring, is_factory = factory,
                                is_internal = internal, is_state = start_state vs, is_issuer = issuer,
                                is_rotating = (cf_rotationInterval cfg > 0), is_closed = False\<rparr>))))"

text \<open>\<open>None\<close> is a panic; the cleanup it registers is \<open>Close\<close>.\<close>

definition NewServer ::
    "'j jwx \<Rightarrow> crypto_draw \<Rightarrow> gerr + string \<Rightarrow> tester_option option list \<Rightarrow> ('j, 'l) issuer option" where
  "NewServer lib dr listen opts = (case Start lib dr listen opts of Inl e \<Rightarrow> None | Inr s \<Rightarrow> Some s)"

definition tester_URL :: "('j, 'l) issuer \<Rightarrow> string" where
  "tester_URL s = ''http://'' @ is_addr s"

definition tester_Issuer :: "('j, 'l) issuer \<Rightarrow> string" where
  "tester_Issuer s = is_issuer s"

text \<open>The listener stops, then rotation, then the cleanup of visitors; the keys stay.\<close>

definition tester_Close :: "('j, 'l) issuer \<Rightarrow> ('j, 'l) issuer" where
  "tester_Close s =
     (if is_closed s then s
      else s\<lparr>is_listening := False, is_rotating := False, is_state := server_Close (is_state s), is_closed := True\<rparr>)"

section \<open>Minting and keys\<close>

definition hide :: "gerr \<Rightarrow> gerr \<Rightarrow> gerr" where
  "hide public e = wrapf [] public (Lit '': '' # err_text e)"

definition mapMintError :: "gerr \<Rightarrow> gerr" where
  "mapMintError e =
     (if errors_Is e TokenFactory.ErrUnsupportedAlg \<or> errors_Is e Keyring.ErrUnsupportedAlg then hide ErrUnsupportedAlgorithm e
      else if errors_Is e TokenFactory.ErrTTLTooLong then hide ErrTTLTooLong e
      else if errors_Is e TokenFactory.ErrInvalidRequest then hide ErrInvalidRequest e
      else if errors_Is e Keyring.ErrKeyNotFound then hide ErrKeyNotFound e
      else e)"

definition mapKeyError :: "gerr \<Rightarrow> gerr" where
  "mapKeyError e =
     (if errors_Is e Keyring.ErrKeyNotFound then hide ErrKeyNotFound e
      else if errors_Is e Keyring.ErrUnsupportedAlg then hide ErrUnsupportedAlgorithm e
      else e)"

definition tester_Mint ::
    "runtime \<Rightarrow> ('t, 'h, 'j) jwt_lib \<Rightarrow> gotime \<Rightarrow> ('j, 'l) issuer \<Rightarrow> MintRequest \<Rightarrow> gerr + Token" where
  "tester_Mint rt lib clock s req =
     (case Mint rt lib (Signer (is_ring s)) (is_factory s) clock
             (Some \<lparr>req_Claims = mr_Claims req, req_Alg = mr_Algorithm req, req_Headers = mr_Headers req\<rparr>) of
        Inl e \<Rightarrow> Inl (mapMintError e)
      | Inr resp \<Rightarrow>
          Inr \<lparr>tk_AccessToken = AccessToken resp, tk_TokenType = TokenType resp, tk_ExpiresIn = wrap64 (ExpiresIn resp * Second)\<rparr>)"

definition key_info :: "'j jwx \<Rightarrow> 'j Key \<Rightarrow> KeyInfo" where
  "key_info lib k =
     \<lparr>ki_KID = Kid lib k, ki_Algorithm = k_Algorithm k, ki_CreatedAt = k_CreatedAt k, ki_RetiredAt = k_RetiredAt k,
      ki_Retired = (k_RetiredAt k \<noteq> zero_time)\<rparr>"

definition tester_Keys :: "'j jwx \<Rightarrow> algorithm list \<Rightarrow> algorithm list \<Rightarrow> ('j, 'l) issuer \<Rightarrow> KeyInfo list" where
  "tester_Keys lib ao ro s = map (key_info lib) (Snapshot lib ao ro (is_ring s))"

definition ActiveKeyID :: "'j jwx \<Rightarrow> ('j, 'l) issuer \<Rightarrow> string \<Rightarrow> gerr + string" where
  "ActiveKeyID lib s alg = (case ActiveKid lib (is_ring s) alg of Inl e \<Rightarrow> Inl (mapKeyError e) | Inr kid \<Rightarrow> Inr kid)"

definition tester_PublicKey :: "'j jwx \<Rightarrow> algorithm list \<Rightarrow> algorithm list \<Rightarrow> ('j, 'l) issuer \<Rightarrow> string \<Rightarrow> gerr + public_key" where
  "tester_PublicKey lib ao ro s kid =
     (case PublicKeyByKID lib ao ro (is_ring s) kid of Inl e \<Rightarrow> Inl (mapKeyError e) | Inr p \<Rightarrow> Inr p)"

text \<open>The DER form of a public key is an argument; PEM is its armoured text.\<close>

definition PublicKeyPEM ::
    "'j jwx \<Rightarrow> (public_key \<Rightarrow> gerr + byte list) \<Rightarrow> (string \<Rightarrow> byte list \<Rightarrow> byte list) \<Rightarrow>
     algorithm list \<Rightarrow> algorithm list \<Rightarrow> ('j, 'l) issuer \<Rightarrow> string \<Rightarrow> gerr + byte list" where
  "PublicKeyPEM lib marshalPKIX encodePEM ao ro s kid =
     (case tester_PublicKey lib ao ro s kid of
        Inl e \<Rightarrow> Inl e
      | Inr public \<Rightarrow>
          (case marshalPKIX public of
             Inl e \<Rightarrow> Inl (wrapf [Lit ''tester: marshal public key: ''] e [])
           | Inr der \<Rightarrow> Inr (encodePEM ''PUBLIC KEY'' der)))"

definition JWKSJSON :: "'j jwx \<Rightarrow> ('j list \<Rightarrow> gerr + string) \<Rightarrow> algorithm list \<Rightarrow> algorithm list \<Rightarrow> ('j, 'l) issuer \<Rightarrow> gerr + string" where
  "JWKSJSON lib marshal ao ro s =
     (case JWKS lib ao ro (is_ring s) of
        Inl e \<Rightarrow> Inl (wrapf [Lit ''tester: build JWKS: ''] e [])
      | Inr jwks \<Rightarrow>
          (case marshal jwks of
             Inl e \<Rightarrow> Inl (wrapf [Lit ''tester: marshal JWKS: ''] e [])
           | Inr data \<Rightarrow> Inr data))"

definition tester_Rotate :: "'j jwx \<Rightarrow> crypto_draw \<Rightarrow> ('j, 'l) issuer \<Rightarrow> ('j, 'l) issuer \<times> gerr option" where
  "tester_Rotate lib dr s =
     (let (ring, err) = Rotate lib dr (is_ring s)
      in (s\<lparr>is_ring := ring\<rparr>, map_option (\<lambda>e. wrapf [Lit ''tester: rotate keys: ''] e []) err))"

definition tester_PruneAt :: "gotime \<Rightarrow> algorithm list \<Rightarrow> ('j, 'l) issuer \<Rightarrow> ('j, 'l) issuer" where
  "tester_PruneAt now ord s = s\<lparr>is_ring := PruneAt now ord (is_ring s)\<rparr>"

end
