(* ===== verification/TesterProps.thy ===== *)
theory TesterProps
  imports Tester EndpointProps
begin

text \<open>
  Properties of the public issuer: what it starts with, what its key list says, and that its
  errors are its own.
\<close>

section \<open>Errors\<close>

lemma errors_Is_hide [simp]: "errors_Is (hide p e) t = errors_Is p t"
  by (simp add: hide_def)

text \<open>The sentinels of the internal packages that have a public counterpart.\<close>

definition internal_errors :: "gerr list" where
  "internal_errors =
     [TokenFactory.ErrUnsupportedAlg, Keyring.ErrUnsupportedAlg, TokenFactory.ErrTTLTooLong, TokenFactory.ErrInvalidRequest,
      Keyring.ErrKeyNotFound]"

lemma mapMintError_public: "x \<in> set internal_errors \<Longrightarrow> \<not> errors_Is (mapMintError e) x"
  by (auto simp: internal_errors_def mapMintError_def tester_errs factory_errs ring_errs)

lemma mapKeyError_public: "x \<in> {Keyring.ErrUnsupportedAlg, Keyring.ErrKeyNotFound} \<Longrightarrow> \<not> errors_Is (mapKeyError e) x"
  by (auto simp: mapKeyError_def tester_errs factory_errs ring_errs)


section \<open>The list of keys\<close>

text \<open>An active key signs for its algorithm and has no stamp; a retired one does not sign.\<close>

lemma active_key_signs:
  assumes "ring_reachable lib r" and "is_active r a k"
  shows "Signer r a = Inr k" "k_Algorithm k = a" "k_RetiredAt k = zero_time"
proof -
  have wf: "ring_wf r" and int: "ring_intact lib r" and ok: "ring_ok r" using reachable_inv [OF assms(1)] by (auto simp: ring_ok_def)
  obtain x where x: "kr_active r a = Some x" "kr_heap r x = Some k" using assms(2) by (auto simp: is_active_def)
  show "k_Algorithm k = a" "k_RetiredAt k = zero_time"
    using ring_intactD(1) [OF int x(1)] generateKey_Algorithm x(2) by fastforce+
  have "enabled_alg r a" using ok ring_wfD(2) [OF wf x(1)] x(1) by (auto simp: ring_ok_def ring_full_def)
  then show "Signer r a = Inr k" using x by (simp add: Signer_def)
qed

lemma retired_key_does_not_sign:
  assumes "ring_wf r" and kids: "kids_distinct lib r" and "is_retired r a k" and eq: "Kid lib l = Kid lib k"
  shows "Signer r alg \<noteq> Inr l"
proof
  assume "Signer r alg = Inr l"
  then obtain y where y: "kr_active r alg = Some y" "kr_heap r y = Some l"
    by (auto simp: Signer_def bind_eq_Some_conv split: if_splits option.splits)
  obtain x where x: "x \<in> set (retired_refs r a)" "kr_heap r x = Some k" using assms(3) by (auto simp: is_retired_def)
  have "x = y"
    using kids x y eq unfolding kids_distinct_def
    by (metis (mono_tags, lifting) Un_iff active_ref_def list.set_intros(1) option.simps(5) ring_refs_def set_append)
  then show False using active_not_retired [OF assms(1) y(1)] x(1) by blast
qed


definition demo_issuer :: "(demo_jwk, int) issuer" where
  "demo_issuer =
     \<lparr>is_addr = ''127.0.0.1:9'', is_listening = True, is_ring = demo_rotated, is_factory = demo_factory, is_internal = demo_server,
      is_state = start_state no_visitors, is_issuer = ''https://issuer'', is_rotating = False, is_closed = False\<rparr>"

lemma demo_issuer_ring [simp]: "is_ring demo_issuer = demo_rotated" by (simp add: demo_issuer_def)

lemma demo_stamps:
  assumes "is_retired demo_rotated a k"
  shows "k_RetiredAt k \<noteq> zero_time"
proof -
  have "map_option k_RetiredAt (kr_heap demo_rotated 0) = Some (time_Unix 1010)"
    "map_option k_RetiredAt (kr_heap demo_rotated 1) = Some (time_Unix 1010)"
    by (simp_all add: demo_rotated_def RotateAt_def demo_enabled demo_gen_eval)
      (simp_all add: rotate_step_def install_def retire_active_def demo_ring_def demo_ring_eval)
  moreover have "time_Unix 1010 \<noteq> zero_time" by code_simp
  moreover obtain x where "x = 0 \<or> x = 1" "kr_heap demo_rotated x = Some k"
    using assms by (auto simp: is_retired_def retired_refs_def demo_rotated_maps split: if_splits)
  ultimately show ?thesis by auto
qed


section \<open>Starting\<close>

definition effective :: "tester_option option list \<Rightarrow> config" where
  "effective opts = fold (\<lambda>op c. case op of None \<Rightarrow> c | Some opt \<Rightarrow> apply_tester_option opt c) opts defaultConfig"

lemma supported_iff: "isSupported alg \<longleftrightarrow> alg \<in> set allAlgorithms"
  by (auto simp: isSupported_def supportedAlgorithms_def RS256_def ES256_def EdDSA_def allAlgorithms_def alg_defs)

lemma started_ring:
  assumes "keyring_New lib dr grace algs = Inr r" and "set algs \<subseteq> set allAlgorithms"
  shows "ring_reachable lib r \<and> set (EnabledAlgorithms r) = set algs \<and> (\<forall>a\<in>set algs. \<exists>k. Signer r a = Inr k)"
proof -
  have en: "enabled_alg r a \<longleftrightarrow> a \<in> set algs" for a
    using keyring_New_ok(4) [OF assms(1)] by (simp add: enabled_alg_def enabled_map_Some)
  have "\<exists>k. Signer r a = Inr k" if "a \<in> set algs" for a
    using RotateAt_Signer_ok [OF keyring_New_ok(1) [OF assms(1)], of a] en assms(2) that by auto
  moreover have "set (EnabledAlgorithms r) = set algs" using assms(2) en by (auto simp: EnabledAlgorithms_def)
  ultimately show ?thesis using ring_reachable.new [OF assms(1)] by blast
qed

lemma discovery_issuer: "map_of (discoveryDocument s algs) ''issuer'' = Some (VStr (s_Issuer s))"
  by (simp add: discoveryDocument_def put_all_map_of Let_def)


definition demo_options :: "tester_option option list" where
  "demo_options = [Some (OGracePeriod 60000000000), None, Some (OAlgorithms [''EdDSA'', ''RS256''])]"


end
