(* ===== verification/ReleaseGuard.thy ===== *)
theory ReleaseGuard
  imports GoFlag
begin

text \<open>
  The component \<open>internal/releaseguard\<close> and the command \<open>cmd/releaseguard\<close>: the major version in
  a module path, in a release version, and the check that they agree. The two regular expressions
  of the source match in one way only, so they are written as the parsers they are.
\<close>

section \<open>Module paths and versions\<close>

text \<open>The match of \<open>/v([0-9]+)$\<close>: what is before it, and the digits.\<close>

definition moduleMajorSuffix :: "string \<Rightarrow> (string \<times> string) option" where
  "moduleMajorSuffix s =
     (let ds = takeWhile is_digit (rev s); pre = dropWhile is_digit (rev s)
      in if ds \<noteq> [] \<and> prefix ''v/'' pre then Some (rev (drop 2 pre), rev ds) else None)"

definition ModuleMajor :: "string \<Rightarrow> gerr + int" where
  "ModuleMajor modulePath =
     (let path = trim_space modulePath
      in if path = [] then Inl (errors_New ''release guard: module path is empty'')
         else case moduleMajorSuffix (trim_suffix path ''/'') of
           None \<Rightarrow> Inr 1
         | Some (_, ds) \<Rightarrow>
             (case parse_int ''Atoi'' ds of
                Inl e \<Rightarrow> Inl (wrapf [Lit ''release guard: module path '', Quo modulePath, Lit '' has an invalid major: ''] e [])
              | Inr major \<Rightarrow>
                  if major < 1
                  then Inl (errorf [Lit ''release guard: module path '', Quo modulePath, Lit ('' has invalid major v'' @ itoa major)])
                  else Inr major))"

definition label_char :: "char \<Rightarrow> bool" where
  "label_char ch = (let n = (of_char ch :: int) in
     is_digit ch \<or> 65 \<le> n \<and> n \<le> 90 \<or> 97 \<le> n \<and> n \<le> 122 \<or> ch = CHR ''.'' \<or> ch = CHR ''-'')"

text \<open>Digits up to a dot.\<close>

definition number_dot :: "string \<Rightarrow> (string \<times> string) option" where
  "number_dot s =
     (let ds = takeWhile is_digit s; r = dropWhile is_digit s
      in if ds \<noteq> [] \<and> r \<noteq> [] \<and> hd r = CHR ''.'' then Some (ds, tl r) else None)"

text \<open>The first group of \<open>versionPattern\<close>, where it matches.\<close>

definition versionPattern :: "string \<Rightarrow> string option" where
  "versionPattern s0 =
     (let s = trim_prefix s0 ''v''
      in case number_dot s of
           None \<Rightarrow> None
         | Some (major, s1) \<Rightarrow>
             (case number_dot s1 of
                None \<Rightarrow> None
              | Some (_, s2) \<Rightarrow>
                  (let patch = takeWhile is_digit s2; r = dropWhile is_digit s2
                   in if patch \<noteq> [] \<and>
                        (r = [] \<or> (hd r = CHR ''-'' \<or> hd r = CHR ''+'') \<and> tl r \<noteq> [] \<and> list_all label_char (tl r))
                      then Some major else None)))"

definition VersionMajor :: "string \<Rightarrow> gerr + int" where
  "VersionMajor version =
     (case versionPattern (trim_space version) of
        None \<Rightarrow> Inl (errorf [Lit ''release guard: invalid release version '', Quo version, Lit '': want vMAJOR.MINOR.PATCH''])
      | Some ds \<Rightarrow>
          (case parse_int ''Atoi'' ds of
             Inl e \<Rightarrow> Inl (wrapf [Lit ''release guard: invalid release version '', Quo version, Lit '': ''] e [])
           | Inr major \<Rightarrow> Inr major))"

definition targetModulePath :: "string \<Rightarrow> int \<Rightarrow> string" where
  "targetModulePath modulePath major =
     (let base0 = trim_suffix modulePath ''/'';
          base = (case moduleMajorSuffix base0 of Some (b, _) \<Rightarrow> b | None \<Rightarrow> base0)
      in if major \<ge> 2 then base @ ''/v'' @ itoa major else base)"

text \<open>\<open>None\<close> is the nil error.\<close>

definition Check :: "string \<Rightarrow> string \<Rightarrow> gerr option" where
  "Check modulePath version =
     (case ModuleMajor modulePath of
        Inl e \<Rightarrow> Some e
      | Inr want \<Rightarrow>
          (case VersionMajor version of
             Inl e \<Rightarrow> Some e
           | Inr got \<Rightarrow>
               if got = want then None
               else Some (errorf
                 [Lit (''release guard: computed version '' @ version @ '' has major '' @ itoa got @ '', but module path ''),
                  Quo modulePath, Lit ('' requires major '' @ itoa want @ ''; change the module path to ''),
                  Quo (targetModulePath modulePath got), Lit ('' and rewrite all imports before releasing '' @ version)])))"

section \<open>go.mod\<close>

definition hex_digit :: "char \<Rightarrow> int option" where
  "hex_digit ch = (let n = (of_char ch :: int) in
     if is_digit ch then Some (n - 48) else if 97 \<le> n \<and> n \<le> 102 then Some (n - 87)
     else if 65 \<le> n \<and> n \<le> 70 then Some (n - 55) else None)"

definition digits_val :: "int \<Rightarrow> nat \<Rightarrow> string \<Rightarrow> int option" where
  "digits_val base n s =
     (if length s < n then None
      else case those (map hex_digit (take n s)) of
        None \<Rightarrow> None
      | Some vs \<Rightarrow> if list_all (\<lambda>v. v < base) vs then Some (foldl (\<lambda>a v. a * base + v) 0 vs) else None)"

definition utf8 :: "int \<Rightarrow> string" where
  "utf8 v =
     (if v < 128 then [char_of v]
      else if v < 2048 then [char_of (192 + v div 64), char_of (128 + v mod 64)]
      else if v < 65536 then [char_of (224 + v div 4096), char_of (128 + v div 64 mod 64), char_of (128 + v mod 64)]
      else [char_of (240 + v div 262144), char_of (128 + v div 4096 mod 64), char_of (128 + v div 64 mod 64), char_of (128 + v mod 64)])"

definition valid_rune :: "int \<Rightarrow> bool" where
  "valid_rune v = (v < 55296 \<or> 57344 \<le> v \<and> v \<le> 1114111)"

text \<open>One escape sequence behind the backslash: its bytes and how many characters it takes.\<close>

definition escape :: "string \<Rightarrow> (string \<times> nat) option" where
  "escape s =
     (case s of
        [] \<Rightarrow> None
      | e # r \<Rightarrow>
          (case map_of [(CHR ''a'', CHR 0x07), (CHR ''b'', CHR 0x08), (CHR ''f'', CHR 0x0C), (CHR ''n'', CHR 0x0A),
                        (CHR ''r'', CHR 0x0D), (CHR ''t'', CHR 0x09), (CHR ''v'', CHR 0x0B), (CHR 0x5C, CHR 0x5C),
                        (CHR 0x22, CHR 0x22)] e of
             Some ch \<Rightarrow> Some ([ch], 1)
           | None \<Rightarrow>
               if e = CHR ''x'' then map_option (\<lambda>v. ([char_of v], 3)) (digits_val 16 2 r)
               else if e = CHR ''u'' then
                 (case digits_val 16 4 r of None \<Rightarrow> None | Some v \<Rightarrow> if valid_rune v then Some (utf8 v, 5) else None)
               else if e = CHR ''U'' then
                 (case digits_val 16 8 r of None \<Rightarrow> None | Some v \<Rightarrow> if valid_rune v then Some (utf8 v, 9) else None)
               else (case digits_val 8 3 s of None \<Rightarrow> None | Some v \<Rightarrow> if v \<le> 255 then Some ([char_of v], 3) else None)))"

text \<open>\<open>strconv.Unquote\<close> behind the opening quote, for text that is valid UTF-8.\<close>

function unquote_rest :: "string \<Rightarrow> string option" where
  "unquote_rest s =
     (case s of
        [] \<Rightarrow> None
      | ch # r \<Rightarrow>
          if ch = CHR 0x22 then (if r = [] then Some [] else None)
          else if ch = CHR 0x0A then None
          else if ch \<noteq> CHR 0x5C then map_option ((#) ch) (unquote_rest r)
          else case escape r of
            None \<Rightarrow> None
          | Some (bs, n) \<Rightarrow> map_option ((@) bs) (unquote_rest (drop n r)))"
  by pat_completeness auto
termination
  by (relation "measure length") auto

declare unquote_rest.simps [simp del]

definition go_unquote :: "string \<Rightarrow> gerr + string" where
  "go_unquote s =
     (let bad = Inl (sentinel ''strconv.ErrSyntax'' ''invalid syntax'')
      in case s of
           ch # r \<Rightarrow> if ch = CHR 0x22 then (case unquote_rest r of None \<Rightarrow> bad | Some v \<Rightarrow> Inr v) else bad
         | [] \<Rightarrow> bad)"

text \<open>The lines of a \<open>bufio.Scanner\<close>; a line that does not fit its buffer ends the scan.\<close>

definition scan_lines :: "string \<Rightarrow> string list" where
  "scan_lines s = (let ls = split_on CHR 0x0A s in if last ls = [] then butlast ls else ls)"

definition MaxScanTokenSize :: nat where "MaxScanTokenSize = 65536"

fun module_directive :: "string list \<Rightarrow> gerr + string" where
  "module_directive [] = Inl (errors_New ''release guard: go.mod has no module directive'')"
| "module_directive (raw # rest) =
     (if length raw \<ge> MaxScanTokenSize
      then Inl (wrapf [Lit ''release guard: read go.mod: ''] (sentinel ''bufio.ErrTooLong'' ''bufio.Scanner: token too long'') [])
      else
        (let line = trim_space (trim_suffix raw [CHR 0x0D])
         in if \<not> has_prefix line ''module '' then module_directive rest
            else case GoText.fields (trim_space (trim_prefix line ''module'')) of
              [] \<Rightarrow> module_directive rest
            | path # _ \<Rightarrow>
                if has_prefix path [CHR 0x22] then
                  (case go_unquote path of
                     Inl e \<Rightarrow> Inl (wrapf [Lit ''release guard: parse module directive '', Quo line, Lit '': ''] e [])
                   | Inr unquoted \<Rightarrow> Inr unquoted)
                else Inr path))"

definition ParseModulePath :: "string \<Rightarrow> gerr + string" where
  "ParseModulePath goMod = module_directive (scan_lines goMod)"

definition ReadModulePath :: "os_env \<Rightarrow> string \<Rightarrow> gerr + string" where
  "ReadModulePath fl path =
     (case os_ReadFile fl path of
        Inl e \<Rightarrow> Inl (wrapf [Lit (''release guard: read '' @ path @ '': '')] e [])
      | Inr data \<Rightarrow> ParseModulePath data)"

section \<open>The command\<close>

record summary =
  su_Released :: bool
  su_Version :: string
  su_Tag :: string

definition decode_bool :: "string \<Rightarrow> json \<Rightarrow> bool \<Rightarrow> bool \<times> gerr option" where
  "decode_bool field v old =
     (case v of JBool b \<Rightarrow> (b, None) | JNull \<Rightarrow> (old, None) | _ \<Rightarrow> (old, Some (type_error v field ''bool'')))"

fun decode_summary :: "(string \<times> json) list \<Rightarrow> summary \<Rightarrow> gerr option \<Rightarrow> gerr + summary" where
  "decode_summary [] su err = (case err of None \<Rightarrow> Inr su | Some e \<Rightarrow> Inl e)"
| "decode_summary ((k, v) # ms) su err =
     (case field_of [''released'', ''version'', ''tag''] k of
        None \<Rightarrow> decode_summary ms su err
      | Some n \<Rightarrow>
          if n = ''released'' then
            (let (b, e) = decode_bool ''summary.released'' v (su_Released su)
             in decode_summary ms (su\<lparr>su_Released := b\<rparr>) (first_err err e))
          else if n = ''version'' then
            (let (s, e) = decode_string ''summary.version'' v (su_Version su)
             in decode_summary ms (su\<lparr>su_Version := s\<rparr>) (first_err err e))
          else
            (let (s, e) = decode_string ''summary.tag'' v (su_Tag su)
             in decode_summary ms (su\<lparr>su_Tag := s\<rparr>) (first_err err e)))"

definition unmarshal_summary :: "gerr + json \<Rightarrow> gerr + summary" where
  "unmarshal_summary j =
     (let zero = \<lparr>su_Released = False, su_Version = [], su_Tag = []\<rparr>
      in case j of
           Inl e \<Rightarrow> Inl e
         | Inr JNull \<Rightarrow> Inr zero
         | Inr (JObj ms) \<Rightarrow> decode_summary ms zero None
         | Inr v \<Rightarrow> Inl (top_type_error v ''main.summary''))"

definition readSummary :: "os_env \<Rightarrow> string \<Rightarrow> gerr + (string \<times> bool)" where
  "readSummary fl path =
     (case os_ReadFile fl path of
        Inl e \<Rightarrow> Inl (wrapf [Lit (''release guard: read '' @ path @ '': '')] e [])
      | Inr data \<Rightarrow>
          (case unmarshal_summary (json_parse fl data) of
             Inl e \<Rightarrow> Inl (wrapf [Lit (''release guard: decode '' @ path @ '': '')] e [])
           | Inr meta \<Rightarrow>
               if su_Tag meta \<noteq> [] then Inr (su_Tag meta, su_Released meta) else Inr (su_Version meta, su_Released meta)))"

record guard_flags =
  gf_version :: string
  gf_summary :: string
  gf_module :: string
  gf_goMod :: string

definition guard_flag_set :: "guard_flags flag list" where
  "guard_flag_set =
     [StringVar ''version'' (\<lambda>v c. c\<lparr>gf_version := v\<rparr>), StringVar ''summary'' (\<lambda>v c. c\<lparr>gf_summary := v\<rparr>),
      StringVar ''module'' (\<lambda>v c. c\<lparr>gf_module := v\<rparr>), StringVar ''go-mod'' (\<lambda>v c. c\<lparr>gf_goMod := v\<rparr>)]"

text \<open>The check for a version that is known: the exit code and the error, if any.\<close>

definition guard_check :: "os_env \<Rightarrow> guard_flags \<Rightarrow> string \<Rightarrow> int \<times> gerr option" where
  "guard_check fl c version =
     (case (if gf_module c = [] then ReadModulePath fl (gf_goMod c) else Inr (gf_module c)) of
        Inl e \<Rightarrow> (1, Some e)
      | Inr modulePath \<Rightarrow>
          (case Check modulePath version of
             Some e \<Rightarrow> (1, Some e)
           | None \<Rightarrow> (case ModuleMajor modulePath of Inl e \<Rightarrow> (1, Some e) | Inr _ \<Rightarrow> (0, None))))"

text \<open>
  \<open>main\<close>: the exit code. A flag error ends the process with 2, a request for help with 0.
\<close>

definition guard_main :: "os_env \<Rightarrow> string list \<Rightarrow> int \<times> gerr option" where
  "guard_main fl args =
     (case flag_parse guard_flag_set args \<lparr>gf_version = [], gf_summary = [], gf_module = [], gf_goMod = ''go.mod''\<rparr> of
        (_, Inl e) \<Rightarrow> (if errors_Is e ErrHelp then 0 else 2, Some e)
      | (c, Inr _) \<Rightarrow>
          if gf_version c = [] \<and> gf_summary c = []
          then (2, Some (errors_New ''release guard: one of --version or --summary is required''))
          else if gf_version c \<noteq> [] then guard_check fl c (gf_version c)
          else case readSummary fl (gf_summary c) of
            Inl e \<Rightarrow> (1, Some e)
          | Inr (computed, released) \<Rightarrow>
              if \<not> released \<or> computed = [] then (0, None) else guard_check fl c computed)"

end
