(* ===== verification/ReleaseGuardProps.thy ===== *)
theory ReleaseGuardProps
  imports ReleaseGuard
begin

text \<open>
  Properties of the release guard: the module path it proposes passes its own check, the module
  directive of a go.mod is found, and the exit code of the command decides as the check does.
\<close>

section \<open>The proposed module path\<close>

lemma takeWhile_rev_digits:
  assumes "list_all is_digit ds" and "r = [] \<or> \<not> is_digit (hd r)"
  shows "takeWhile is_digit (ds @ r) = ds" "dropWhile is_digit (ds @ r) = r"
proof -
  have "takeWhile is_digit r = []" "dropWhile is_digit r = r" using assms(2) by (cases r; simp)+
  then show "takeWhile is_digit (ds @ r) = ds" "dropWhile is_digit (ds @ r) = r"
    using assms(1) by (simp_all add: list_all_iff takeWhile_append dropWhile_append)
qed

lemma moduleMajorSuffix_append:
  assumes "ds \<noteq> []" and "list_all is_digit ds"
  shows "moduleMajorSuffix (b @ ''/v'' @ ds) = Some (b, ds)"
proof -
  have "list_all is_digit (rev ds)" using assms(2) by (simp add: list_all_iff)
  moreover have "\<not> is_digit CHR ''v''" by code_simp
  ultimately have "takeWhile is_digit (rev ds @ ''v/'' @ rev b) = rev ds" "dropWhile is_digit (rev ds @ ''v/'' @ rev b) = ''v/'' @ rev b"
    using takeWhile_rev_digits [of "rev ds" "''v/'' @ rev b"] by simp_all
  then show ?thesis using assms(1) by (simp add: moduleMajorSuffix_def Let_def)
qed

lemma moduleMajorSuffix_Some: "moduleMajorSuffix s = Some (b, ds) \<Longrightarrow> prefix b s"
proof -
  assume m: "moduleMajorSuffix s = Some (b, ds)"
  then have pre: "prefix ''v/'' (dropWhile is_digit (rev s))" and b: "b = rev (drop 2 (dropWhile is_digit (rev s)))"
    by (auto simp: moduleMajorSuffix_def Let_def split: if_splits)
  have "suffix (dropWhile is_digit (rev s)) (rev s)" by (rule suffix_dropWhile)
  then have "suffix (drop 2 (dropWhile is_digit (rev s))) (rev s)" using suffix_drop suffix_order.trans by blast
  then show "prefix b s" unfolding b by (simp add: suffix_to_prefix)
qed

lemma trim_suffix_prefix: "prefix (trim_suffix s p) s"
  by (simp add: trim_suffix_def take_is_prefix)

lemma trim_suffix_id: "p \<noteq> [] \<Longrightarrow> s \<noteq> [] \<Longrightarrow> last s \<noteq> last p \<Longrightarrow> trim_suffix s p = s"
  by (cases s rule: rev_cases; cases p rule: rev_cases) (auto simp: trim_suffix_def has_suffix_def)

lemma trim_space_fronts:
  "front space_seqs s = None \<Longrightarrow> front (map rev space_seqs) (rev s) = None \<Longrightarrow> trim_space s = s"
  by (simp add: trim_space_def trim_left_def trim_right_def strip_id)

lemma space_seqs_slash: "q \<in> set space_seqs \<Longrightarrow> CHR ''/'' \<notin> set q"
  by (auto simp: space_seqs_def ascii_spaces_def)

lemma front_before_slash:
  assumes "front space_seqs p = None" and "prefix b p"
  shows "front space_seqs (b @ CHR ''/'' # r) = None"
  unfolding front_None
proof (intro ballI)
  fix q
  assume q: "q \<in> set space_seqs"
  show "q = [] \<or> \<not> prefix q (b @ CHR ''/'' # r)"
  proof (rule ccontr)
    assume "\<not> (q = [] \<or> \<not> prefix q (b @ CHR ''/'' # r))"
    then have ne: "q \<noteq> []" and pre: "prefix q (b @ CHR ''/'' # r)" by auto
    have "prefix q b"
    proof (cases "length q \<le> length b")
      case True
      then show ?thesis using pre by (metis prefix_length_prefix prefixI)
    next
      case False
      then have "prefix (b @ ''/'') q"
        using pre by (intro prefix_length_prefix [of "b @ ''/''" "b @ CHR ''/'' # r" q]) (auto simp: prefix_def)
      then show ?thesis using space_seqs_slash [OF q] by (auto simp: prefix_def)
    qed
    then show False using assms q ne by (auto simp: front_None dest: prefix_order.trans)
  qed
qed

lemma digit_not_space_end: "is_digit ch \<Longrightarrow> ch \<notin> set space_ends"
  by (auto simp: is_digit_def space_ends_unfold)

lemma trim_versioned:
  assumes "trim_space p = p" and "prefix b p" and "ds \<noteq> []" and "list_all is_digit ds"
  shows "trim_space (b @ ''/v'' @ ds) = b @ ''/v'' @ ds"
proof (rule trim_space_fronts)
  have "front space_seqs p = None" using assms(1) front_trim_space by metis
  then show "front space_seqs (b @ ''/v'' @ ds) = None" using front_before_slash [OF _ assms(2)] by simp
  obtain ds' d where ds: "ds = ds' @ [d]" using assms(3) by (cases ds rule: rev_cases) auto
  then have "d \<notin> set space_ends" using assms(4) digit_not_space_end by simp
  moreover have "hd (rev q) = last q" if "q \<in> set space_seqs" for q using that by (simp add: hd_rev)
  ultimately have "d \<notin> hd ` set (map rev space_seqs)" by (auto simp: space_ends_def image_iff)
  then show "front (map rev space_seqs) (rev (b @ ''/v'' @ ds)) = None" by (simp add: ds front_hd)
qed

lemma VersionMajor_range:
  assumes "VersionMajor v = Inr got"
  shows "got < 2 ^ 63"
  using assms by (auto simp: VersionMajor_def parse_int_def Let_def dest: dec_val_nonneg split: option.splits if_splits list.splits)

text \<open>
  C37: when a release of major version 2 or higher is refused because the module path has another
  major, the module path the message proposes is accepted for that release. For a release of
  major version 0 no module path is accepted at all, the proposed one neither.
\<close>

theorem proposed_path_passes:
  assumes "VersionMajor v = Inr got" and "trim_space p = p"
  shows "(2 \<le> got \<longrightarrow> Check (targetModulePath p got) v = None) \<and> (got = 0 \<longrightarrow> (\<forall>p'. Check p' v \<noteq> None))"
proof (intro conjI impI allI)
  assume got: "2 \<le> got"
  obtain b where b: "prefix b p" "targetModulePath p got = b @ ''/v'' @ itoa got"
    using got trim_suffix_prefix [of p "''/''"] moduleMajorSuffix_Some [of "trim_suffix p ''/''"]
    by (fastforce simp: targetModulePath_def Let_def intro: prefix_order.trans split: option.splits prod.splits)
  have ds: "itoa got \<noteq> []" "list_all is_digit (itoa got)" using got digits_digits_of by (simp_all add: itoa_def)
  have last: "last (b @ ''/v'' @ itoa got) \<noteq> CHR ''/''"
  proof -
    have "is_digit (last (itoa got))" using ds by (simp add: list_all_iff)
    moreover have "\<not> is_digit CHR ''/''" by code_simp
    ultimately show ?thesis using ds(1) by (metis append_is_Nil_conv last_appendR)
  qed
  have "ModuleMajor (b @ ''/v'' @ itoa got) = Inr got"
    using trim_versioned [OF assms(2) b(1) ds] trim_suffix_id [of "''/''" "b @ ''/v'' @ itoa got"] last
      moduleMajorSuffix_append [OF ds, of b] parse_int_itoa [of got "''Atoi''"] VersionMajor_range [OF assms(1)] got
    by (simp add: ModuleMajor_def Let_def)
  then show "Check (targetModulePath p got) v = None" by (simp add: Check_def b(2) assms(1))
next
  fix p'
  assume "got = 0"
  moreover have "want \<ge> 1" if "ModuleMajor p' = Inr want" for want
    using that by (auto simp: ModuleMajor_def Let_def split: if_splits option.splits sum.splits)
  ultimately show "Check p' v \<noteq> None" using assms(1) by (auto simp: Check_def split: sum.splits)
qed

theorem proposed_path_passes_witness:
  "Check ''example.com/service'' ''v3.0.1-rc.1'' \<noteq> None
     \<and> targetModulePath ''example.com/service'' 3 = ''example.com/service/v3'' \<and> Check ''example.com/service/v3'' ''v3.0.1-rc.1'' = None"
proof -
  have v: "VersionMajor ''v3.0.1-rc.1'' = Inr 3" by code_simp
  have t: "trim_space ''example.com/service'' = ''example.com/service''" by code_simp
  have "ModuleMajor ''example.com/service'' = Inr 1" by code_simp
  then have "Check ''example.com/service'' ''v3.0.1-rc.1'' \<noteq> None" by (simp add: Check_def v)
  moreover have "targetModulePath ''example.com/service'' 3 = ''example.com/service/v3''" by code_simp
  ultimately show ?thesis using proposed_path_passes [OF v t] by simp
qed

section \<open>go.mod\<close>

text \<open>Text without any byte of a white space rune.\<close>

definition plain :: "string \<Rightarrow> bool" where
  "plain s = (s \<noteq> [] \<and> list_all (\<lambda>ch. \<not> List.member space_ends ch) s)"

lemma plain_iff: "plain s \<longleftrightarrow> s \<noteq> [] \<and> set s \<inter> set space_ends = {}"
  by (auto simp: plain_def list_all_iff)

lemma plain_spaceless: "set s \<inter> set space_ends = {} \<Longrightarrow> spaceless s"
proof (induction s)
  case (Cons c s)
  then have "c \<notin> hd ` set space_seqs" by (auto simp: space_ends_def)
  then show ?case using Cons by (simp add: front_hd)
qed simp

lemma plain_trim: "plain s \<Longrightarrow> trim_space s = s"
  by (rule trim_space_id) (auto simp: plain_iff dest: hd_in_set last_in_set)

lemma module_line:
  assumes "plain path"
  shows "trim_space (trim_suffix (''module '' @ path) [CHR 0x0D]) = ''module '' @ path"
    and "trim_space (trim_prefix (''module '' @ path) ''module'') = path"
proof -
  have path: "path \<noteq> []" "last path \<notin> set space_ends" using assms by (auto simp: plain_iff dest: last_in_set)
  have cr: "last path \<noteq> CHR 0x0D" using path by (auto simp: space_ends_unfold)
  have "trim_suffix (''module '' @ path) [CHR 0x0D] = ''module '' @ path" using path cr by (intro trim_suffix_id) auto
  then show "trim_space (trim_suffix (''module '' @ path) [CHR 0x0D]) = ''module '' @ path"
    using path by (simp add: trim_space_id space_ends_unfold)
  have "trim_left ('' '' @ path) = trim_left path"
    using front_blank [of path] by (simp add: trim_left_def) (subst strip.simps, simp)
  then have "trim_space ('' '' @ path) = trim_space path" by (simp add: trim_space_def)
  then show "trim_space (trim_prefix (''module '' @ path) ''module'') = path"
    using plain_trim [OF assms] by (simp add: trim_prefix_def)
qed

text \<open>A line that is not a module directive and fits the buffer.\<close>

definition skipped :: "string \<Rightarrow> bool" where
  "skipped l = (length l < MaxScanTokenSize \<and> \<not> List.member l CHR 0x0A \<and> \<not> has_prefix (trim_space (trim_suffix l [CHR 0x0D])) ''module '')"

lemma scan_lines_Cons:
  assumes "CHR 0x0A \<notin> set l"
  shows "scan_lines (l @ CHR 0x0A # s) = l # scan_lines s"
  using assms by (simp add: scan_lines_def split_on_append Let_def)

text \<open>
  For a go.mod whose first lines are not module directives, followed by the directive with an
  unquoted path, the path is what the parser returns, whatever follows.
\<close>

theorem ParseModulePath_finds:
  assumes "list_all skipped before" and "plain path" and "hd path \<noteq> CHR 0x22" and "length path < MaxScanTokenSize - 7"
  shows "ParseModulePath (concat (map (\<lambda>l. l @ [CHR 0x0A]) before) @ ''module '' @ path @ CHR 0x0A # after) = Inr path"
proof -
  have nl: "CHR 0x0A \<notin> set path" using assms(2) by (auto simp: plain_iff space_ends_unfold)
  have f: "GoText.fields path = [path]"
    using fields_join [of "[path]"] assms(2) by (simp add: plain_iff plain_spaceless)
  have q: "\<not> has_prefix path [CHR 0x22]" using assms(2,3) by (cases path) (auto simp: has_prefix_def plain_iff)
  have "module_directive (scan_lines (''module '' @ path @ CHR 0x0A # after)) = Inr path"
    using scan_lines_Cons [of "''module '' @ path" after] nl module_line [OF assms(2)] f q assms(4)
    by (simp add: has_prefix_def MaxScanTokenSize_def Let_def)
  then show ?thesis
    unfolding ParseModulePath_def using assms(1)
  proof (induction before)
    case (Cons l before)
    then show ?case using scan_lines_Cons [of l] by (simp add: skipped_def Let_def)
  qed simp
qed

theorem ParseModulePath_finds_witness:
  "ParseModulePath (''// release module'' @ [CHR 0x0A] @ ''module example.com/a/v2'' @ [CHR 0x0A] @ ''go 1.24'') = Inr ''example.com/a/v2''"
proof -
  have "\<not> has_prefix (trim_space (trim_suffix ''// release module'' [CHR 0x0D])) ''module ''" by code_simp
  then have "list_all skipped [''// release module'']" by (simp add: skipped_def MaxScanTokenSize_def)
  moreover have "plain ''example.com/a/v2''" by code_simp
  ultimately show ?thesis
    using ParseModulePath_finds [of "[''// release module'']" "''example.com/a/v2''" "''go 1.24''"] by (simp add: MaxScanTokenSize_def)
qed

section \<open>The command\<close>

text \<open>
  Run with a version and a module path, the command exits with 0 exactly when both have the
  same major version, and with 1 otherwise; it reads no file.
\<close>

theorem guard_main_decides:
  assumes "v \<noteq> []" and "m \<noteq> []"
  shows "fst (guard_main fl [''--version='' @ v, ''--module='' @ m]) =
     (if \<exists>n. ModuleMajor m = Inr n \<and> VersionMajor v = Inr n then 0 else 1)"
proof -
  let ?c0 = "\<lparr>gf_version = [], gf_summary = [], gf_module = [], gf_goMod = ''go.mod''\<rparr>"
  have "flag_parse guard_flag_set [''--'' @ ''version'' @ ''='' @ v, ''--'' @ ''module'' @ ''='' @ m] ?c0 =
      flag_parse guard_flag_set [''--'' @ ''module'' @ ''='' @ m] (?c0\<lparr>gf_version := v\<rparr>)"
    by (rule flag_parse_equals [where f = "StringVar ''version'' (\<lambda>v c. c\<lparr>gf_version := v\<rparr>)"])
      (simp_all add: guard_flag_set_def StringVar_def)
  also have "\<dots> = flag_parse guard_flag_set [] (?c0\<lparr>gf_version := v, gf_module := m\<rparr>)"
    by (rule flag_parse_equals [where f = "StringVar ''module'' (\<lambda>v c. c\<lparr>gf_module := v\<rparr>)"])
      (simp_all add: guard_flag_set_def StringVar_def)
  finally have parse: "flag_parse guard_flag_set [''--version='' @ v, ''--module='' @ m] ?c0 =
      (?c0\<lparr>gf_version := v, gf_module := m\<rparr>, Inr [])" by simp
  show ?thesis
    unfolding guard_main_def parse using assms
    by (auto simp: guard_check_def Check_def split: sum.split)
qed

definition demo_env :: os_env where
  "demo_env =
     \<lparr>os_ReadFile = (\<lambda>_. Inl (errors_New ''no such file'')), os_Getenv = (\<lambda>_. []), json_parse = (\<lambda>_. Inr JNull),
      ParseFloat = (\<lambda>_. Inl ErrSyntax)\<rparr>"

theorem guard_main_decides_witness:
  "fst (guard_main demo_env [''--version=v2.4.0'', ''--module=example.com/a/v2'']) = 0"
proof -
  have "ModuleMajor ''example.com/a/v2'' = Inr 2" "VersionMajor ''v2.4.0'' = Inr 2" by code_simp+
  then show ?thesis
    using guard_main_decides [of "''v2.4.0''" "''example.com/a/v2''" "demo_env"] by simp
qed

end
