(* ===== verification/Serve.thy ===== *)
theory Serve
  imports Cli Routes KeyringLife
begin

text \<open>
  The life of \<open>jwtoken-tester serve\<close> (\<open>runServe\<close> in \<open>cmd/jwtoken-tester/main.go\<close>) and the dispatch
  of the commands (\<open>run\<close>). Four goroutines run at the same time: the one that called \<open>runServe\<close>, the
  one that listens, the key rotation of the ring and the cleanup of the visitors; requests run in
  goroutines of their own. Each step of one of them, between two points where others can run, is a
  rule of the step relation.
\<close>

section \<open>The running process\<close>

text \<open>The rotation goroutine: not running, waiting for a tick, or between rotating and pruning.\<close>

datatype rotor = RotorOff | RotorIdle | RotorPruning gotime

text \<open>The listening goroutine: before it logs, before it listens, listening, returned.\<close>

datatype listener = Starting | Binding | Listening | Ended

text \<open>The calling goroutine: waiting for the context, in \<open>Shutdown\<close>, after it, returned.\<close>

datatype stage = Waiting | Draining | Closing | Returned

datatype serve_log =
    RotationLog rotation_log
  | RemoteBind string
  | ListenFailed gerr
  | ShutdownFailed gerr
  | KeysDiscarded

text \<open>
  \<open>sg_open\<close> counts the requests that were accepted and not yet answered, \<open>sg_answers\<close> holds the
  answers, the latest first; \<open>None\<close> is a handler that panicked. \<open>sg_log\<close> has the latest entry first.
\<close>

record ('j, 'l) serving =
  sg_ring :: "'j KeyRing"
  sg_rotor :: rotor
  sg_server :: "'l server_state"
  sg_listener :: listener
  sg_open :: nat
  sg_answers :: "(http_response \<times> audit_event list) option list"
  sg_done :: bool
  sg_stage :: stage
  sg_log :: "serve_log list"

text \<open>After \<open>StartRotation\<close> and \<open>server.New\<close>, before the listening goroutine has run.\<close>

definition serve_init :: "serveConfig \<Rightarrow> 'j KeyRing \<Rightarrow> 'l visitors \<Rightarrow> ('j, 'l) serving" where
  "serve_init cfg ring vs =
     \<lparr>sg_ring = ring, sg_rotor = (if sc_RotationPeriod cfg \<le> 0 then RotorOff else RotorIdle), sg_server = start_state vs,
      sg_listener = Starting, sg_open = 0, sg_answers = [], sg_done = False, sg_stage = Waiting,
      sg_log = (if sc_RotationPeriod cfg \<le> 0 then [RotationLog RotationDisabled] else [])\<rparr>"

definition announce :: "serveConfig \<Rightarrow> ('j, 'l) serving \<Rightarrow> ('j, 'l) serving" where
  "announce cfg st =
     st\<lparr>sg_listener := Binding,
        sg_log := (case warnIfRemoteBind (sc_Listen cfg) of None \<Rightarrow> sg_log st | Some host \<Rightarrow> RemoteBind host # sg_log st)\<rparr>"

text \<open>\<open>ListenAndServe\<close> returns an error that is not \<open>ErrServerClosed\<close>: it is logged, the context ends.\<close>

definition listen_failure :: "gerr \<Rightarrow> ('j, 'l) serving \<Rightarrow> ('j, 'l) serving" where
  "listen_failure e st = st\<lparr>sg_listener := Ended, sg_done := True, sg_log := ListenFailed e # sg_log st\<rparr>"

text \<open>\<open>Shutdown\<close> first closes the listeners, then waits for the open requests.\<close>

definition begin_shutdown :: "('j, 'l) serving \<Rightarrow> ('j, 'l) serving" where
  "begin_shutdown st = st\<lparr>sg_stage := Draining, sg_listener := (if sg_listener st = Listening then Ended else sg_listener st)\<rparr>"

definition shutdown_failure :: "gerr \<Rightarrow> ('j, 'l) serving \<Rightarrow> ('j, 'l) serving" where
  "shutdown_failure e st = st\<lparr>sg_stage := Closing, sg_log := ShutdownFailed e # sg_log st\<rparr>"

definition serve_close :: "('j, 'l) serving \<Rightarrow> ('j, 'l) serving" where
  "serve_close st = st\<lparr>sg_server := server_Close (sg_server st), sg_stage := Returned, sg_log := KeysDiscarded # sg_log st\<rparr>"

text \<open>
  A request reads the ring once and perhaps again later, when the rotation may have gone on.
\<close>

definition reads_ring :: "'j jwx \<Rightarrow> 'j KeyRing \<Rightarrow> 'j call \<Rightarrow> bool" where
  "reads_ring lib r c = (fst (c_view c) = r \<and> (ring_step lib)\<^sup>*\<^sup>* r (fst (c_later c)))"

inductive serve_step ::
    "('t, 'h, 'j) libs \<Rightarrow> 'l limiters \<Rightarrow> Server \<Rightarrow> serveConfig \<Rightarrow> ('j, 'l) serving \<Rightarrow> ('j, 'l) serving \<Rightarrow> bool"
  for lb :: "('t, 'h, 'j) libs" and lims :: "'l limiters" and s :: Server and cfg :: serveConfig where
  rotated: "sg_rotor st = RotorIdle \<Longrightarrow> RotateAt (lb_jwx lb) dr now (sg_ring st) = (r, None) \<Longrightarrow>
    serve_step lb lims s cfg st (st\<lparr>sg_ring := r, sg_rotor := RotorPruning now\<rparr>)"
| rotation_failed: "sg_rotor st = RotorIdle \<Longrightarrow> RotateAt (lb_jwx lb) dr now (sg_ring st) = (r, Some e) \<Longrightarrow>
    serve_step lb lims s cfg st (st\<lparr>sg_ring := r, sg_log := RotationLog (RotationFailed e) # sg_log st\<rparr>)"
| pruned: "sg_rotor st = RotorPruning now \<Longrightarrow> r = PruneAt now ord (sg_ring st) \<Longrightarrow>
    serve_step lb lims s cfg st
      (st\<lparr>sg_ring := r, sg_rotor := RotorIdle, sg_log := RotationLog (KeysRotated (active_kids (lb_jwx lb) r)) # sg_log st\<rparr>)"
| rotation_ended: "sg_rotor st = RotorIdle \<Longrightarrow> sg_done st \<Longrightarrow> serve_step lb lims s cfg st (st\<lparr>sg_rotor := RotorOff\<rparr>)"
| announced: "sg_listener st = Starting \<Longrightarrow> serve_step lb lims s cfg st (announce cfg st)"
| bound: "sg_listener st = Binding \<Longrightarrow> sg_stage st = Waiting \<Longrightarrow> serve_step lb lims s cfg st (st\<lparr>sg_listener := Listening\<rparr>)"
| listen_failed: "sg_listener st \<in> {Binding, Listening} \<Longrightarrow> sg_stage st = Waiting \<Longrightarrow>
    serve_step lb lims s cfg st (listen_failure e st)"
| server_closed: "sg_listener st = Binding \<Longrightarrow> sg_stage st \<noteq> Waiting \<Longrightarrow> serve_step lb lims s cfg st (st\<lparr>sg_listener := Ended\<rparr>)"
| accepted: "sg_listener st = Listening \<Longrightarrow> serve_step lb lims s cfg st (st\<lparr>sg_open := Suc (sg_open st)\<rparr>)"
| answered: "sg_open st = Suc n \<Longrightarrow> reads_ring (lb_jwx lb) (sg_ring st) c \<Longrightarrow>
    server_step lb lims s (sg_server st) (Serve m c r) out srv \<Longrightarrow>
    serve_step lb lims s cfg st (st\<lparr>sg_server := srv, sg_open := n, sg_answers := out # sg_answers st\<rparr>)"
| cleaned: "server_step lb lims s (sg_server st) (Tick visits) None srv \<Longrightarrow> serve_step lb lims s cfg st (st\<lparr>sg_server := srv\<rparr>)"
| signalled: "serve_step lb lims s cfg st (st\<lparr>sg_done := True\<rparr>)"
| shutdown: "sg_stage st = Waiting \<Longrightarrow> sg_done st \<Longrightarrow> serve_step lb lims s cfg st (begin_shutdown st)"
| drained: "sg_stage st = Draining \<Longrightarrow> sg_open st = 0 \<Longrightarrow> serve_step lb lims s cfg st (st\<lparr>sg_stage := Closing\<rparr>)"
| timed_out: "sg_stage st = Draining \<Longrightarrow> serve_step lb lims s cfg st (shutdown_failure e st)"
| closed: "sg_stage st = Closing \<Longrightarrow> serve_step lb lims s cfg st (serve_close st)"

inductive_cases serve_stepE: "serve_step lb lims s cfg st st'"

lemmas serve_defs = announce_def listen_failure_def begin_shutdown_def shutdown_failure_def serve_close_def

section \<open>Dispatch\<close>

datatype command = CServe | CPrintToken | CDecode | CVerify | CHealthcheck | CHelp | CUnknown

definition command_of :: "string \<Rightarrow> command" where
  "command_of a =
     (if a = ''serve'' then CServe else if a = ''print-token'' then CPrintToken else if a = ''decode'' then CDecode
      else if a = ''verify'' then CVerify else if a = ''healthcheck'' then CHealthcheck
      else if List.member [''help'', ''-h'', ''--help''] a then CHelp else CUnknown)"

text \<open>What the process gets from outside besides its arguments and standard input.\<close>

record ('t, 'h, 'j) world =
  w_cli :: "'j cli_libs"
  w_jwx :: "'j jwx"
  w_jwt :: "('t, 'h, 'j) jwt_lib"
  w_rt :: runtime
  w_draw :: crypto_draw
  w_clock :: gotime
  w_Version :: string
  w_build :: "build_info option"
  w_Get :: "int \<Rightarrow> string \<Rightarrow> gerr + int"

text \<open>
  \<open>runServe\<close> exits with 1 when it cannot start. When it returns, at the end of the steps above, \<open>run\<close>
  gives 0.
\<close>

definition runServe_code :: "('t, 'h, 'j) world \<Rightarrow> string list \<Rightarrow> int" where
  "runServe_code w args =
     (case runServe_setup (w_jwx w) (w_draw w) (cl_env (w_cli w)) (w_Version w) (w_build w) args
        :: gerr + (serveConfig \<times> 'j KeyRing \<times> Server \<times> unit visitors) of
        Inl _ \<Rightarrow> 1 | Inr _ \<Rightarrow> 0)"

definition run :: "('t, 'h, 'j) world \<Rightarrow> string list \<Rightarrow> gerr + string \<Rightarrow> int" where
  "run w args stdin =
     (case args of
        _ # a # rest \<Rightarrow>
          (case command_of a of
             CServe \<Rightarrow> runServe_code w rest
           | CPrintToken \<Rightarrow> fst (runPrintToken (w_jwx w) (w_jwt w) (w_rt w) (w_draw w) (w_clock w) (cl_env (w_cli w)) rest)
           | CDecode \<Rightarrow> o_code (runDecodeCommand (cl_env (w_cli w)) (cl_werr (w_cli w)) rest stdin)
           | CVerify \<Rightarrow> o_code (runVerifyCommand (w_cli w) (w_clock w) rest stdin)
           | CHealthcheck \<Rightarrow> runHealthcheck (cl_env (w_cli w)) (w_Get w) rest
           | CHelp \<Rightarrow> 0
           | CUnknown \<Rightarrow> 1)
      | _ \<Rightarrow> 1)"

end
