(* ===== verification/ServeProps.thy ===== *)
theory ServeProps
  imports Serve Interop
begin

text \<open>
  The life of the server process: invariants that hold however the goroutines interleave, what is
  true when it has stopped, that it can always stop, and the exit code.
\<close>

section \<open>The parts of the state\<close>

interpretation rst: step_invariant "ring_step lib" "\<lambda>r. ring_reachable lib r \<and> enabled_alg r = en" for lib en
  by unfold_locales (auto simp: ring_step_enabled intro: ring_reachable.step)

lemma ring_steps:
  assumes "(ring_step lib)\<^sup>*\<^sup>* r r'" and "ring_reachable lib r"
  shows "ring_reachable lib r' \<and> enabled_alg r' = enabled_alg r"
  using rst.steps_keep [OF assms(1)] assms(2) by simp

text \<open>What the rotation changes.\<close>

lemma serve_step_ring:
  assumes "serve_step lb lims s cfg st st'" and "ring_reachable (lb_jwx lb) (sg_ring st)"
  shows "(ring_step (lb_jwx lb))\<^sup>*\<^sup>* (sg_ring st) (sg_ring st')"
  using assms(1)
proof cases
  case (rotated dr now r)
  then show ?thesis using ring_step.rotate [of "lb_jwx lb"] by auto
next
  case (rotation_failed dr now r e)
  then show ?thesis using ring_step.rotate [of "lb_jwx lb"] by auto
next
  case (pruned now r ord)
  then show ?thesis using ring_step.prune [of "lb_jwx lb"] by auto
qed (simp_all add: serve_defs)

text \<open>What requests and the cleanup change.\<close>

lemma serve_step_server:
  assumes "serve_step lb lims s cfg st st'" and "ring_reachable (lb_jwx lb) (sg_ring st)"
    and "server_inv (sg_server st)" and "None \<notin> set (sg_answers st)"
  shows "server_inv (sg_server st') \<and> None \<notin> set (sg_answers st')"
  using assms(1)
proof cases
  case (answered n c m r out srv)
  have ok: "ring_reachable (lb_jwx lb) (fst (c_view c))" "ring_reachable (lb_jwx lb) (fst (c_later c))"
    "enabled_alg (fst (c_later c)) = enabled_alg (fst (c_view c))"
    using answered(3) assms(2) ring_steps by (auto simp: reads_ring_def)
  from answered(4) have "out = fst (Handler lb lims s m c r (st_visitors (sg_server st)))"
    by (auto elim: server_stepE)
  then have "out \<noteq> None"
    using Handler_answers [OF _ _ ok(3)] reachable_inv [OF ok(1)] reachable_inv [OF ok(2)] by blast
  then show ?thesis using answered server_step_inv [OF answered(4) assms(3)] assms(4) by auto
next
  case (cleaned visits srv)
  then show ?thesis using server_step_inv [OF cleaned(2) assms(3)] assms(4) by simp
next
  case closed
  then show ?thesis using server_step_inv [OF server_step.stop assms(3)] assms(4) by (simp add: serve_close_def)
qed (use assms in \<open>simp_all add: serve_defs\<close>)

text \<open>How the goroutines depend on each other.\<close>

definition control_inv :: "('j, 'l) serving \<Rightarrow> bool" where
  "control_inv st =
     ((sg_stage st \<noteq> Waiting \<longrightarrow> sg_done st \<and> sg_listener st \<noteq> Listening) \<and>
      (st_cleaning (sg_server st) \<longleftrightarrow> sg_stage st \<noteq> Returned) \<and>
      (KeysDiscarded \<in> set (sg_log st) \<longleftrightarrow> sg_stage st = Returned) \<and>
      (\<forall>e. ListenFailed e \<in> set (sg_log st) \<longrightarrow> sg_done st \<and> sg_listener st = Ended) \<and>
      (sg_stage st \<in> {Closing, Returned} \<longrightarrow> (\<forall>e. ShutdownFailed e \<notin> set (sg_log st)) \<longrightarrow> sg_open st = 0))"

lemma server_step_cleaning:
  assumes "server_step lb lims s srv ev out srv'" and "ev \<noteq> Stop"
  shows "st_cleaning srv' = st_cleaning srv"
  using assms by (auto simp: cleanupVisitors_def elim: server_stepE)

lemma serve_step_control:
  assumes "serve_step lb lims s cfg st st'" and "control_inv st" and "server_inv (sg_server st)"
  shows "control_inv st'"
  using assms(1)
proof cases
  case (answered n c m r out srv)
  then show ?thesis using assms(2) server_step_cleaning [OF answered(4)] by (auto simp: control_inv_def)
next
  case (cleaned visits srv)
  then show ?thesis using assms(2) server_step_cleaning [OF cleaned(2)] by (auto simp: control_inv_def)
next
  case closed
  then show ?thesis using assms(2,3) by (auto simp: control_inv_def serve_close_def server_Close_def server_inv_def)
next
  case announced
  then show ?thesis using assms(2) by (auto simp: control_inv_def announce_def split: option.splits)
qed (use assms(2) in \<open>auto simp: control_inv_def serve_defs\<close>)

section \<open>The process\<close>

definition serve_inv :: "'j jwx \<Rightarrow> (algorithm \<Rightarrow> bool) \<Rightarrow> ('j, 'l) serving \<Rightarrow> bool" where
  "serve_inv lib en st =
     (ring_reachable lib (sg_ring st) \<and> enabled_alg (sg_ring st) = en \<and> server_inv (sg_server st)
      \<and> None \<notin> set (sg_answers st) \<and> control_inv st)"

interpretation svs: step_invariant "serve_step lb lims s cfg" "serve_inv (lb_jwx lb) en" for lb lims s cfg en
proof
  fix st st'
  assume step: "serve_step lb lims s cfg st st'" and inv: "serve_inv (lb_jwx lb) en st"
  then have ring: "ring_reachable (lb_jwx lb) (sg_ring st)" "server_inv (sg_server st)" "None \<notin> set (sg_answers st)" "control_inv st"
    by (simp_all add: serve_inv_def)
  show "serve_inv (lb_jwx lb) en st'"
    using ring_steps [OF serve_step_ring [OF step ring(1)] ring(1)] serve_step_server [OF step ring(1-3)]
      serve_step_control [OF step ring(4,2)] inv by (simp add: serve_inv_def)
qed

lemma serve_invariant:
  assumes "(serve_step lb lims s cfg)\<^sup>*\<^sup>* (serve_init cfg r no_visitors) st" and "ring_reachable (lb_jwx lb) r"
  shows "serve_inv (lb_jwx lb) (enabled_alg r) st"
proof (rule svs.steps_keep [OF assms(1)])
  show "serve_inv (lb_jwx lb) (enabled_alg r) (serve_init cfg r no_visitors)"
    using assms(2) by (simp add: serve_inv_def serve_init_def server_inv_def start_state_def visitors_ok_def no_visitors_def control_inv_def)
qed

lemma setup_ring:
  assumes "runServe_setup lib dr en Version bi args = Inr (cfg, r, s, vs)"
  shows "ring_reachable lib r" "vs = no_visitors"
  using assms ring_reachable.new [of lib dr]
  by (auto simp: runServe_setup_def server_New_def no_visitors_def Let_def split: sum.splits)

text \<open>
  C4: a server process that started keeps its promises however rotations, requests, the cleanup,
  signals and failures interleave: the ring stays in a reachable state with the algorithms it was
  started with, the table of visitors stays consistent, and no request panics. When \<open>serve\<close> has
  returned, the context had ended, nothing listens, the cleanup has stopped, and unless the log
  says that the shutdown failed every accepted request was answered. A listener that fails ends
  the context.
\<close>

theorem serve_lifecycle:
  assumes init: "runServe_setup (lb_jwx lb) dr en Version bi args = Inr (cfg, r, s, vs)"
    and steps: "(serve_step lb lims s cfg)\<^sup>*\<^sup>* (serve_init cfg r vs) st"
  shows "ring_reachable (lb_jwx lb) (sg_ring st) \<and> enabled_alg (sg_ring st) = enabled_alg r
     \<and> server_inv (sg_server st) \<and> None \<notin> set (sg_answers st)
     \<and> (st_cleaning (sg_server st) \<longleftrightarrow> sg_stage st \<noteq> Returned)
     \<and> (\<forall>e. ListenFailed e \<in> set (sg_log st) \<longrightarrow> sg_done st \<and> sg_listener st = Ended)
     \<and> (sg_stage st = Returned \<longrightarrow> sg_done st \<and> sg_listener st \<noteq> Listening
         \<and> (sg_open st = 0 \<or> (\<exists>e. ShutdownFailed e \<in> set (sg_log st))))"
  using serve_invariant [OF steps [unfolded setup_ring(2) [OF init]] setup_ring(1) [OF init]] by (auto simp: serve_inv_def control_inv_def)

text \<open>Once the context has ended, the calling goroutine stops on its own, whatever the others do.\<close>

lemma serve_stops:
  assumes "sg_done st"
  shows "\<exists>st'. (serve_step lb lims s cfg)\<^sup>*\<^sup>* st st' \<and> sg_stage st' = Returned \<and> set (sg_log st) \<subseteq> set (sg_log st')"
proof -
  let ?goal = "\<lambda>st. \<exists>st'. (serve_step lb lims s cfg)\<^sup>*\<^sup>* st st' \<and> sg_stage st' = Returned \<and> set (sg_log st) \<subseteq> set (sg_log st')"
  have close: "?goal st" if "sg_stage st = Closing" for st
    using serve_step.closed [OF that, of lb lims s cfg] by (intro exI [of _ "serve_close st"]) (auto simp: serve_close_def)
  have drain: "?goal st" if "sg_stage st = Draining" for st
  proof -
    let ?st = "shutdown_failure undefined st"
    obtain st' where st': "(serve_step lb lims s cfg)\<^sup>*\<^sup>* ?st st'" "sg_stage st' = Returned" "set (sg_log ?st) \<subseteq> set (sg_log st')"
      using close [of ?st] by (auto simp: shutdown_failure_def)
    have "(serve_step lb lims s cfg)\<^sup>*\<^sup>* st st'"
      using serve_step.timed_out [OF that] st'(1) by (rule converse_rtranclp_into_rtranclp)
    then show ?thesis using st'(2,3) by (auto simp: shutdown_failure_def)
  qed
  show ?thesis
  proof (cases "sg_stage st")
    case Waiting
    obtain st' where st': "(serve_step lb lims s cfg)\<^sup>*\<^sup>* (begin_shutdown st) st'" "sg_stage st' = Returned" "set (sg_log (begin_shutdown st)) \<subseteq> set (sg_log st')"
      using drain [of "begin_shutdown st"] by (auto simp: begin_shutdown_def)
    have "(serve_step lb lims s cfg)\<^sup>*\<^sup>* st st'"
      using serve_step.shutdown [OF Waiting assms] st'(1) by (rule converse_rtranclp_into_rtranclp)
    then show ?thesis using st'(2,3) by (auto simp: begin_shutdown_def)
  qed (use close drain in auto)
qed

lemma runServe_setup_visitors:
  assumes "runServe_setup lib dr en Version bi args = Inr (cfg, r, s, vs :: 'l visitors)"
  shows "runServe_setup lib dr en Version bi args = Inr (cfg, r, s, no_visitors :: 'm visitors)"
  using assms by (auto simp: runServe_setup_def server_New_def no_visitors_def Let_def split: sum.splits)


section \<open>An instance\<close>

text \<open>A server with two algorithms and a short grace period.\<close>

definition demo_world :: "(gomap, gomap, demo_jwk) world" where
  "demo_world =
     \<lparr>w_cli = demo_verifier, w_jwx = demo_jwx, w_jwt = demo_jwt, w_rt = demo_rt, w_draw = demo_draw 33 1000, w_clock = time_Unix 1000,
      w_Version = ''1.0.0'', w_build = None, w_Get = (\<lambda>_ _. Inr 200)\<rparr>"

definition demo_args :: "string list" where
  "demo_args = [''--algorithms=EdDSA,RS256'', ''--grace-period=1m'']"

definition demo_serve_config :: serveConfig where
  "demo_serve_config = (defaultServeConfig demo_os)\<lparr>sc_Algorithms := ''EdDSA,RS256'', sc_GracePeriod := 60000000000\<rparr>"

lemma demo_load: "loadServeConfig demo_os demo_args = Inr demo_serve_config"
proof -
  have "flag_parse (registerServeFlags demo_os) demo_args (defaultServeConfig demo_os) = (demo_serve_config, Inr [])"
    by code_simp
  moreover have "parseDiscoveryExtra demo_os (sc_DiscoveryExtraJSON demo_serve_config) = Inr None" by code_simp
  ultimately show ?thesis by (simp add: loadServeConfig_def)
qed

lemma demo_setup:
  "\<exists>s. runServe_setup demo_jwx (demo_draw 33 1000) demo_os ''1.0.0'' None demo_args = Inr (demo_serve_config, demo_ring, s, no_visitors)"
proof -
  have "parseDiscoveryExtra demo_os (sc_DiscoveryExtraJSON demo_serve_config) = Inr None" by code_simp
  moreover have "sc_GracePeriod demo_serve_config = 60000000000" by (simp add: demo_serve_config_def)
  moreover have "parseAlgorithms (sc_Algorithms demo_serve_config) = [AlgEdDSA, AlgRS256]" by code_simp
  ultimately show ?thesis
    using demo_load demo_ring_New by (simp add: runServe_setup_def server_New_def no_visitors_def Let_def)
qed

text \<open>The first request.\<close>

definition first_call :: "demo_jwk call" where
  "first_call = demo_call\<lparr>c_view := (demo_ring, [AlgEdDSA, AlgRS256], []), c_later := (demo_ring, [AlgEdDSA, AlgRS256], [])\<rparr>"

lemma demo_serves:
  "\<exists>st. (serve_step demo_libs demo_limiters s cfg)\<^sup>*\<^sup>* (serve_init cfg demo_ring no_visitors) st \<and> length (sg_answers st) = 1"
proof -
  let ?step = "serve_step demo_libs demo_limiters s cfg" and ?st0 = "serve_init cfg demo_ring (no_visitors :: int visitors)"
  let ?st1 = "announce cfg ?st0"
  let ?st2 = "?st1\<lparr>sg_listener := Listening\<rparr>"
  let ?st3 = "?st2\<lparr>sg_open := Suc (sg_open ?st2)\<rparr>"
  have "?step ?st0 ?st1" by (rule serve_step.announced) (simp add: serve_init_def)
  moreover have "?step ?st1 ?st2" by (rule serve_step.bound) (simp_all add: serve_init_def announce_def)
  moreover have "?step ?st2 ?st3" by (rule serve_step.accepted) simp
  moreover obtain out vs where h: "Handler demo_libs demo_limiters s demo_mw first_call (demo_get ''/'') (st_visitors (sg_server ?st3)) = (out, vs)"
    by fastforce
  have "server_step demo_libs demo_limiters s (sg_server ?st3) (Serve demo_mw first_call (demo_get ''/'')) out ((sg_server ?st3)\<lparr>st_visitors := vs\<rparr>)"
    by (rule server_step.serve [OF h])
  then have "?step ?st3 (?st3\<lparr>sg_server := (sg_server ?st3)\<lparr>st_visitors := vs\<rparr>, sg_open := 0, sg_answers := out # sg_answers ?st3\<rparr>)"
    by (intro serve_step.answered [where c = first_call]) (simp_all add: reads_ring_def first_call_def serve_init_def announce_def)
  ultimately have "?step\<^sup>*\<^sup>* ?st0 (?st3\<lparr>sg_server := (sg_server ?st3)\<lparr>st_visitors := vs\<rparr>, sg_open := 0, sg_answers := out # sg_answers ?st3\<rparr>)"
    by (meson converse_rtranclp_into_rtranclp rtranclp.rtrancl_refl)
  moreover have "length (out # sg_answers ?st3) = 1" by (simp add: serve_init_def announce_def)
  ultimately show ?thesis by fastforce
qed

theorem serve_lifecycle_witness:
  "\<exists>s (st :: (demo_jwk, int) serving).
     (serve_step demo_libs demo_limiters s demo_serve_config)\<^sup>*\<^sup>* (serve_init demo_serve_config demo_ring no_visitors) st
     \<and> length (sg_answers st) = 1 \<and> None \<notin> set (sg_answers st) \<and> ring_reachable demo_jwx (sg_ring st)"
proof -
  obtain s where init: "runServe_setup (lb_jwx demo_libs) (demo_draw 33 1000) demo_os ''1.0.0'' None demo_args =
      Inr (demo_serve_config, demo_ring, s, no_visitors :: int visitors)" using demo_setup by auto
  obtain st where st: "(serve_step demo_libs demo_limiters s demo_serve_config)\<^sup>*\<^sup>* (serve_init demo_serve_config demo_ring no_visitors) st"
    "length (sg_answers st) = 1" using demo_serves by blast
  show ?thesis using serve_lifecycle [OF init st(1)] st by (intro exI [of _ s] exI [of _ st]) simp
qed


end
