(* ===== verification/DemoService.thy ===== *)
theory DemoService
  imports Cli Routes
begin

text \<open>
  The demonstration service (\<open>docker/demo-service/main.go\<close>): a resource server that accepts
  tokens of the issuer. It keeps the keys of the published key set in a cache and asks for them
  again when a key is missing or the cache is too old. The HTTP client, the JWK library and the
  JWT library are a record of functions; requests run at the same time, and the cache is read and
  written in sections under a lock, each of which is a definition.
\<close>

section \<open>Configuration\<close>

record demo_config =
  dc_Port :: string
  dc_IssuerURL :: string
  dc_JWKSURL :: string
  dc_AllowedAud :: string
  dc_RefreshEvery :: int

definition getEnv :: "os_env \<Rightarrow> string \<Rightarrow> string \<Rightarrow> string" where
  "getEnv en key def = (let v = os_Getenv en key in if v \<noteq> [] then v else def)"

definition getEnvDuration :: "os_env \<Rightarrow> string \<Rightarrow> int \<Rightarrow> int" where
  "getEnvDuration en key def =
     (let v = os_Getenv en key
      in if v \<noteq> [] then (case parse_duration v of Some d \<Rightarrow> d | None \<Rightarrow> def) else def)"

definition demo_settings :: "os_env \<Rightarrow> demo_config" where
  "demo_settings en =
     \<lparr>dc_Port = getEnv en ''PORT'' ''8081'',
      dc_IssuerURL = getEnv en ''ISSUER_URL'' ''http://jwtoken-tester:8080'',
      dc_JWKSURL = getEnv en ''JWKS_URL'' ''http://jwtoken-tester:8080/.well-known/jwks.json'',
      dc_AllowedAud = getEnv en ''ALLOWED_AUD'' ''demo-service'',
      dc_RefreshEvery = getEnvDuration en ''JWKS_REFRESH'' (5 * Minute)\<rparr>"

section \<open>The libraries\<close>

text \<open>The types of signing methods the service tells apart.\<close>

datatype method_family = MethodRSA | MethodECDSA | MethodEd25519 | MethodOther

text \<open>
  One HTTP exchange gives an error or a status with what reading the body gives. \<open>jwt.Parse\<close>
  calls the key function at most once: \<open>sv_Token\<close> is the token it is called with, if parsing gets
  that far, and \<open>sv_Parse\<close> goes on from what the key function returned, with the accepted methods,
  the issuer and the audience; its result is \<open>token.Valid\<close> and the claims.
\<close>

record 'j svc_libs =
  sv_Fetch :: "string \<Rightarrow> gerr + (int \<times> (gerr + string))"
  sv_ParseSet :: "string \<Rightarrow> gerr + 'j list"
  sv_jwk :: "'j jwk_reader"
  sv_Token :: "string \<Rightarrow> (method_family \<times> gomap) option"
  sv_Parse :: "string list \<Rightarrow> string \<Rightarrow> string \<Rightarrow> string \<Rightarrow> (gerr + public_key) option \<Rightarrow> gerr + (bool \<times> gomap)"
  sv_quote :: "string \<Rightarrow> string"

definition ErrSignatureInvalid :: gerr where
  "ErrSignatureInvalid = sentinel ''jwt.ErrSignatureInvalid'' ''signature is invalid''"

section \<open>The cache of keys\<close>

record keyCache =
  kc_keys :: "(string \<times> public_key) list"
  kc_fetched :: gotime
  kc_jwksURL :: string
  kc_refresh :: int

definition newKeyCache :: "string \<Rightarrow> int \<Rightarrow> keyCache" where
  "newKeyCache jwksURL refresh = \<lparr>kc_keys = [], kc_fetched = zero_time, kc_jwksURL = jwksURL, kc_refresh = refresh\<rparr>"

text \<open>The section under the read lock: a key that is there and fresh.\<close>

definition cache_read :: "gotime \<Rightarrow> keyCache \<Rightarrow> string \<Rightarrow> public_key option" where
  "cache_read now c kid =
     (case map_of (kc_keys c) kid of
        None \<Rightarrow> None
      | Some key \<Rightarrow> if time_Sub now (kc_fetched c) < kc_refresh c then Some key else None)"

text \<open>The keys of a set; a key without an id is stored under the empty one.\<close>

definition exported_key :: "'j jwk_reader \<Rightarrow> 'j \<Rightarrow> (string \<times> public_key) option" where
  "exported_key jr key =
     (let keyID = (case jr_KeyID jr key of None \<Rightarrow> [] | Some s \<Rightarrow> s)
      in case jr_PublicKey jr key of
           Inl _ \<Rightarrow> None
         | Inr pubKey \<Rightarrow> (case jr_Export jr pubKey of Inl _ \<Rightarrow> None | Inr rawKey \<Rightarrow> Some (keyID, rawKey)))"

definition collect_keys :: "'j jwk_reader \<Rightarrow> 'j list \<Rightarrow> (string \<times> public_key) list" where
  "collect_keys jr js = fold (\<lambda>(kid, key) m. map_put kid key m) (List.map_filter (exported_key jr) js) []"

definition fetch_keys :: "'j svc_libs \<Rightarrow> string \<Rightarrow> gerr + (string \<times> public_key) list" where
  "fetch_keys lb url =
     (case sv_Fetch lb url of
        Inl e \<Rightarrow> Inl e
      | Inr (status, body) \<Rightarrow>
          if status \<noteq> 200 then Inl ErrSignatureInvalid
          else case body of
            Inl e \<Rightarrow> Inl e
          | Inr raw \<Rightarrow> (case sv_ParseSet lb raw of Inl e \<Rightarrow> Inl e | Inr js \<Rightarrow> Inr (collect_keys (sv_jwk lb) js)))"

text \<open>The section under the write lock.\<close>

definition cache_store :: "gotime \<Rightarrow> (string \<times> public_key) list \<Rightarrow> keyCache \<Rightarrow> keyCache" where
  "cache_store now newKeys c = c\<lparr>kc_keys := newKeys, kc_fetched := now\<rparr>"

text \<open>\<open>now\<close> is the reading of the clock when the keys are stored.\<close>

definition refreshAndGet :: "'j svc_libs \<Rightarrow> gotime \<Rightarrow> keyCache \<Rightarrow> string \<Rightarrow> keyCache \<times> (gerr + public_key)" where
  "refreshAndGet lb now c kid =
     (case fetch_keys lb (kc_jwksURL c) of
        Inl e \<Rightarrow> (c, Inl e)
      | Inr newKeys \<Rightarrow>
          (cache_store now newKeys c,
           case map_of newKeys kid of None \<Rightarrow> Inl ErrSignatureInvalid | Some key \<Rightarrow> Inr key))"

text \<open>The clock is read for the age of the cache, and again when the keys are stored.\<close>

definition getKey :: "'j svc_libs \<Rightarrow> gotime \<times> gotime \<Rightarrow> keyCache \<Rightarrow> string \<Rightarrow> keyCache \<times> (gerr + public_key)" where
  "getKey lb clocks c kid =
     (case cache_read (fst clocks) c kid of
        Some key \<Rightarrow> (c, Inr key)
      | None \<Rightarrow> refreshAndGet lb (snd clocks) c kid)"

section \<open>The handlers\<close>

text \<open>\<open>strings.SplitN(s, " ", 2)\<close> with two parts, or \<open>None\<close>.\<close>

definition split_space :: "string \<Rightarrow> (string \<times> string) option" where
  "split_space s =
     (let front_part = takeWhile (\<lambda>ch. ch \<noteq> CHR '' '') s
      in if length front_part = length s then None else Some (front_part, drop (Suc (length front_part)) s))"

text \<open>The key function given to the library.\<close>

definition key_func :: "'j svc_libs \<Rightarrow> gotime \<times> gotime \<Rightarrow> keyCache \<Rightarrow> method_family \<times> gomap \<Rightarrow> keyCache \<times> (gerr + public_key)" where
  "key_func lb clocks c tok =
     (case tok of (fam, jose) \<Rightarrow>
        if fam \<noteq> MethodRSA \<and> fam \<noteq> MethodECDSA \<and> fam \<noteq> MethodEd25519 then (c, Inl ErrSignatureInvalid)
        else case map_of jose ''kid'' of
          Some (VStr kid) \<Rightarrow> getKey lb clocks c kid
        | _ \<Rightarrow> (c, Inl ErrSignatureInvalid))"

definition jwt_Parse ::
    "'j svc_libs \<Rightarrow> demo_config \<Rightarrow> gotime \<times> gotime \<Rightarrow> keyCache \<Rightarrow> string \<Rightarrow> keyCache \<times> (gerr + (bool \<times> gomap))" where
  "jwt_Parse lb cfg clocks c tokenString =
     (let parse = sv_Parse lb [''RS256'', ''ES256'', ''EdDSA''] (dc_IssuerURL cfg) (dc_AllowedAud cfg) tokenString
      in case sv_Token lb tokenString of
           None \<Rightarrow> (c, parse None)
         | Some tok \<Rightarrow> (let (c', key) = key_func lb clocks c tok in (c', parse (Some key))))"

definition protected ::
    "'j svc_libs \<Rightarrow> demo_config \<Rightarrow> gotime \<times> gotime \<Rightarrow> http_request \<Rightarrow> keyCache \<Rightarrow> keyCache \<times> http_response" where
  "protected lb cfg clocks r c =
     (if r_Method r \<noteq> ''GET'' then (c, http_Error [] ''Method not allowed'' 405)
      else if header_Get r ''Authorization'' = [] then (c, http_Error [] ''Missing Authorization header'' 401)
      else case split_space (header_Get r ''Authorization'') of
        None \<Rightarrow> (c, http_Error [] ''Invalid Authorization format'' 401)
      | Some (scheme, tokenString) \<Rightarrow>
          if map lower_char scheme \<noteq> ''bearer'' then (c, http_Error [] ''Invalid Authorization format'' 401)
          else case jwt_Parse lb cfg clocks c tokenString of
            (c', Inl e) \<Rightarrow> (c', http_Error [] (''Invalid token: '' @ err_Error (sv_quote lb) e) 401)
          | (c', Inr (valid, claims)) \<Rightarrow>
              (c', if \<not> valid then http_Error [] ''Invalid token'' 401
                   else writeJSON [] 200 (VMap [(''message'', VStr ''Access granted''), (''claims'', VMap claims)])))"

definition healthz :: http_response where
  "healthz = writeJSON [] 200 (VMap [(''status'', VStr ''ok''), (''service'', VStr ''demo-protected-service'')])"

text \<open>The two routes of the mux, for a path without \<open>//\<close>, \<open>.\<close> and \<open>..\<close>, which the mux redirects; any other path is not found.\<close>

definition demo_ServeHTTP ::
    "'j svc_libs \<Rightarrow> demo_config \<Rightarrow> gotime \<times> gotime \<Rightarrow> http_request \<Rightarrow> keyCache \<Rightarrow> keyCache \<times> http_response" where
  "demo_ServeHTTP lb cfg clocks r c =
     (if r_Path r = ''/healthz'' then (c, healthz)
      else if r_Path r = ''/protected'' then protected lb cfg clocks r c
      else (c, http_Error [] ''404 page not found'' 404))"

section \<open>Runs of the service\<close>

text \<open>
  The states of the cache while requests run at the same time: the only writes are the sections in
  which a request stores the keys it fetched. The history lists what was stored, the latest first.
\<close>

inductive cache_run :: "string \<Rightarrow> int \<Rightarrow> (gotime \<times> (string \<times> public_key) list) list \<Rightarrow> keyCache \<Rightarrow> bool" for url refresh where
  new: "cache_run url refresh [] (newKeyCache url refresh)"
| store: "cache_run url refresh h c \<Longrightarrow> cache_run url refresh ((now, keys) # h) (cache_store now keys c)"

section \<open>The process\<close>

text \<open>
  Two goroutines: \<open>main\<close>, which serves until \<open>ListenAndServe\<close> returns and then ends the process, and
  the one that waits for a signal and calls \<open>Shutdown\<close>. As soon as \<open>Shutdown\<close> is called,
  \<open>ListenAndServe\<close> returns \<open>ErrServerClosed\<close>, and \<open>main\<close> does not wait for \<open>Shutdown\<close>. The state has the
  requests that were accepted and not yet answered.
\<close>

datatype demo_stage = DemoServing | DemoShutdown | DemoExited int

record demo_proc =
  dp_open :: nat
  dp_stage :: demo_stage

inductive demo_step :: "demo_proc \<Rightarrow> demo_proc \<Rightarrow> bool" where
  accepted: "dp_stage p = DemoServing \<Longrightarrow> demo_step p (p\<lparr>dp_open := Suc (dp_open p)\<rparr>)"
| answered: "\<forall>code. dp_stage p \<noteq> DemoExited code \<Longrightarrow> dp_open p = Suc n \<Longrightarrow> demo_step p (p\<lparr>dp_open := n\<rparr>)"
| signalled: "dp_stage p = DemoServing \<Longrightarrow> demo_step p (p\<lparr>dp_stage := DemoShutdown\<rparr>)"
| returned: "dp_stage p = DemoShutdown \<Longrightarrow> demo_step p (p\<lparr>dp_stage := DemoExited 0\<rparr>)"
| failed: "dp_stage p = DemoServing \<Longrightarrow> demo_step p (p\<lparr>dp_stage := DemoExited 1\<rparr>)"

end
