(* ===== verification/DemoServiceProps.thy ===== *)
theory DemoServiceProps
  imports DemoService Interop
begin

text \<open>
  The correctness of the demonstration service: access is only granted to tokens that verify with
  a key of a key set that was fetched within the refresh interval, however requests interleave,
  and what a fetch finds is what the ring of the issuer finds.
\<close>

section \<open>Fresh keys\<close>

text \<open>
  What the service relies on of the JWT library: parsing succeeds only when the key function
  returned a key and the token verifies with it, and then the token counts as valid.
\<close>

definition parse_laws :: "(string \<Rightarrow> public_key \<Rightarrow> bool) \<Rightarrow> 'j svc_libs \<Rightarrow> bool" where
  "parse_laws verifies lb =
     (\<forall>ms iss aud s key valid claims. sv_Parse lb ms iss aud s key = Inr (valid, claims) \<longrightarrow>
        valid \<and> (\<exists>k. key = Some (Inr k) \<and> verifies s k))"

inductive_cases cache_runE: "cache_run url refresh h c"

lemma cache_run_state:
  assumes "cache_run url refresh h c"
  shows "kc_jwksURL c = url \<and> kc_refresh c = refresh \<and>
     (case h of [] \<Rightarrow> kc_keys c = [] \<and> kc_fetched c = zero_time | (t, keys) # _ \<Rightarrow> kc_keys c = keys \<and> kc_fetched c = t)"
  using assms by (induction rule: cache_run.induct) (simp_all add: newKeyCache_def cache_store_def)

text \<open>A key that is fresh in a history: in the latest set, which is young enough or was just fetched.\<close>

definition fresh_key ::
    "gotime \<times> gotime \<Rightarrow> int \<Rightarrow> (gotime \<times> (string \<times> public_key) list) list \<Rightarrow> string \<Rightarrow> public_key \<Rightarrow> bool" where
  "fresh_key clocks refresh h kid key =
     (case h of
        [] \<Rightarrow> False
      | (t, keys) # _ \<Rightarrow> map_of keys kid = Some key \<and> (time_Sub (fst clocks) t < refresh \<or> t = snd clocks))"

text \<open>A lookup leaves the cache alone or stores what it fetched.\<close>

definition extends ::
    "'j svc_libs \<Rightarrow> gotime \<Rightarrow> string \<Rightarrow> (gotime \<times> (string \<times> public_key) list) list \<Rightarrow> (gotime \<times> (string \<times> public_key) list) list \<Rightarrow> bool" where
  "extends lb now url h h' = (h' = h \<or> (\<exists>keys. fetch_keys lb url = Inr keys \<and> h' = (now, keys) # h))"

lemma getKey_run:
  assumes run: "cache_run url refresh h c" and get: "getKey lb clocks c kid = (c', r)"
  obtains h' where "cache_run url refresh h' c'" "extends lb (snd clocks) url h h'" "\<And>key. r = Inr key \<Longrightarrow> fresh_key clocks refresh h' kid key"
proof (cases "cache_read (fst clocks) c kid")
  case (Some key)
  then have "map_of (kc_keys c) kid = Some key" "time_Sub (fst clocks) (kc_fetched c) < kc_refresh c"
    by (auto simp: cache_read_def split: option.splits if_splits)
  then have "fresh_key clocks refresh h kid key"
    using cache_run_state [OF run] by (auto simp: fresh_key_def split: list.splits)
  then show ?thesis using that [of h] run get Some by (auto simp: getKey_def extends_def)
next
  case None
  show ?thesis
  proof (cases "fetch_keys lb url")
    case (Inl e)
    then show ?thesis using that [of h] run get None cache_run_state [OF run] by (auto simp: getKey_def refreshAndGet_def extends_def)
  next
    case (Inr keys)
    then have "c' = cache_store (snd clocks) keys c" "\<And>key. r = Inr key \<Longrightarrow> map_of keys kid = Some key"
      using get None cache_run_state [OF run] by (auto simp: getKey_def refreshAndGet_def split: option.splits)
    then show ?thesis
      using that [of "(snd clocks, keys) # h"] cache_run.store [OF run] Inr by (auto simp: extends_def fresh_key_def)
  qed
qed

text \<open>The token that is checked and the key function's answer for it.\<close>

lemma jwt_Parse_run:
  assumes run: "cache_run url refresh h c" and laws: "parse_laws verifies lb" and p: "jwt_Parse lb cfg clocks c tok = (c', r)"
  obtains h' where "cache_run url refresh h' c'" "extends lb (snd clocks) url h h'"
    "\<And>valid claims. r = Inr (valid, claims) \<Longrightarrow>
       valid \<and> (\<exists>fam jose kid key. sv_Token lb tok = Some (fam, jose) \<and> fam \<noteq> MethodOther \<and>
         map_of jose ''kid'' = Some (VStr kid) \<and> fresh_key clocks refresh h' kid key \<and> verifies tok key)"
proof (cases "sv_Token lb tok")
  case None
  then have r: "c' = c" "r = sv_Parse lb [''RS256'', ''ES256'', ''EdDSA''] (dc_IssuerURL cfg) (dc_AllowedAud cfg) tok None"
    using p by (simp_all add: jwt_Parse_def)
  have "r \<noteq> Inr (valid, claims)" for valid claims
    using laws [unfolded parse_laws_def, rule_format, of _ _ _ tok None valid claims] unfolding r(2) by blast
  then show ?thesis using that [of h] run r(1) by (simp add: extends_def)
next
  case (Some mh)
  obtain fam jose where mh: "mh = (fam, jose)" by (cases mh)
  obtain c1 key where kf: "key_func lb clocks c mh = (c1, key)" by fastforce
  have r: "c' = c1" "r = sv_Parse lb [''RS256'', ''ES256'', ''EdDSA''] (dc_IssuerURL cfg) (dc_AllowedAud cfg) tok (Some key)"
    using p by (simp_all add: jwt_Parse_def Some kf)
  have ok: "valid \<and> (\<exists>k. key = Inr k \<and> verifies tok k)" if "r = Inr (valid, claims)" for valid claims
    using laws that unfolding parse_laws_def r(2) by blast
  show ?thesis
  proof (cases "fam \<noteq> MethodOther \<and> (\<exists>kid. map_of jose ''kid'' = Some (VStr kid))")
    case False
    then have "c1 = c" "isl key"
      using kf by (auto simp: key_func_def mh split: if_splits option.splits goval.splits method_family.splits)
    then show ?thesis using that [of h] run ok r(1) by (fastforce simp: extends_def)
  next
    case True
    then obtain kid where kid: "map_of jose ''kid'' = Some (VStr kid)" by blast
    then have "getKey lb clocks c kid = (c1, key)" using kf True by (cases fam) (simp_all add: key_func_def mh)
    from getKey_run [OF run this] obtain h' where h': "cache_run url refresh h' c1" "extends lb (snd clocks) url h h'"
      "\<And>k. key = Inr k \<Longrightarrow> fresh_key clocks refresh h' kid k" by blast
    show ?thesis
    proof (rule that [of h'])
      show "cache_run url refresh h' c'" "extends lb (snd clocks) url h h'" using h'(1,2) r(1) by simp_all
      fix valid claims
      assume "r = Inr (valid, claims)"
      then obtain k where "valid" "key = Inr k" "verifies tok k" using ok by blast
      then show "valid \<and> (\<exists>fam jose kid key. sv_Token lb tok = Some (fam, jose) \<and> fam \<noteq> MethodOther \<and>
         map_of jose ''kid'' = Some (VStr kid) \<and> fresh_key clocks refresh h' kid key \<and> verifies tok key)"
        using Some mh True kid h'(3) by (intro conjI exI [of _ fam] exI [of _ jose] exI [of _ kid] exI [of _ k]) simp_all
    qed
  qed
qed

lemma split_space_Nil [simp]: "split_space [] = None"
  by (simp add: split_space_def)

lemma split_space_Cons [simp]:
  "split_space (ch # s) =
     (if ch = CHR '' '' then Some ([], s) else map_option (\<lambda>(scheme, tok). (ch # scheme, tok)) (split_space s))"
  by (simp add: split_space_def Let_def)

lemma split_space_Some: "split_space s = Some (scheme, tok) \<Longrightarrow> s = scheme @ '' '' @ tok \<and> CHR '' '' \<notin> set scheme"
  by (induction s arbitrary: scheme) (auto split: if_splits)

text \<open>
  C5: the service answers a request for the protected resource with 200, 401 or 405 and, whatever
  was stored before, changes the cache at most by the keys it fetches itself. It grants access only
  for a bearer token, signed with RSA, ECDSA or Ed25519, that verifies with the key its header
  names in the latest key set, fetched less than the refresh interval ago or for this request.
\<close>

theorem protected_fresh_key:
  assumes laws: "parse_laws verifies lb" and run: "cache_run (dc_JWKSURL cfg) (dc_RefreshEvery cfg) h c"
    and served: "protected lb cfg clocks req c = (c', resp)"
  shows "h_Status resp \<in> {200, 401, 405} \<and>
     (\<exists>h'. cache_run (dc_JWKSURL cfg) (dc_RefreshEvery cfg) h' c' \<and> extends lb (snd clocks) (dc_JWKSURL cfg) h h' \<and>
        (h_Status resp = 200 \<longrightarrow>
           r_Method req = ''GET'' \<and>
           (\<exists>scheme tok fam jose kid key. header_Get req ''Authorization'' = scheme @ '' '' @ tok \<and>
              map lower_char scheme = ''bearer'' \<and> sv_Token lb tok = Some (fam, jose) \<and> fam \<noteq> MethodOther \<and>
              map_of jose ''kid'' = Some (VStr kid) \<and> fresh_key clocks (dc_RefreshEvery cfg) h' kid key \<and> verifies tok key)))"
proof (cases "r_Method req = ''GET'' \<and> header_Get req ''Authorization'' \<noteq> [] \<and>
    (\<exists>scheme tok. split_space (header_Get req ''Authorization'') = Some (scheme, tok) \<and> map lower_char scheme = ''bearer'')")
  case False
  then have "c' = c" "h_Status resp \<in> {401, 405}"
    using served by (auto simp: protected_def http_Error_def split: if_splits option.splits)
  then show ?thesis using run by (auto simp: extends_def)
next
  case True
  then obtain scheme tok where hd: "split_space (header_Get req ''Authorization'') = Some (scheme, tok)"
    and low: "map lower_char scheme = ''bearer''" by (elim conjE exE)
  obtain c1 r where p: "jwt_Parse lb cfg clocks c tok = (c1, r)" by fastforce
  obtain h' where h': "cache_run (dc_JWKSURL cfg) (dc_RefreshEvery cfg) h' c1" "extends lb (snd clocks) (dc_JWKSURL cfg) h h'"
    and ok: "\<And>valid claims. r = Inr (valid, claims) \<Longrightarrow>
       valid \<and> (\<exists>fam jose kid key. sv_Token lb tok = Some (fam, jose) \<and> fam \<noteq> MethodOther \<and>
         map_of jose ''kid'' = Some (VStr kid) \<and> fresh_key clocks (dc_RefreshEvery cfg) h' kid key \<and> verifies tok key)"
    using jwt_Parse_run [OF run laws p] by blast
  show ?thesis
  proof (cases r)
    case (Inl e)
    then have "c' = c1" "h_Status resp = 401"
      using served True hd low p by (auto simp: protected_def http_Error_def)
    then show ?thesis using h' by auto
  next
    case (Inr vc)
    then obtain valid claims where vc: "r = Inr (valid, claims)" by (cases vc) simp
    then have "c' = c1" "h_Status resp = 200"
      using served True hd low p ok [OF vc] by (auto simp: protected_def writeJSON_def)
    moreover have "header_Get req ''Authorization'' = scheme @ '' '' @ tok" using split_space_Some [OF hd] by simp
    ultimately show ?thesis
      using h' ok [OF vc] True low by (intro conjI exI [of _ h'] impI exI [of _ scheme] exI [of _ tok]) (simp_all del: map_eq_Cons_conv)
  qed
qed

section \<open>The cache and the ring\<close>

text \<open>The service reads the key set with the same library as the command line.\<close>

definition set_parse_law :: "('j list \<Rightarrow> gerr + string) \<Rightarrow> 'j svc_libs \<Rightarrow> bool" where
  "set_parse_law marshal lb = (\<forall>js raw. marshal js = Inr raw \<longrightarrow> sv_ParseSet lb raw = Inr js)"

lemma collect_keys_used:
  assumes "\<And>j. j \<in> set js \<Longrightarrow> exported_key jr j = map_option (\<lambda>(kid, key, _). (kid, key)) (usable_key jr (Some j))"
  shows "collect_keys jr js = fold (\<lambda>(kid, key, _). map_put kid key) (List.map_filter (usable_key jr) (map Some js)) []"
proof -
  have "fold (\<lambda>(kid, key). map_put kid key) (List.map_filter (exported_key jr) js) m =
      fold (\<lambda>(kid, key, _). map_put kid key) (List.map_filter (usable_key jr) (map Some js)) m" for m
    using assms by (induction js arbitrary: m) (auto simp: map_filter_simps split: option.splits)
  then show ?thesis by (simp add: collect_keys_def)
qed

lemma collect_keys_published:
  assumes "\<And>j. j \<in> set js \<Longrightarrow> jr_AssignKeyID jr j = Inr j \<and> usable_key jr (Some j) \<noteq> None"
    and "jr_Parse jr raw = Inr (map Some js)" and "parseJWKS jr raw = Inr src"
  shows "collect_keys jr js = js_keys src"
proof -
  have "exported_key jr j = map_option (\<lambda>(kid, key, _). (kid, key)) (usable_key jr (Some j))" if "j \<in> set js" for j
    using assms(1) [OF that] by (auto simp: exported_key_def usable_key_def split: option.splits sum.splits if_splits)
  from collect_keys_used [OF this] show ?thesis
    using assms(2,3) by (auto simp: parseJWKS_def Let_def split: if_splits)
qed

text \<open>What the ring answers, as the service sees it.\<close>

definition ring_key :: "'j jwx \<Rightarrow> 'j view \<Rightarrow> string \<Rightarrow> public_key option" where
  "ring_key lib v kid = (case view_Lookup lib v kid of Inl _ \<Rightarrow> None | Inr (key, _) \<Rightarrow> Some key)"

lemma fetched_ring:
  assumes laws: "jwk_laws lib" "thumbprint_law lib" "jwk_reader_laws lib marshal (sv_jwk lb)" "set_parse_law marshal lb"
    and view: "view_ok lib v" and set: "view_JWKS lib v = Inr jwks" "marshal jwks = Inr raw"
    and net: "sv_Fetch lb url = Inr (200, Inr raw)"
  obtains keys where "fetch_keys lb url = Inr keys" "map_of keys = ring_key lib v"
proof -
  obtain r ao ro where v: "v = (r, ao, ro)" by (cases v)
  have ok: "ring_reachable lib r" "kids_distinct lib r" "covers (kr_active r) ao" "covers (kr_retired r) ro"
    using view by (simp_all add: view_ok_def v)
  note inv = reachable_inv [OF ok(1)]
  have jwks: "jwks = map k_PubJWK (sortedKeysUnlocked lib ao ro r)"
    using set(1) JWKS_eq [OF laws(1) inv ok(2-4)] by (simp add: view_JWKS_def v)
  have pub: "set (sortedKeysUnlocked lib ao ro r) = published r" using sorted_keys [OF _ ok(3,4,2)] inv by (simp add: ring_ok_def)
  have use: "jr_AssignKeyID (sv_jwk lb) j = Inr j \<and> usable_key (sv_jwk lb) (Some j) \<noteq> None" if j: "j \<in> set jwks" for j
  proof -
    obtain k where k: "j = k_PubJWK k" "k \<in> published r" using j pub by (auto simp: jwks)
    have "jwk_KeyID lib j = Some (Kid lib k)" using published_KeyID [OF laws(1) _ k(2)] inv k(1) by simp
    then show ?thesis using jwk_reader_lawsD(3) [OF laws(3), of j] published_usable [OF laws(1-3) ok(1) k(2)] k(1) by simp
  qed
  obtain src where src: "parseJWKS (sv_jwk lb) raw = Inr src"
    and find: "\<forall>kid. case view_Lookup lib v kid of
        Inr (key, st) \<Rightarrow> jwks_Lookup src kid = Inr (key, KeyStatusActive) | Inl e \<Rightarrow> isl (jwks_Lookup src kid)"
    using published_set_read [OF laws(1-3) view set] by blast
  have "map_of (js_keys src) kid = ring_key lib v kid" for kid
    using spec [OF find, of kid] by (auto simp: ring_key_def jwks_Lookup_def split: sum.splits option.splits)
  moreover have "fetch_keys lb url = Inr (js_keys src)"
    using net laws(4) set(2) collect_keys_published [OF use jwk_reader_lawsD(1) [OF laws(3) set(2)] src]
    by (simp add: fetch_keys_def set_parse_law_def)
  ultimately show thesis using that by blast
qed

text \<open>
  C39: a service that fetches the key set the issuer publishes answers as the ring of the issuer
  does: the fetch itself finds the key the ring finds, active or retired, and no other; until the
  refresh interval is over the cache finds the same keys without another fetch, and only ids the
  ring did not know cause one.
\<close>

theorem cache_agrees_with_ring:
  assumes laws: "jwk_laws lib" "thumbprint_law lib" "jwk_reader_laws lib marshal (sv_jwk lb)" "set_parse_law marshal lb"
    and view: "view_ok lib v" and set: "view_JWKS lib v = Inr jwks" "marshal jwks = Inr raw"
    and net: "sv_Fetch lb (kc_jwksURL c) = Inr (200, Inr raw)" and ref: "refreshAndGet lb t c kid = (c', res)"
    and fresh: "time_Sub (fst clocks) t < kc_refresh c"
  shows "res = (case ring_key lib v kid of None \<Rightarrow> Inl ErrSignatureInvalid | Some key \<Rightarrow> Inr key)
     \<and> getKey lb clocks c' i = (case ring_key lib v i of None \<Rightarrow> refreshAndGet lb (snd clocks) c' i | Some key \<Rightarrow> (c', Inr key))"
proof -
  obtain keys where keys: "fetch_keys lb (kc_jwksURL c) = Inr keys" "map_of keys = ring_key lib v"
    by (rule fetched_ring [OF laws view set net])
  then have "c' = cache_store t keys c" "res = (case ring_key lib v kid of None \<Rightarrow> Inl ErrSignatureInvalid | Some key \<Rightarrow> Inr key)"
    using ref by (auto simp: refreshAndGet_def)
  moreover from this(1) have "cache_read (fst clocks) c' i = ring_key lib v i"
    using fresh keys(2) by (simp add: cache_read_def cache_store_def split: option.splits)
  ultimately show ?thesis by (simp add: getKey_def split: option.splits)
qed

section \<open>Minted by the server, accepted by the service\<close>

text \<open>
  The service and the verifier use the same JWT library: \<open>jwt.Parse\<close> calls the key function with
  the header that parsing without verification finds, and succeeds for a token with an accepted
  algorithm, signature, times, issuer and audience.
\<close>

definition jwt_parse_law :: "jwt5 \<Rightarrow> gotime \<Rightarrow> 'j svc_libs \<Rightarrow> bool" where
  "jwt_parse_law j5 now lb =
     (\<forall>s h cl alg. j5_ParseUnverified j5 s = (Some h, cl, None) \<longrightarrow> map_of h ''alg'' = Some (VStr alg) \<longrightarrow>
        alg \<in> {''RS256'', ''ES256'', ''EdDSA''} \<longrightarrow>
        (\<exists>fam. fam \<noteq> MethodOther \<and> sv_Token lb s = Some (fam, h)) \<and>
        (\<forall>iss aud key auds. j5_ParseWithClaims j5 [alg] s key = None \<longrightarrow> j5_Validate j5 0 now cl = None \<longrightarrow>
           j5_GetIssuer j5 cl = Inr iss \<longrightarrow> j5_GetAudience j5 cl = Inr auds \<longrightarrow> aud \<in> set auds \<longrightarrow>
           sv_Parse lb [''RS256'', ''ES256'', ''EdDSA''] iss aud s (Some (Inr key)) = Inr (True, cl)))"

lemma getKey_ring:
  assumes "fetch_keys lb (kc_jwksURL c) = Inr keys" "map_of keys = ring_key lib v"
    and "\<forall>kid key. cache_read (fst clocks) c kid = Some key \<longrightarrow> ring_key lib v kid = Some key" and "ring_key lib v kid = Some key"
  shows "snd (getKey lb clocks c kid) = Inr key"
  using assms by (auto simp: getKey_def refreshAndGet_def split: option.splits)

lemma split_space_bearer: "split_space (''Bearer '' @ tok) = Some (''Bearer'', tok)"
  by simp


section \<open>Stopping\<close>

text \<open>
  The shutdown is not graceful: the process can exit with code 0 while a request it accepted is
  still open.
\<close>

lemma demo_exit_drops_requests:
  "demo_step\<^sup>*\<^sup>* \<lparr>dp_open = 0, dp_stage = DemoServing\<rparr> \<lparr>dp_open = 1, dp_stage = DemoExited 0\<rparr>"
proof -
  have "demo_step \<lparr>dp_open = 0, dp_stage = DemoServing\<rparr> \<lparr>dp_open = 1, dp_stage = DemoServing\<rparr>"
    using demo_step.accepted [of "\<lparr>dp_open = 0, dp_stage = DemoServing\<rparr>"] by simp
  moreover have "demo_step \<lparr>dp_open = 1, dp_stage = DemoServing\<rparr> \<lparr>dp_open = 1, dp_stage = DemoShutdown\<rparr>"
    using demo_step.signalled [of "\<lparr>dp_open = 1, dp_stage = DemoServing\<rparr>"] by simp
  moreover have "demo_step \<lparr>dp_open = 1, dp_stage = DemoShutdown\<rparr> \<lparr>dp_open = 1, dp_stage = DemoExited 0\<rparr>"
    using demo_step.returned [of "\<lparr>dp_open = 1, dp_stage = DemoShutdown\<rparr>"] by simp
  ultimately show ?thesis by (meson converse_rtranclp_into_rtranclp rtranclp.rtrancl_refl)
qed

section \<open>An instance\<close>

text \<open>
  The service of the instance knows one token, signed with the Ed25519 key the demonstration ring
  signs with.
\<close>

definition demo_svc :: "demo_jwk svc_libs" where
  "demo_svc =
     \<lparr>sv_Fetch = (\<lambda>url. Inr (200, Inr ''keys'')), sv_ParseSet = (\<lambda>raw. Inr demo_jwks), sv_jwk = demo_set_reader,
      sv_Token = (\<lambda>s. if s = ''tok'' then Some (MethodEd25519, [(''kid'', VStr (Kid demo_jwx (projr (view_Signer demo_view AlgEdDSA))))]) else None),
      sv_Parse = (\<lambda>ms iss aud s key. if s = ''tok'' \<and> key = Some (Inr (k_Public (projr (view_Signer demo_view AlgEdDSA))))
        then Inr (True, demo_claims) else Inl ErrSignatureInvalid),
      sv_quote = demo_quote\<rparr>"

definition demo_svc_request :: http_request where
  "demo_svc_request = (demo_get ''/protected'')\<lparr>r_Header := [(''Authorization'', ''Bearer tok'')]\<rparr>"

definition demo_svc_config :: demo_config where
  "demo_svc_config = demo_settings (demo_os\<lparr>os_Getenv := (\<lambda>n. [])\<rparr>)"

lemma demo_svc_config_simps [simp]: "dc_RefreshEvery demo_svc_config = 5 * Minute"
  by (simp add: demo_svc_config_def demo_settings_def getEnvDuration_def)

lemma demo_svc_laws: "set_parse_law demo_marshal demo_svc" "sv_jwk demo_svc = demo_set_reader"
  "parse_laws (\<lambda>s k. s = ''tok'' \<and> k = k_Public (projr (view_Signer demo_view AlgEdDSA))) demo_svc"
  by (auto simp: set_parse_law_def parse_laws_def demo_svc_def demo_marshal_def split: if_splits)

lemma demo_ring_key:
  "ring_key demo_jwx demo_view (Kid demo_jwx (projr (view_Signer demo_view AlgEdDSA))) =
     Some (k_Public (projr (view_Signer demo_view AlgEdDSA)))"
proof -
  obtain k where "view_Signer demo_view AlgEdDSA = Inr k" using kr.signer_enabled [OF demo_view_ok] demo_view_algs by blast
  then show ?thesis using kr.lookup_signer [OF demo_view_ok] by (simp add: ring_key_def)
qed

lemma demo_svc_refresh:
  "\<exists>c'. refreshAndGet demo_svc t (newKeyCache url d) (Kid demo_jwx (projr (view_Signer demo_view AlgEdDSA))) =
     (c', Inr (k_Public (projr (view_Signer demo_view AlgEdDSA))))"
proof -
  have "sv_Fetch demo_svc url = Inr (200, Inr ''keys'')" by (simp add: demo_svc_def)
  from fetched_ring [OF demo_jwx_laws demo_thumbprint_law _ demo_svc_laws(1) demo_view_ok demo_view_JWKS this]
  obtain keys where "fetch_keys demo_svc url = Inr keys" "map_of keys = ring_key demo_jwx demo_view"
    using demo_reader_laws demo_svc_laws(2) by metis
  then show ?thesis using demo_ring_key by (simp add: refreshAndGet_def newKeyCache_def)
qed

theorem cache_agrees_with_ring_witness:
  "\<exists>c'. refreshAndGet demo_svc (time_Unix 1000) (newKeyCache ''u'' (5 * Minute)) (Kid demo_jwx (projr (view_Signer demo_view AlgEdDSA))) =
       (c', Inr (k_Public (projr (view_Signer demo_view AlgEdDSA))))
     \<and> getKey demo_svc (time_Unix 1299, time_Unix 1299) c' (Kid demo_jwx (projr (view_Signer demo_view AlgEdDSA))) =
       (c', Inr (k_Public (projr (view_Signer demo_view AlgEdDSA))))"
proof -
  let ?kid = "Kid demo_jwx (projr (view_Signer demo_view AlgEdDSA))"
  obtain c' where c': "refreshAndGet demo_svc (time_Unix 1000) (newKeyCache ''u'' (5 * Minute)) ?kid =
       (c', Inr (k_Public (projr (view_Signer demo_view AlgEdDSA))))" using demo_svc_refresh by blast
  have "sv_Fetch demo_svc (kc_jwksURL (newKeyCache ''u'' (5 * Minute))) = Inr (200, Inr ''keys'')" by (simp add: demo_svc_def)
  moreover have "time_Sub (fst (time_Unix 1299, time_Unix 1299)) (time_Unix 1000) < kc_refresh (newKeyCache ''u'' (5 * Minute))" by code_simp
  ultimately show ?thesis
    using cache_agrees_with_ring [OF demo_jwx_laws demo_thumbprint_law demo_reader_laws [folded demo_svc_laws(2)] demo_svc_laws(1) demo_view_ok
        demo_view_JWKS _ c', of "(time_Unix 1299, time_Unix 1299)" ?kid] c' demo_ring_key by simp
qed

theorem protected_fresh_key_witness:
  "\<exists>c' resp h'. protected demo_svc demo_svc_config (time_Unix 999, time_Unix 1000) demo_svc_request
       (newKeyCache (dc_JWKSURL demo_svc_config) (5 * Minute)) = (c', resp)
     \<and> h_Status resp = 200 \<and> cache_run (dc_JWKSURL demo_svc_config) (5 * Minute) h' c'
     \<and> fresh_key (time_Unix 999, time_Unix 1000) (5 * Minute) h' (Kid demo_jwx (projr (view_Signer demo_view AlgEdDSA)))
         (k_Public (projr (view_Signer demo_view AlgEdDSA)))"
proof -
  let ?k = "projr (view_Signer demo_view AlgEdDSA)" and ?c = "newKeyCache (dc_JWKSURL demo_svc_config) (5 * Minute)"
    and ?clocks = "(time_Unix 999, time_Unix 1000)"
  obtain c' where c': "refreshAndGet demo_svc (time_Unix 1000) ?c (Kid demo_jwx ?k) = (c', Inr (k_Public ?k))" using demo_svc_refresh by blast
  have hdr: "header_Get demo_svc_request ''Authorization'' = ''Bearer tok''" "r_Method demo_svc_request = ''GET''"
    by (simp_all add: demo_svc_request_def header_Get_def demo_get_def)
  have low: "map lower_char ''Bearer'' = ''bearer''" by code_simp
  have tok: "sv_Token demo_svc ''tok'' = Some (MethodEd25519, [(''kid'', VStr (Kid demo_jwx ?k))])"
    "sv_Parse demo_svc ms iss aud ''tok'' (Some (Inr (k_Public ?k))) = Inr (True, demo_claims)" for ms iss aud
    by (simp_all add: demo_svc_def)
  have "getKey demo_svc ?clocks ?c (Kid demo_jwx ?k) = (c', Inr (k_Public ?k))"
    using c' by (simp add: getKey_def cache_read_def newKeyCache_def)
  then have "jwt_Parse demo_svc demo_svc_config ?clocks ?c ''tok'' = (c', Inr (True, demo_claims))"
    by (simp add: jwt_Parse_def tok key_func_def)
  then have served: "protected demo_svc demo_svc_config ?clocks demo_svc_request ?c =
      (c', writeJSON [] 200 (VMap [(''message'', VStr ''Access granted''), (''claims'', VMap demo_claims)]))"
    using low by (simp add: protected_def hdr)
  note fresh = protected_fresh_key [OF demo_svc_laws(3) cache_run.new [of "dc_JWKSURL demo_svc_config" "dc_RefreshEvery demo_svc_config"]
      served [folded demo_svc_config_simps], unfolded demo_svc_config_simps]
  show ?thesis using fresh served by (auto simp: writeJSON_def hdr tok)
qed

text \<open>A service that reads tokens with the library of the verifier, whose tokens name it as their audience.\<close>

definition demo_j5_aud :: jwt5 where
  "demo_j5_aud = demo_j5\<lparr>j5_GetAudience := (\<lambda>_. Inr [''demo-service''])\<rparr>"

definition demo_issuing :: "(gomap, gomap, demo_jwk) libs" where
  "demo_issuing = demo_served\<lparr>lb_j5 := demo_j5_aud\<rparr>"

definition demo_checked :: "string \<Rightarrow> string \<Rightarrow> string \<Rightarrow> gomap \<Rightarrow> gomap \<Rightarrow> public_key \<Rightarrow> bool" where
  "demo_checked iss aud s h cl key =
     (case map_of h ''alg'' of
        Some (VStr alg) \<Rightarrow> j5_ParseWithClaims demo_j5_aud [alg] s key = None \<and> j5_Validate demo_j5_aud 0 (time_Unix 8199) cl = None
          \<and> j5_GetIssuer demo_j5_aud cl = Inr iss \<and> (case j5_GetAudience demo_j5_aud cl of Inl _ \<Rightarrow> False | Inr auds \<Rightarrow> aud \<in> set auds)
      | _ \<Rightarrow> False)"

definition demo_consumer :: "demo_jwk svc_libs" where
  "demo_consumer = demo_svc
     \<lparr>sv_Token := (\<lambda>s. case j5_ParseUnverified demo_j5_aud s of (Some h, _, None) \<Rightarrow> Some (MethodEd25519, h) | _ \<Rightarrow> None),
      sv_Parse := (\<lambda>ms iss aud s key. case (j5_ParseUnverified demo_j5_aud s, key) of
        ((Some h, cl, None), Some (Inr k)) \<Rightarrow> if demo_checked iss aud s h cl k then Inr (True, cl) else Inl ErrSignatureInvalid
      | _ \<Rightarrow> Inl ErrSignatureInvalid)\<rparr>"

lemma demo_parse_law: "jwt_parse_law demo_j5_aud (time_Unix 8199) demo_consumer"
  by (simp add: jwt_parse_law_def demo_consumer_def demo_checked_def)

lemma demo_j5_aud_laws: "jwt5_laws demo_j5_aud" "jws_interop demo_jwx demo_signer demo_j5_aud"
proof -
  have shape: "validateClaimShapes demo_j5_aud cl = validateClaimShapes demo_j5 cl" for cl
    by (simp add: validateClaimShapes_def demo_j5_aud_def demo_j5_def demo_j5_base_def split: sum.split)
  have same: "exp_ok demo_j5_aud = exp_ok demo_j5" "nbf_ok demo_j5_aud = nbf_ok demo_j5" "iat_ok demo_j5_aud = iat_ok demo_j5"
    "j5_Validate demo_j5_aud = j5_Validate demo_j5" "j5_ParseUnverified demo_j5_aud = j5_ParseUnverified demo_j5"
    "j5_ParseWithClaims demo_j5_aud = j5_ParseWithClaims demo_j5"
    by (simp_all add: fun_eq_iff exp_ok_def nbf_ok_def iat_ok_def demo_j5_aud_def)
  show "jwt5_laws demo_j5_aud" using demo_j5_laws unfolding jwt5_laws_def shape same .
  show "jws_interop demo_jwx demo_signer demo_j5_aud"
    using demo_interop by (simp add: jws_interop_def jws_header_law_def jws_claims_law_def jws_signature_law_def shape same)
      (simp add: demo_j5_aud_def)
qed


end
