(* ===== verification/Coverage.thy ===== *)
theory Coverage
  imports GoFlag
begin

text \<open>
  The coverage gate of the build (\<open>cmd/coverage/main.go\<close>): it runs \<open>go tool cover\<close> on a profile,
  takes the percentage of the total line and compares it with a threshold. The tool is an
  argument: an error, or what it printed.
\<close>

text \<open>The comparison of floating-point numbers: NaN is not less than anything, nor is anything less than it.\<close>

fun float_less :: "gofloat \<Rightarrow> gofloat \<Rightarrow> bool" where
  "float_less (Fin a) (Fin b) = (a < b)"
| "float_less (Fin _) PosInf = True"
| "float_less NegInf (Fin _) = True"
| "float_less NegInf PosInf = True"
| "float_less _ _ = False"

definition threshold_flag :: string where
  "threshold_flag = ''--threshold=''"

text \<open>A number that can be read replaces the one before.\<close>

definition read_float :: "os_env \<Rightarrow> string \<Rightarrow> gofloat \<Rightarrow> gofloat" where
  "read_float en val v = (case ParseFloat en val of Inl _ \<Rightarrow> v | Inr v' \<Rightarrow> v')"

fun threshold_loop :: "os_env \<Rightarrow> string list \<Rightarrow> gofloat \<Rightarrow> gofloat" where
  "threshold_loop en [] v = v"
| "threshold_loop en (arg # args) v =
     threshold_loop en args (if has_prefix arg threshold_flag then read_float en (trim_prefix arg threshold_flag) v else v)"

fun percent_loop :: "os_env \<Rightarrow> string list \<Rightarrow> gofloat \<Rightarrow> gofloat" where
  "percent_loop en [] v = v"
| "percent_loop en (p # parts) v =
     percent_loop en parts (if has_suffix p ''%'' then read_float en (trim_suffix p ''%'') v else v)"

fun total_loop :: "os_env \<Rightarrow> string list \<Rightarrow> gofloat" where
  "total_loop en [] = Fin 0"
| "total_loop en (line # lines) =
     (if has_prefix (trim_space line) ''total:'' then percent_loop en (GoText.fields (trim_space line)) (Fin 0)
      else total_loop en lines)"

fun hasThreshold :: "string list \<Rightarrow> bool" where
  "hasThreshold [] = False"
| "hasThreshold (arg # args) = (if has_prefix arg threshold_flag then True else hasThreshold args)"

text \<open>What is printed.\<close>

datatype coverage_line =
    CoverageUsage
  | CoverageToolError gerr string
  | CoverageTotal gofloat
  | CoverageFail gofloat gofloat
  | CoveragePass gofloat gofloat

text \<open>The exit code and the lines printed, for the arguments behind the name of the program.\<close>

definition coverage_main :: "os_env \<Rightarrow> (string \<Rightarrow> gerr option \<times> string) \<Rightarrow> string list \<Rightarrow> int \<times> coverage_line list" where
  "coverage_main en cover args =
     (case args of
        [] \<Rightarrow> (1, [CoverageUsage])
      | profilePath # rest \<Rightarrow>
          (let threshold = threshold_loop en rest (Fin 90)
           in case cover profilePath of
                (Some e, output) \<Rightarrow> (1, [CoverageToolError e output])
              | (None, output) \<Rightarrow>
                  (let totalCoverage = total_loop en (split_on (CHR 0x0A) output)
                   in if hasThreshold rest then
                        (if float_less totalCoverage threshold
                         then (1, [CoverageTotal totalCoverage, CoverageFail totalCoverage threshold])
                         else (0, [CoverageTotal totalCoverage, CoveragePass totalCoverage threshold]))
                      else (0, [CoverageTotal totalCoverage]))))"

section \<open>The gate\<close>

text \<open>What the flags and the report say, without the loops: the last readable number counts.\<close>

definition last_read :: "os_env \<Rightarrow> gofloat \<Rightarrow> string list \<Rightarrow> gofloat" where
  "last_read en d vals = last (d # List.map_filter (\<lambda>val. case ParseFloat en val of Inl _ \<Rightarrow> None | Inr v \<Rightarrow> Some v) vals)"

definition flag_values :: "string list \<Rightarrow> string list" where
  "flag_values args = map (\<lambda>arg. drop (length threshold_flag) arg) (filter (\<lambda>arg. has_prefix arg threshold_flag) args)"

definition percentages :: "string \<Rightarrow> string list" where
  "percentages line = map butlast (filter (\<lambda>p. p \<noteq> [] \<and> last p = CHR ''%'') (GoText.fields line))"

definition report_total :: "os_env \<Rightarrow> string \<Rightarrow> gofloat" where
  "report_total en output =
     (case find (\<lambda>line. has_prefix line ''total:'') (map trim_space (split_on (CHR 0x0A) output)) of
        None \<Rightarrow> Fin 0
      | Some line \<Rightarrow> last_read en (Fin 0) (percentages line))"

lemma last_read_simps [simp]:
  "last_read en d [] = d" "last_read en d (val # vals) = last_read en (read_float en val d) vals"
  by (simp_all add: last_read_def read_float_def map_filter_simps split: sum.splits)

lemma has_suffix_percent: "has_suffix p ''%'' \<longleftrightarrow> p \<noteq> [] \<and> last p = CHR ''%''"
  by (cases p rule: rev_cases) (auto simp: has_suffix_def)

lemma trim_suffix_percent: "has_suffix p ''%'' \<Longrightarrow> trim_suffix p ''%'' = butlast p"
  by (simp add: trim_suffix_def butlast_conv_take)

lemma threshold_loop_eq: "threshold_loop en args v = last_read en v (flag_values args)"
  by (induction args arbitrary: v) (simp_all add: flag_values_def has_prefix_def trim_prefix_def)

lemma percent_loop_eq:
  "percent_loop en parts v = last_read en v (map butlast (filter (\<lambda>p. p \<noteq> [] \<and> last p = CHR ''%'') parts))"
  by (induction parts arbitrary: v) (simp_all add: trim_suffix_percent flip: has_suffix_percent)

lemma total_loop_eq:
  "total_loop en lines =
     (case find (\<lambda>line. has_prefix line ''total:'') (map trim_space lines) of
        None \<Rightarrow> Fin 0 | Some line \<Rightarrow> last_read en (Fin 0) (percentages line))"
  by (induction lines) (simp_all add: percent_loop_eq percentages_def)

lemma hasThreshold_eq: "hasThreshold args \<longleftrightarrow> flag_values args \<noteq> []"
  by (induction args) (simp_all add: flag_values_def)

text \<open>
  C40: the gate lets a build pass, with exit code 0, exactly when it was given a profile the tool can
  read and no threshold, or the percentage of the first total line is not below the threshold. Of
  several numbers the last one that can be read counts; without one the total is 0 and the
  threshold 90.
\<close>

theorem coverage_gate:
  "fst (coverage_main en cover args) = 0 \<longleftrightarrow>
     (\<exists>profile rest output. args = profile # rest \<and> cover profile = (None, output) \<and>
        (flag_values rest = [] \<or> \<not> float_less (report_total en output) (last_read en (Fin 90) (flag_values rest))))"
  by (cases args)
    (auto simp: coverage_main_def Let_def hasThreshold_eq threshold_loop_eq total_loop_eq report_total_def split: prod.splits option.splits)

definition demo_cover_env :: os_env where
  "demo_cover_env =
     \<lparr>os_ReadFile = (\<lambda>_. Inl (errors_New ''no such file'')), os_Getenv = (\<lambda>_. []), json_parse = (\<lambda>_. Inl (errors_New ''syntax'')),
      ParseFloat = (\<lambda>s. if s = ''93.1'' then Inr (Fin (931 / 10)) else if s = ''95'' then Inr (Fin 95) else Inl (errors_New ''syntax''))\<rparr>"

definition demo_report :: string where
  "demo_report = ''main.go:11: main 0.0%'' @ CHR 0x0A # ''total: (statements) 93.1%'' @ [CHR 0x0A]"

theorem coverage_gate_witness:
  "fst (coverage_main demo_cover_env (\<lambda>_. (None, demo_report)) [''c.out'', ''--threshold=x'']) = 0
     \<and> fst (coverage_main demo_cover_env (\<lambda>_. (None, demo_report)) [''c.out'', ''--threshold=95'']) \<noteq> 0"
proof -
  have total: "report_total demo_cover_env demo_report = Fin (931 / 10)" by code_simp
  have "flag_values [''--threshold=x''] = [''x'']" "last_read demo_cover_env (Fin 90) [''x''] = Fin 90"
    "flag_values [''--threshold=95''] = [''95'']" "last_read demo_cover_env (Fin 90) [''95''] = Fin 95" by code_simp+
  then show ?thesis by (simp add: coverage_gate total)
qed

end
